(* ===== verification/Oasis_Prelude.thy ===== *)
theory Oasis_Prelude
  imports Main "HOL-Library.AList"
begin

text \<open>
  Shared vocabulary of the development: the Python exceptions the modelled code raises, the
  result type of fallible operations, Python strings, dictionaries (association lists in
  insertion order), rounding division, and the generic lemmas the component theories use.
\<close>

section \<open>Rule collections\<close>

named_theorems exn_simps \<open>unfolding of the error-valued combinators\<close>
named_theorems status_simps \<open>membership in the status lists of the lifecycle\<close>
named_theorems frame_simps \<open>fields an operation leaves alone\<close>

section \<open>Exceptions and results\<close>

text \<open>
  The exceptions the modelled code raises or lets through. \<open>ValidationError\<close> and
  \<open>PermissionDenied\<close> are the REST framework's; a validation error carries the offending
  keys with their messages, as the code builds them.
\<close>

datatype py_exn =
    ValueError string
  | TypeError string
  | KeyError string
  | AttributeError string
  | IndexError string
  | ZeroDivisionError
  | ValidationError "(string \<times> string list) list"
  | PermissionDenied string
  | ObjectDoesNotExist string
  | Http404
  | NameError string
  | UnboundLocalError string
  | TimeoutError string
  | NotImplementedError
  | ClientError string
  | RuntimeError string

type_synonym 'a result = "py_exn + 'a"

definition rbind :: "'a result \<Rightarrow> ('a \<Rightarrow> 'b result) \<Rightarrow> 'b result" where
  "rbind r f = (case r of Inl e \<Rightarrow> Inl e | Inr x \<Rightarrow> f x)"

lemma rbind_Inl [simp]: "rbind (Inl e) f = Inl e"
  by (simp add: rbind_def)

lemma rbind_Inr [simp]: "rbind (Inr x) f = f x"
  by (simp add: rbind_def)

lemma rbind_eq_Inr [exn_simps]: "rbind r f = Inr y \<longleftrightarrow> (\<exists>x. r = Inr x \<and> f x = Inr y)"
  by (cases r) auto

lemma rbind_eq_Inl [exn_simps]: "rbind r f = Inl e \<longleftrightarrow> r = Inl e \<or> (\<exists>x. r = Inr x \<and> f x = Inl e)"
  by (cases r) auto

definition is_ok :: "'a result \<Rightarrow> bool" where
  "is_ok r = (case r of Inl _ \<Rightarrow> False | Inr _ \<Rightarrow> True)"

lemma is_ok_simps [simp]: "is_ok (Inr x)" "\<not> is_ok (Inl e)"
  by (simp_all add: is_ok_def)

section \<open>Strings\<close>

text \<open>
  Python's \<open>str.lower\<close> on the ASCII letters, the alphabet of model and queue names.
\<close>

definition lower_char :: "char \<Rightarrow> char" where
  "lower_char c = (let n = (of_char c :: nat) in
     if 65 \<le> n \<and> n \<le> 90 then char_of (n + 32) else c)"

definition lower :: "string \<Rightarrow> string" where
  "lower s = map lower_char s"

lemma lower_char_idem [simp]: "lower_char (lower_char c) = lower_char c"
proof -
  have "of_char (char_of (of_char c + 32 :: nat) :: char) = (of_char c + 32 :: nat)"
    if "of_char c \<le> (90::nat)"
    using that by (simp add: of_char_of)
  then show ?thesis by (auto simp: lower_char_def Let_def)
qed

lemma lower_idem [simp]: "lower (lower s) = lower s"
  by (simp add: lower_def)

lemma lower_Nil [simp]: "lower [] = []"
  by (simp add: lower_def)

lemma lower_append: "lower (s @ t) = lower s @ lower t"
  by (simp add: lower_def)

lemma length_lower [simp]: "length (lower s) = length s"
  by (simp add: lower_def)

text \<open>
  \<open>s.split(c)\<close> for a one-character separator (never empty) and \<open>c.join(parts)\<close>.
\<close>

fun split_on :: "char \<Rightarrow> string \<Rightarrow> string list" where
  "split_on c [] = [[]]"
| "split_on c (x # xs) =
     (if x = c then [] # split_on c xs
      else (case split_on c xs of [] \<Rightarrow> [[x]] | w # ws \<Rightarrow> (x # w) # ws))"

fun join_with :: "char \<Rightarrow> string list \<Rightarrow> string" where
  "join_with c [] = []"
| "join_with c [w] = w"
| "join_with c (w # ws) = w @ c # join_with c ws"

lemma split_on_nonempty [simp]: "split_on c s \<noteq> []"
  by (induction s) (auto split: list.splits)

lemma split_on_no_sep: "c \<notin> set s \<Longrightarrow> split_on c s = [s]"
  by (induction s) auto

lemma split_on_append_sep: "c \<notin> set w \<Longrightarrow> split_on c (w @ c # s) = w # split_on c s"
  by (induction w) auto

lemma split_join:
  "ws \<noteq> [] \<Longrightarrow> (\<forall>w \<in> set ws. c \<notin> set w) \<Longrightarrow> split_on c (join_with c ws) = ws"
  by (induction c ws rule: join_with.induct) (auto simp: split_on_no_sep split_on_append_sep)

lemma join_split: "join_with c (split_on c s) = s"
proof (induction s)
  case (Cons x xs)
  then show ?case
    by (cases "split_on c xs"; cases "tl (split_on c xs)") auto
qed simp

definition ends_with :: "string \<Rightarrow> string \<Rightarrow> bool" where
  "ends_with s suf = (length suf \<le> length s \<and> drop (length s - length suf) s = suf)"

definition starts_with :: "string \<Rightarrow> string \<Rightarrow> bool" where
  "starts_with s pre = (take (length pre) s = pre)"

lemma ends_with_append [simp]: "ends_with (s @ t) t"
  by (simp add: ends_with_def)

lemma ends_with_iff: "ends_with s t \<longleftrightarrow> (\<exists>u. s = u @ t)"
proof
  assume "ends_with s t"
  then have "s = take (length s - length t) s @ t"
    by (metis append_take_drop_id ends_with_def)
  then show "\<exists>u. s = u @ t" by blast
qed auto

text \<open>
  \<open>s.split(sep)\<close> for a longer separator: occurrences are found from the left and do not
  overlap; the counter skips the rest of a separator that was just found.
\<close>

fun split_sub :: "string \<Rightarrow> nat \<Rightarrow> string \<Rightarrow> string \<Rightarrow> string list" where
  "split_sub sep k acc [] = [rev acc]"
| "split_sub sep (Suc k) acc (x # xs) = split_sub sep k acc xs"
| "split_sub sep 0 acc (x # xs) =
     (if starts_with (x # xs) sep then rev acc # split_sub sep (length sep - 1) [] xs
      else split_sub sep 0 (x # acc) xs)"

lemma split_sub_nonempty [simp]: "split_sub sep k acc s \<noteq> []"
  by (induction sep k acc s rule: split_sub.induct) auto

text \<open>
  A string that may be missing (\<open>None\<close>): its truth value, and \<open>a if a else b\<close>.
\<close>

definition str_truthy :: "string option \<Rightarrow> bool" where
  "str_truthy s \<longleftrightarrow> s \<noteq> None \<and> s \<noteq> Some []"

definition str_or :: "string option \<Rightarrow> string \<Rightarrow> string" where
  "str_or a b = (if str_truthy a then the a else b)"

text \<open>
  \<open>os.path.basename\<close>, \<open>os.path.splitext\<close> (a leading dot does not start an extension) and
  \<open>os.path.join\<close> of two components.
\<close>

definition basename :: "string \<Rightarrow> string" where
  "basename s = last (split_on CHR ''/'' s)"

definition splitext :: "string \<Rightarrow> string \<times> string" where
  "splitext s =
     (let parts = split_on CHR ''.'' (basename s);
          stem = join_with CHR ''.'' (butlast parts);
          ext = CHR ''.'' # last parts in
      if list_ex (\<lambda>c. c \<noteq> CHR ''.'') stem then (take (length s - length ext) s, ext) else (s, []))"

definition path_join :: "string \<Rightarrow> string \<Rightarrow> string" where
  "path_join a b =
     (if starts_with b ''/'' then b
      else if a = [] \<or> ends_with a ''/'' then a @ b
      else a @ ''/'' @ b)"

text \<open>
  \<open>str(n)\<close> for a natural number, as the f-strings that build slugs use it.
\<close>

fun digit_char :: "nat \<Rightarrow> char" where
  "digit_char n = char_of (48 + n)"

fun str_nat :: "nat \<Rightarrow> string" where
  "str_nat n = (if n < 10 then [digit_char n] else str_nat (n div 10) @ [digit_char (n mod 10)])"

declare str_nat.simps [simp del]

definition str_int :: "int \<Rightarrow> string" where
  "str_int i = (if i < 0 then ''-'' @ str_nat (nat (- i)) else str_nat (nat i))"

lemma digit_char_code: "n < 10 \<Longrightarrow> of_char (digit_char n) = (48 + n :: nat)"
  by (simp add: of_char_of)

lemma digit_char_inj: "m < 10 \<Longrightarrow> n < 10 \<Longrightarrow> digit_char m = digit_char n \<Longrightarrow> m = n"
  using digit_char_code by (metis add_left_cancel)

lemma str_nat_nonempty [simp]: "str_nat n \<noteq> []"
  by (subst str_nat.simps) simp

lemma str_nat_inj: "str_nat m = str_nat n \<Longrightarrow> m = n"
proof (induction m arbitrary: n rule: str_nat.induct)
  case (1 m)
  show ?case
  proof (cases "m < 10")
    case m: True
    show ?thesis
    proof (cases "n < 10")
      case True
      with m "1.prems" show ?thesis
        using digit_char_inj by (simp add: str_nat.simps del: digit_char.simps)
    next
      case False
      with m "1.prems" have "[] = str_nat (n div 10)"
        by (simp add: str_nat.simps [of m] str_nat.simps [of n] del: digit_char.simps)
      then show ?thesis using str_nat_nonempty [of "n div 10"] by simp
    qed
  next
    case m: False
    show ?thesis
    proof (cases "n < 10")
      case True
      with m "1.prems" have "str_nat (m div 10) = []"
        by (simp add: str_nat.simps [of m] str_nat.simps [of n] del: digit_char.simps)
      then show ?thesis by simp
    next
      case n: False
      from m n "1.prems"
      have "str_nat (m div 10) = str_nat (n div 10)"
        and "digit_char (m mod 10) = digit_char (n mod 10)"
        by (simp_all add: str_nat.simps [of m] str_nat.simps [of n] del: digit_char.simps)
      then have "m div 10 = n div 10" "m mod 10 = n mod 10"
        using "1.IH" [OF m] digit_char_inj [of "m mod 10" "n mod 10"] by auto
      then show ?thesis by (metis div_mult_mod_eq)
    qed
  qed
qed

lemma str_nat_digits: "c \<in> set (str_nat n) \<Longrightarrow> 48 \<le> (of_char c :: nat) \<and> (of_char c :: nat) \<le> 57"
proof (induction n rule: str_nat.induct)
  case (1 n)
  show ?case
  proof (cases "n < 10")
    case True
    with "1.prems" show ?thesis
      using digit_char_code [of n] by (simp add: str_nat.simps del: digit_char.simps)
  next
    case False
    with "1.prems" "1.IH" show ?thesis
      using digit_char_code [of "n mod 10"]
      by (auto simp add: str_nat.simps [of n] simp del: digit_char.simps)
  qed
qed

section \<open>Dictionaries\<close>

text \<open>
  A Python dictionary iterates in insertion order and keeps the position of a key that is
  assigned again. \<^const>\<open>AList.update\<close> does both; \<^const>\<open>map_of\<close> is the lookup, and
  \<open>{**a, **b}\<close> assigns the items of \<open>b\<close> in order to a copy of \<open>a\<close>.
\<close>

type_synonym ('k, 'v) dict = "('k \<times> 'v) list"

definition dict_merge :: "('k, 'v) dict \<Rightarrow> ('k, 'v) dict \<Rightarrow> ('k, 'v) dict" where
  "dict_merge a b = fold (\<lambda>(k, v) d. AList.update k v d) b a"

abbreviation dict_values :: "('k, 'v) dict \<Rightarrow> 'v list" where
  "dict_values d \<equiv> map snd d"

abbreviation dict_keys :: "('k, 'v) dict \<Rightarrow> 'k list" where
  "dict_keys d \<equiv> map fst d"

lemma dict_update_lookup [simp]:
  "map_of (AList.update k v d) k' = (if k' = k then Some v else map_of d k')"
  by (simp add: update_conv')

lemma dict_update_keys [simp]: "set (dict_keys (AList.update k v d)) = insert k (set (dict_keys d))"
  by (induction d) auto

lemma dict_merge_Nil [simp]: "dict_merge a [] = a"
  by (simp add: dict_merge_def)

lemma dict_merge_Cons [simp]:
  "dict_merge a ((k, v) # b) = dict_merge (AList.update k v a) b"
  by (simp add: dict_merge_def)

lemma dict_merge_lookup:
  "distinct (dict_keys b) \<Longrightarrow>
   map_of (dict_merge a b) k = (case map_of b k of None \<Rightarrow> map_of a k | Some v \<Rightarrow> Some v)"
proof (induction b arbitrary: a)
  case (Cons p b)
  then show ?case
    by (cases p) (auto split: option.splits dest: map_of_SomeD simp: image_iff
        dest!: sym [of _ "fst _"] intro: weak_map_of_SomeI) 
qed simp

lemma dict_merge_distinct:
  "distinct (dict_keys a) \<Longrightarrow> distinct (dict_keys (dict_merge a b))"
  by (induction b arbitrary: a) (auto simp: distinct_update)

section \<open>Numbers\<close>

text \<open>
  \<open>math.ceil(a / b)\<close> for integers. Python divides in double precision; the quotient is
  exact enough for the ceiling to be the mathematical one as long as \<open>\<bar>a\<bar> < 2 ^ 53\<close>, far
  above the small-integer columns the code reads.
\<close>

definition ceil_div :: "int \<Rightarrow> int \<Rightarrow> int" where
  "ceil_div a b = - ((- a) div b)"

lemma pos_le_div_conv: "0 < b \<Longrightarrow> m \<le> x div b \<longleftrightarrow> m * b \<le> (x::int)"
proof
  assume "0 < b" "m \<le> x div b"
  then have "m * b \<le> (x div b) * b" by (simp add: mult_right_mono)
  also have "\<dots> \<le> x"
    using \<open>0 < b\<close> by (metis add_increasing2 div_mult_mod_eq order_refl pos_mod_sign)
  finally show "m * b \<le> x" .
next
  assume "0 < b" "m * b \<le> x"
  then show "m \<le> x div b"
    by (metis nonzero_mult_div_cancel_right not_less_iff_gr_or_eq zdiv_mono1)
qed

lemma ceil_div_least:
  assumes "0 < b"
  shows "ceil_div a b \<le> n \<longleftrightarrow> a \<le> n * b"
proof -
  have "ceil_div a b \<le> n \<longleftrightarrow> - n \<le> (- a) div b" by (auto simp: ceil_div_def)
  also have "\<dots> \<longleftrightarrow> (- n) * b \<le> - a"
    using assms by (rule pos_le_div_conv)
  finally show ?thesis by auto
qed

lemma ceil_div_ge: "0 < b \<Longrightarrow> a \<le> ceil_div a b * b"
  using ceil_div_least by blast

lemma ceil_div_pos: "0 < b \<Longrightarrow> 0 < a \<Longrightarrow> 0 < ceil_div a b"
  using ceil_div_least [of b a 0] by auto

lemma ceil_div_nonneg: "0 < b \<Longrightarrow> 0 \<le> a \<Longrightarrow> 0 \<le> ceil_div a b"
  by (metis ceil_div_pos ceil_div_def div_0 le_less minus_zero)

lemma max_if: "max a b = (if a > b then a else (b::int))"
  by (simp add: max_def)

section \<open>Lists\<close>

text \<open>\<open>xs[0:n]\<close>: a negative bound counts from the end.\<close>

definition slice_to :: "'a list \<Rightarrow> int \<Rightarrow> 'a list" where
  "slice_to xs n = (if 0 \<le> n then take (nat n) xs else take (nat (int (length xs) + n)) xs)"

text \<open>Assigning to the first element that satisfies a test.\<close>

fun update_first :: "('a \<Rightarrow> bool) \<Rightarrow> ('a \<Rightarrow> 'a) \<Rightarrow> 'a list \<Rightarrow> 'a list" where
  "update_first P f [] = []"
| "update_first P f (x # xs) = (if P x then f x # xs else x # update_first P f xs)"

lemma length_update_first [simp]: "length (update_first P f xs) = length xs"
  by (induction xs) auto

lemma map_update_first:
  "(\<And>x. g (f x) = g x) \<Longrightarrow> map g (update_first P f xs) = map g xs"
  by (induction xs) auto

text \<open>Position of the first element that satisfies a test.\<close>

fun find_index :: "('a \<Rightarrow> bool) \<Rightarrow> 'a list \<Rightarrow> nat option" where
  "find_index P [] = None"
| "find_index P (x # xs) = (if P x then Some 0 else map_option Suc (find_index P xs))"

lemma find_index_Some:
  "find_index P xs = Some i \<Longrightarrow> i < length xs \<and> P (xs ! i) \<and> (\<forall>j < i. \<not> P (xs ! j))"
proof (induction xs arbitrary: i)
  case (Cons x xs)
  then show ?case
    by (auto split: if_splits simp: less_Suc_eq_0_disj)
qed simp

lemma find_index_None: "find_index P xs = None \<longleftrightarrow> (\<forall>x \<in> set xs. \<not> P x)"
  by (induction xs) auto

section \<open>Invariants of step relations\<close>

text \<open>A property that every step keeps holds after any number of steps.\<close>

locale step_invariant =
  fixes step :: "'s \<Rightarrow> 's \<Rightarrow> bool"
    and inv :: "'s \<Rightarrow> bool"
  assumes keeps: "step s s' \<Longrightarrow> inv s \<Longrightarrow> inv s'"
begin

lemma steps: "step\<^sup>*\<^sup>* s s' \<Longrightarrow> inv s \<Longrightarrow> inv s'"
  by (induction rule: rtranclp_induct) (auto intro: keeps)

end

end
