(* ===== verification/Autoscaler_Rules.thy ===== *)
theory Autoscaler_Rules
  imports Oasis_Prelude
begin

text \<open>
  The scaling rules of the Kubernetes worker controller
  (\<open>kubernetes/worker-controller/src/autoscaler_rules.py\<close> and the message types of
  \<open>models.py\<close>): how many workers a model should have, given its scaling settings and the
  tasks and analyses waiting for it.
\<close>

section \<open>Data\<close>

text \<open>
  The auto scaling settings are the JSON object of the API's scaling configuration: the five
  keys below, \<open>None\<close> for a key that is absent. Counts arrive as JSON integers, on which
  \<open>int(\<dots>)\<close> is the identity.
\<close>

record auto_scaling =
  scaling_strategy :: "string option"
  worker_count_fixed :: "int option"
  worker_count_max :: "int option"
  worker_count_min :: "int option"
  chunks_per_worker :: "int option"

record model_state =
  tasks :: int
  analyses :: int
  priority :: int

record running_analysis =
  ra_id :: "int option"
  ra_tasks :: int
  ra_queue_names :: "string list"
  ra_priority :: int

section \<open>Operations\<close>

text \<open>A required setting is rejected when it is absent or zero: both are falsy.\<close>

definition get_req_setting :: "int option \<Rightarrow> string \<Rightarrow> int result" where
  "get_req_setting v nm = (case v of
     None \<Rightarrow> Inl (ValueError (''Missing required attribute '' @ nm))
   | Some n \<Rightarrow> if n = 0 then Inl (ValueError (''Missing required attribute '' @ nm)) else Inr n)"

definition worker_min :: "auto_scaling \<Rightarrow> int" where
  "worker_min s = (case worker_count_min s of None \<Rightarrow> 0 | Some n \<Rightarrow> n)"

definition analysis_in_progress :: "model_state \<Rightarrow> bool" where
  "analysis_in_progress m \<longleftrightarrow> tasks m > 0 \<or> analyses m > 0"

text \<open>
  \<open>get_desired_worker_count\<close>, branch by branch. The maximum is read (and required) for the
  two load based strategies before anything else is decided. \<open>int(None)\<close> is a
  \<open>TypeError\<close>, a zero \<open>chunks_per_worker\<close> a \<open>ZeroDivisionError\<close>.
\<close>

definition get_desired_worker_count :: "auto_scaling \<Rightarrow> model_state \<Rightarrow> bool \<Rightarrow> int result" where
  "get_desired_worker_count s m never_shutdown_fixed_workers =
     (case scaling_strategy s of
        None \<Rightarrow> Inl (ValueError ''No valid auto scaling configuration for model'')
      | Some strategy \<Rightarrow>
          if strategy = [] then Inl (ValueError ''No valid auto scaling configuration for model'')
          else rbind
            (if strategy \<in> set [''QUEUE_LOAD'', ''DYNAMIC_TASKS'']
             then get_req_setting (worker_count_max s) ''worker_count_max'' else Inr 0)
            (\<lambda>worker_count_max.
             if strategy = ''FIXED_WORKERS'' \<and> never_shutdown_fixed_workers then
               rbind (get_req_setting (worker_count_fixed s) ''worker_count_fixed'')
                 (\<lambda>n. Inr (max n (worker_min s)))
             else if \<not> analysis_in_progress m then Inr (worker_min s)
             else if strategy = ''FIXED_WORKERS'' then
               rbind (get_req_setting (worker_count_fixed s) ''worker_count_fixed'')
                 (\<lambda>count. Inr (max count (worker_min s)))
             else if strategy = ''QUEUE_LOAD'' then
               Inr (max (min (analyses m) worker_count_max) (worker_min s))
             else if strategy = ''DYNAMIC_TASKS'' then
               (case chunks_per_worker s of
                  None \<Rightarrow> Inl (TypeError ''int() argument must not be None'')
                | Some cpw \<Rightarrow>
                    if cpw = 0 then Inl ZeroDivisionError
                    else Inr (max (min (ceil_div (tasks m) cpw) worker_count_max) (worker_min s)))
             else Inl (ValueError ''Unsupported scaling strategy'')))"

section \<open>Lemmas\<close>

lemma get_req_setting_Inr [exn_simps]:
  "get_req_setting v nm = Inr n \<longleftrightarrow> v = Some n \<and> n \<noteq> 0"
  by (auto simp: get_req_setting_def split: option.splits)

lemma get_req_setting_Inl:
  "get_req_setting v nm = Inl e \<Longrightarrow> e = ValueError (''Missing required attribute '' @ nm)"
  by (auto simp: get_req_setting_def split: option.splits if_splits)

lemmas desired_splits = option.splits if_splits sum.splits

text \<open>The settings the API serialiser lets through: no negative count.\<close>

definition settings_ok :: "auto_scaling \<Rightarrow> bool" where
  "settings_ok s \<longleftrightarrow>
     (\<exists>fx mx mn cpw. worker_count_fixed s = Some fx \<and> worker_count_max s = Some mx \<and>
        worker_count_min s = Some mn \<and> chunks_per_worker s = Some cpw \<and>
        0 < fx \<and> 0 < mx \<and> 0 \<le> mn \<and> 0 < cpw) \<and>
     scaling_strategy s \<in> {Some ''FIXED_WORKERS'', Some ''QUEUE_LOAD'', Some ''DYNAMIC_TASKS''}"

lemma settings_ok_min: "settings_ok s \<Longrightarrow> 0 \<le> worker_min s"
  by (auto simp: settings_ok_def worker_min_def)

lemma desired_ge_min:
  "get_desired_worker_count s m b = Inr n \<Longrightarrow> worker_min s \<le> n"
  by (auto simp: get_desired_worker_count_def exn_simps split: desired_splits)

lemma desired_idle:
  "get_desired_worker_count s m b = Inr n \<Longrightarrow> \<not> analysis_in_progress m \<Longrightarrow>
   \<not> (scaling_strategy s = Some ''FIXED_WORKERS'' \<and> b) \<Longrightarrow> n = worker_min s"
  by (auto simp: get_desired_worker_count_def exn_simps split: desired_splits)

lemma settings_okE:
  assumes "settings_ok s"
  obtains st fx mx mn cpw where
    "scaling_strategy s = Some st"
    "st = ''FIXED_WORKERS'' \<or> st = ''QUEUE_LOAD'' \<or> st = ''DYNAMIC_TASKS''"
    "worker_count_fixed s = Some fx" "worker_count_max s = Some mx"
    "worker_count_min s = Some mn" "chunks_per_worker s = Some cpw"
    "0 < fx" "0 < mx" "0 \<le> mn" "0 < cpw"
  using assms unfolding settings_ok_def by blast

lemma desired_total:
  assumes "settings_ok s"
  shows "\<exists>n. get_desired_worker_count s m b = Inr n"
  using assms
  by (elim settings_okE disjE) (simp_all add: get_desired_worker_count_def get_req_setting_def)

lemma desired_le_max:
  "get_desired_worker_count s m b = Inr n \<Longrightarrow>
   scaling_strategy s \<in> {Some ''QUEUE_LOAD'', Some ''DYNAMIC_TASKS''} \<Longrightarrow>
   \<exists>mx. worker_count_max s = Some mx \<and> n \<le> max mx (worker_min s)"
  by (auto simp: get_desired_worker_count_def exn_simps split: desired_splits)

section \<open>Properties\<close>

text \<open>
  For settings the API accepts, the desired worker count is always defined, is never below
  the configured minimum, and for the load based strategies never exceeds the configured maximum
  (or the minimum, when that is larger).
\<close>

theorem desired_worker_count_bounds:
  assumes "settings_ok s"
  shows "\<exists>n. get_desired_worker_count s m b = Inr n \<and> 0 \<le> worker_min s \<and> worker_min s \<le> n \<and>
    (scaling_strategy s \<in> {Some ''QUEUE_LOAD'', Some ''DYNAMIC_TASKS''} \<longrightarrow>
       n \<le> max (the (worker_count_max s)) (worker_min s))"
proof -
  obtain n where n: "get_desired_worker_count s m b = Inr n" using desired_total [OF assms] by blast
  show ?thesis
    using n desired_ge_min [OF n] desired_le_max [OF n] settings_ok_min [OF assms]
    by (metis option.sel)
qed

definition example_settings :: auto_scaling where
  "example_settings = \<lparr>scaling_strategy = Some ''DYNAMIC_TASKS'', worker_count_fixed = Some 1,
     worker_count_max = Some 10, worker_count_min = Some 0, chunks_per_worker = Some 4\<rparr>"

lemma example_settings_ok: "settings_ok example_settings"
  by (simp add: settings_ok_def example_settings_def)

theorem desired_worker_count_bounds_witness:
  "\<exists>n. get_desired_worker_count example_settings \<lparr>tasks = 22, analyses = 1, priority = 4\<rparr> False = Inr n \<and>
     0 \<le> worker_min example_settings \<and> worker_min example_settings \<le> n \<and>
     (scaling_strategy example_settings \<in> {Some ''QUEUE_LOAD'', Some ''DYNAMIC_TASKS''} \<longrightarrow>
       n \<le> max (the (worker_count_max example_settings)) (worker_min example_settings))"
  by (rule desired_worker_count_bounds [OF example_settings_ok])

text \<open>
  Under the dynamic strategy a running model gets the smallest number of workers whose joint
  capacity covers its tasks: when neither bound applies, the workers can hold all tasks and one
  worker fewer could not.
\<close>

theorem dynamic_workers_least_capacity:
  assumes "scaling_strategy s = Some ''DYNAMIC_TASKS''" "chunks_per_worker s = Some cpw" "0 < cpw"
    and "worker_count_max s = Some mx" "analysis_in_progress m"
    and "get_desired_worker_count s m b = Inr n" "worker_min s < n" "n < mx"
  shows "tasks m \<le> n * cpw \<and> (n - 1) * cpw < tasks m"
proof -
  have n: "n = max (min (ceil_div (tasks m) cpw) mx) (worker_min s)"
    using assms(1-6)
    by (auto simp: get_desired_worker_count_def get_req_setting_def split: if_splits)
  then have eq: "n = ceil_div (tasks m) cpw" using assms(7,8) by auto
  have "\<not> ceil_div (tasks m) cpw \<le> n - 1" by (simp add: eq)
  then have "\<not> tasks m \<le> (n - 1) * cpw"
    using ceil_div_least [OF assms(3), of "tasks m" "n - 1"] by blast
  with ceil_div_ge [OF assms(3), of "tasks m"] show ?thesis by (simp add: eq)
qed

theorem dynamic_workers_least_capacity_witness:
  "tasks \<lparr>tasks = 22, analyses = 1, priority = 4\<rparr> \<le> 6 * 4 \<and>
   (6 - 1) * 4 < tasks \<lparr>tasks = 22, analyses = 1, priority = 4\<rparr>"
  by (rule dynamic_workers_least_capacity [where s = example_settings and b = False and mx = 10])
     (simp_all add: example_settings_def analysis_in_progress_def get_desired_worker_count_def
       get_req_setting_def worker_min_def ceil_div_def)

end
