(* ===== verification/Worker_Deployments.thy ===== *)
theory Worker_Deployments
  imports Autoscaler_Rules
begin

text \<open>
  The worker controller's cache of worker deployments
  (\<open>kubernetes/worker-controller/src/worker_deployments.py\<close>) and the watcher callback that
  feeds it (\<open>cluster_client.py\<close>). The Python list holds mutable objects that the autoscaler
  refers to as well; a reference is the position in the list.
\<close>

section \<open>Data\<close>

record worker_deployment =
  wd_name :: string
  wd_supplier_id :: string
  wd_model_id :: string
  wd_model_version_id :: string
  wd_api_version :: "string option"
  wd_oasis_model_id :: "int option"
  wd_replicas :: "int option"
  wd_auto_scaling :: "auto_scaling option"

definition new_worker_deployment ::
  "string \<Rightarrow> string \<Rightarrow> string \<Rightarrow> string \<Rightarrow> string option \<Rightarrow> worker_deployment" where
  "new_worker_deployment name supplier_id model_id model_version_id api_version =
     \<lparr>wd_name = name, wd_supplier_id = supplier_id, wd_model_id = model_id,
      wd_model_version_id = model_version_id, wd_api_version = api_version,
      wd_oasis_model_id = None, wd_replicas = None, wd_auto_scaling = None\<rparr>"

definition id_string :: "worker_deployment \<Rightarrow> string" where
  "id_string wd = (case wd_api_version wd of
     None \<Rightarrow> lower (join_with CHR ''-'' [wd_supplier_id wd, wd_model_id wd, wd_model_version_id wd])
   | Some v \<Rightarrow>
       lower (join_with CHR ''-'' [wd_supplier_id wd, wd_model_id wd, wd_model_version_id wd, v]))"

type_synonym deployments = "worker_deployment list"

section \<open>Lookup\<close>

definition same_model :: "string \<Rightarrow> string \<Rightarrow> string \<Rightarrow> worker_deployment \<Rightarrow> bool" where
  "same_model supplier_id model_id model_version_id wd \<longleftrightarrow>
     lower (wd_supplier_id wd) = lower supplier_id \<and>
     lower (wd_model_id wd) = lower model_id \<and>
     lower (wd_model_version_id wd) = lower model_version_id"

text \<open>
  The loop with an API version calls \<open>wd.api_version.lower()\<close> on every deployment it passes,
  which fails on one that has none.
\<close>

fun find_with_version ::
  "string \<Rightarrow> string \<Rightarrow> string \<Rightarrow> string \<Rightarrow> deployments \<Rightarrow> nat option result" where
  "find_with_version su mo ve av [] = Inr None"
| "find_with_version su mo ve av (wd # wds) =
     (case wd_api_version wd of
        None \<Rightarrow> Inl (AttributeError ''NoneType has no attribute lower'')
      | Some v \<Rightarrow>
          if same_model su mo ve wd \<and> lower v = lower av then Inr (Some 0)
          else rbind (find_with_version su mo ve av wds) (\<lambda>r. Inr (map_option Suc r)))"

definition get_worker_deployment ::
  "deployments \<Rightarrow> string \<Rightarrow> string \<Rightarrow> string \<Rightarrow> string option \<Rightarrow> nat option result" where
  "get_worker_deployment wds supplier_id model_id model_version_id api_version =
     (case api_version of
        Some av \<Rightarrow> find_with_version supplier_id model_id model_version_id av wds
      | None \<Rightarrow> Inr (find_index (same_model supplier_id model_id model_version_id) wds))"

definition get_worker_deployment_by_name_id :: "deployments \<Rightarrow> string \<Rightarrow> nat option result" where
  "get_worker_deployment_by_name_id wds name_id =
     (case split_on CHR ''-'' name_id of
        [a, b, c] \<Rightarrow> get_worker_deployment wds a b c None
      | [a, b, c, d] \<Rightarrow> get_worker_deployment wds a b c (Some d)
      | _ \<Rightarrow> Inr None)"

section \<open>Updates\<close>

definition update_worker ::
  "deployments \<Rightarrow> string \<Rightarrow> string \<Rightarrow> string \<Rightarrow> string \<Rightarrow> string \<Rightarrow> int \<Rightarrow> deployments result" where
  "update_worker wds name supplier_id model_id model_version_id api_version replicas =
     rbind (get_worker_deployment wds supplier_id model_id model_version_id (Some api_version))
       (\<lambda>found. case found of
          None \<Rightarrow>
            Inr (wds @ [(new_worker_deployment name supplier_id model_id model_version_id
                           (Some api_version))\<lparr>wd_replicas := Some replicas\<rparr>])
        | Some i \<Rightarrow> Inr (wds[i := (wds ! i)\<lparr>wd_replicas := Some replicas\<rparr>]))"

definition delete_worker :: "deployments \<Rightarrow> string \<Rightarrow> deployments" where
  "delete_worker wds name = filter (\<lambda>wd. wd_name wd \<noteq> name) wds"

text \<open>
  A Kubernetes watch event carries the deployment's name, its labels and its replica count;
  a missing label reads as the empty string.
\<close>

record k8s_deployment =
  k8s_name :: string
  k8s_labels :: "(string, string) dict"
  k8s_replicas :: int

definition label_or_empty :: "(string, string) dict \<Rightarrow> string \<Rightarrow> string" where
  "label_or_empty ls k = (case map_of ls k of None \<Rightarrow> [] | Some v \<Rightarrow> v)"

definition update_deployment :: "deployments \<Rightarrow> k8s_deployment \<Rightarrow> string option \<Rightarrow> deployments result" where
  "update_deployment wds d ty =
     (if ty = Some ''DELETED'' then Inr (delete_worker wds (k8s_name d))
      else update_worker wds (k8s_name d)
             (label_or_empty (k8s_labels d) ''oasislmf/supplier-id'')
             (label_or_empty (k8s_labels d) ''oasislmf/model-id'')
             (label_or_empty (k8s_labels d) ''oasislmf/model-version-id'')
             (label_or_empty (k8s_labels d) ''oasislmf/api-version'')
             (k8s_replicas d))"

fun load_deployments :: "deployments \<Rightarrow> k8s_deployment list \<Rightarrow> deployments result" where
  "load_deployments wds [] = Inr wds"
| "load_deployments wds (d # ds) =
     rbind (update_deployment wds d None) (\<lambda>wds'. load_deployments wds' ds)"

section \<open>Invariant\<close>

text \<open>
  Every cached deployment has an API version and a replica count, and no two of them are for
  the same model and version (case-insensitively).
\<close>

definition wd_key :: "worker_deployment \<Rightarrow> string \<times> string \<times> string \<times> string option" where
  "wd_key wd = (lower (wd_supplier_id wd), lower (wd_model_id wd), lower (wd_model_version_id wd),
     map_option lower (wd_api_version wd))"

definition complete :: "worker_deployment \<Rightarrow> bool" where
  "complete wd \<longleftrightarrow> wd_api_version wd \<noteq> None \<and> wd_replicas wd \<noteq> None"

definition deployments_ok :: "deployments \<Rightarrow> bool" where
  "deployments_ok wds \<longleftrightarrow> list_all complete wds \<and> distinct (map wd_key wds)"

lemma find_with_version_total:
  "list_all complete wds \<Longrightarrow>
   find_with_version su mo ve av wds =
     Inr (find_index (\<lambda>wd. wd_key wd = (lower su, lower mo, lower ve, Some (lower av))) wds)"
  by (induction wds)
     (auto simp: complete_def same_model_def wd_key_def split: option.splits)

lemma update_worker_cases:
  assumes "deployments_ok wds"
  shows "update_worker wds nm su mo ve av n =
    (case find_index (\<lambda>wd. wd_key wd = (lower su, lower mo, lower ve, Some (lower av))) wds of
       None \<Rightarrow> Inr (wds @ [(new_worker_deployment nm su mo ve (Some av))\<lparr>wd_replicas := Some n\<rparr>])
     | Some i \<Rightarrow> Inr (wds[i := (wds ! i)\<lparr>wd_replicas := Some n\<rparr>]))"
  using assms
  by (simp add: update_worker_def get_worker_deployment_def deployments_ok_def
      find_with_version_total)

lemma wd_key_replicas [simp]: "wd_key (wd\<lparr>wd_replicas := r\<rparr>) = wd_key wd"
  by (simp add: wd_key_def)

lemma wd_key_new: "wd_key (new_worker_deployment nm su mo ve (Some av)) =
    (lower su, lower mo, lower ve, Some (lower av))"
  by (simp add: wd_key_def new_worker_deployment_def)

lemma map_list_update_same: "g x = g (xs ! i) \<Longrightarrow> map g (xs[i := x]) = map g xs"
  by (metis list_update_id map_update)

lemma update_worker_ok:
  assumes ok: "deployments_ok wds" and upd: "update_worker wds nm su mo ve av n = Inr wds'"
  shows "deployments_ok wds'"
proof (cases "find_index (\<lambda>wd. wd_key wd = (lower su, lower mo, lower ve, Some (lower av))) wds")
  case None
  then have "wd_key wd \<noteq> (lower su, lower mo, lower ve, Some (lower av))" if "wd \<in> set wds" for wd
    using that by (simp add: find_index_None)
  then have "(lower su, lower mo, lower ve, Some (lower av)) \<notin> wd_key ` set wds" by (metis imageE)
  moreover from None ok upd
  have "wds' = wds @ [(new_worker_deployment nm su mo ve (Some av))\<lparr>wd_replicas := Some n\<rparr>]"
    by (simp add: update_worker_cases)
  ultimately show ?thesis using ok
    by (simp add: deployments_ok_def wd_key_new complete_def) (simp add: new_worker_deployment_def)
next
  case (Some i)
  with ok upd have eq: "wds' = wds[i := (wds ! i)\<lparr>wd_replicas := Some n\<rparr>]"
    by (simp add: update_worker_cases)
  from Some have i: "i < length wds" using find_index_Some by blast
  have "complete (wds ! i)"
    using ok i by (simp add: deployments_ok_def list_all_length)
  then have "list_all complete wds'"
    using ok by (auto simp: eq deployments_ok_def list_all_iff complete_def
        dest!: set_update_subset_insert [THEN subsetD])
  moreover have "map wd_key wds' = map wd_key wds"
    by (simp add: eq map_list_update_same)
  ultimately show ?thesis using ok by (simp add: deployments_ok_def)
qed

lemma delete_worker_ok: "deployments_ok wds \<Longrightarrow> deployments_ok (delete_worker wds nm)"
  by (simp add: deployments_ok_def delete_worker_def list_all_iff distinct_map_filter)

lemma update_worker_total: "deployments_ok wds \<Longrightarrow> \<exists>wds'. update_worker wds nm su mo ve av n = Inr wds'"
  by (simp add: update_worker_cases split: option.splits)

section \<open>The cache as an interface\<close>

text \<open>
  What the watcher and the autoscaler rely on: an update is found again under the same labels
  with the replica count it brought, other entries keep theirs, and a deletion removes the
  name. The abstraction maps the four normalised labels to the replica count.
\<close>

locale deployment_cache =
  fixes invar :: "'c \<Rightarrow> bool"
    and norm :: "'l \<Rightarrow> 'k"
    and upd :: "'c \<Rightarrow> 'n \<Rightarrow> 'l \<Rightarrow> int \<Rightarrow> 'c"
    and del :: "'c \<Rightarrow> 'n \<Rightarrow> 'c"
    and look :: "'c \<Rightarrow> 'k \<Rightarrow> int option"
    and name_of :: "'c \<Rightarrow> 'k \<Rightarrow> 'n option"
  assumes invar_upd: "invar c \<Longrightarrow> invar (upd c n l r)"
    and invar_del: "invar c \<Longrightarrow> invar (del c n)"
    and look_upd: "invar c \<Longrightarrow>
          look (upd c n l r) k = (if k = norm l then Some r else look c k)"
    and look_del: "invar c \<Longrightarrow>
          look (del c n) k = (if name_of c k = Some n then None else look c k)"
    and name_upd: "invar c \<Longrightarrow> name_of (upd c n l r) k =
          (if k = norm l \<and> name_of c k = None then Some n else name_of c k)"
begin

lemma invar_upds: "invar c \<Longrightarrow> invar (fold (\<lambda>(n, l, r) c. upd c n l r) es c)"
  by (induction es arbitrary: c) (auto intro: invar_upd)

text \<open>A sequence of watch updates leaves, for each key, the last replica count seen.\<close>

lemma look_upds:
  "invar c \<Longrightarrow> look (fold (\<lambda>(n, l, r) c. upd c n l r) es c) k =
     (case map_of (rev (map (\<lambda>(n, l, r). (norm l, r)) es)) k of
        None \<Rightarrow> look c k | Some r \<Rightarrow> Some r)"
proof (induction es arbitrary: c)
  case (Cons e es)
  then show ?case
    by (cases e) (auto simp: invar_upd look_upd map_add_def split: option.splits)
qed simp

lemma upd_then_del:
  "invar c \<Longrightarrow> name_of c (norm l) = None \<Longrightarrow> look (del (upd c n l r) n) (norm l) = None"
  by (simp add: look_del invar_upd name_upd)

end

type_synonym labels = "string \<times> string \<times> string \<times> string"

definition norm_labels :: "labels \<Rightarrow> string \<times> string \<times> string \<times> string option" where
  "norm_labels = (\<lambda>(a, b, c, d). (lower a, lower b, lower c, Some (lower d)))"

text \<open>The cache's update with the (never failing) result unwrapped, and its abstraction.\<close>

definition cache_upd :: "deployments \<Rightarrow> string \<Rightarrow> labels \<Rightarrow> int \<Rightarrow> deployments" where
  "cache_upd wds n l r = (case l of (a, b, c, d) \<Rightarrow>
     (case update_worker wds n a b c d r of Inr w \<Rightarrow> w | Inl _ \<Rightarrow> wds))"

definition cache_find ::
  "deployments \<Rightarrow> string \<times> string \<times> string \<times> string option \<Rightarrow> worker_deployment option" where
  "cache_find wds k = find (\<lambda>wd. wd_key wd = k) wds"

definition cache_look ::
  "deployments \<Rightarrow> string \<times> string \<times> string \<times> string option \<Rightarrow> int option" where
  "cache_look wds k = Option.bind (cache_find wds k) wd_replicas"

definition cache_name ::
  "deployments \<Rightarrow> string \<times> string \<times> string \<times> string option \<Rightarrow> string option" where
  "cache_name wds k = map_option wd_name (cache_find wds k)"

lemma find_list_update_key:
  assumes "distinct (map g xs)" "i < length xs" "g x = g (xs ! i)"
  shows "find (\<lambda>y. g y = k) (xs[i := x]) = (if k = g (xs ! i) then Some x else find (\<lambda>y. g y = k) xs)"
  using assms
proof (induction xs arbitrary: i)
  case (Cons y ys)
  then show ?case by (cases i) auto
qed simp

lemma find_index_key:
  "find_index (\<lambda>y. g y = k) xs = Some i \<Longrightarrow> i < length xs \<and> g (xs ! i) = k"
  using find_index_Some by fastforce

lemma find_append_None: "find P xs = None \<Longrightarrow> find P (xs @ ys) = find P ys"
  by (induction xs) (auto split: if_splits)

lemma find_append_Some: "find P xs = Some x \<Longrightarrow> find P (xs @ ys) = Some x"
  by (induction xs) (auto split: if_splits)

lemma cache_find_upd:
  assumes "deployments_ok wds"
  shows "cache_find (cache_upd wds n l r) k =
    (if k = norm_labels l
     then Some (case cache_find wds k of
         None \<Rightarrow> (new_worker_deployment n (fst l) (fst (snd l)) (fst (snd (snd l)))
                   (Some (snd (snd (snd l)))))\<lparr>wd_replicas := Some r\<rparr>
       | Some wd \<Rightarrow> wd\<lparr>wd_replicas := Some r\<rparr>)
     else cache_find wds k)"
proof -
  obtain a b c d where l: "l = (a, b, c, d)" by (cases l)
  let ?P = "\<lambda>wd. wd_key wd = norm_labels l"
  let ?new = "(new_worker_deployment n a b c (Some d))\<lparr>wd_replicas := Some r\<rparr>"
  have key: "norm_labels l = (lower a, lower b, lower c, Some (lower d))"
    by (simp add: l norm_labels_def)
  have new: "wd_key ?new = norm_labels l" by (simp add: key wd_key_new)
  show ?thesis
  proof (cases "find_index ?P wds")
    case None
    then have "cache_upd wds n l r = wds @ [?new]"
      using assms by (simp add: cache_upd_def l update_worker_cases key [symmetric])
    moreover have "find ?P wds = None"
      using None by (simp add: find_index_None find_None_iff)
    ultimately show ?thesis
      using new by (cases "find (\<lambda>wd. wd_key wd = k) wds")
        (auto simp: cache_find_def l find_append_None find_append_Some)
  next
    case (Some i)
    then have upd: "cache_upd wds n l r = wds[i := (wds ! i)\<lparr>wd_replicas := Some r\<rparr>]"
      using assms by (simp add: cache_upd_def l update_worker_cases key [symmetric])
    from Some have i: "i < length wds" "wd_key (wds ! i) = norm_labels l"
      using find_index_key [of wd_key] by auto
    have dist: "distinct (map wd_key wds)" using assms by (simp add: deployments_ok_def)
    have "find ?P wds = Some (wds ! i)"
      using find_list_update_key [OF dist i(1), of "wds ! i" "norm_labels l"] i by simp
    then show ?thesis
      using i by (auto simp: cache_find_def upd find_list_update_key [OF dist])
  qed
qed

lemma cache_find_del:
  "distinct (map wd_key wds) \<Longrightarrow> cache_find (delete_worker wds n) k =
    (case cache_find wds k of None \<Rightarrow> None | Some wd \<Rightarrow> if wd_name wd = n then None else Some wd)"
proof (induction wds)
  case (Cons wd wds)
  have "find (\<lambda>w. wd_key w = wd_key wd) (filter (\<lambda>w. wd_name w \<noteq> n) wds) = None"
    using Cons.prems by (auto simp: find_None_iff image_iff)
  with Cons show ?case by (auto simp: cache_find_def delete_worker_def)
qed (simp add: cache_find_def delete_worker_def)

interpretation wdc: deployment_cache deployments_ok norm_labels cache_upd delete_worker
  cache_look cache_name
proof (unfold_locales, goal_cases)
  case (1 c n l r)
  obtain a b x d where l: "l = (a, b, x, d)" by (cases l)
  obtain w where "update_worker c n a b x d r = Inr w" using update_worker_total [OF 1] by blast
  with 1 show ?case using update_worker_ok by (simp add: cache_upd_def l)
next
  case (2 c n)
  then show ?case by (rule delete_worker_ok)
next
  case (3 c n l r k)
  then show ?case
    by (auto simp: cache_look_def cache_find_upd split: option.splits)
next
  case (4 c n k)
  then show ?case
    by (auto simp: cache_look_def cache_name_def cache_find_del deployments_ok_def
        split: option.splits)
next
  case (5 c n l r k)
  then show ?case
    by (auto simp: cache_name_def cache_find_upd new_worker_deployment_def split: option.splits)
qed

section \<open>Properties\<close>

text \<open>
  The watcher callback in terms of the cache interface, on a cache that satisfies the
  invariant: it never fails.
\<close>

definition event_labels :: "k8s_deployment \<Rightarrow> labels" where
  "event_labels d =
     (label_or_empty (k8s_labels d) ''oasislmf/supplier-id'',
      label_or_empty (k8s_labels d) ''oasislmf/model-id'',
      label_or_empty (k8s_labels d) ''oasislmf/model-version-id'',
      label_or_empty (k8s_labels d) ''oasislmf/api-version'')"

lemma update_deployment_cache:
  assumes "deployments_ok wds"
  shows "update_deployment wds d ty = Inr
    (if ty = Some ''DELETED'' then delete_worker wds (k8s_name d)
     else cache_upd wds (k8s_name d) (event_labels d) (k8s_replicas d))"
proof -
  obtain a b c e where l: "event_labels d = (a, b, c, e)" by (cases "event_labels d")
  obtain w where "update_worker wds (k8s_name d) a b c e (k8s_replicas d) = Inr w"
    using update_worker_total [OF assms] by blast
  with l show ?thesis
    by (auto simp: update_deployment_def cache_upd_def event_labels_def)
qed

lemma load_deployments_fold:
  "deployments_ok wds \<Longrightarrow> load_deployments wds ds = Inr
     (fold (\<lambda>(n, l, r) c. cache_upd c n l r)
        (map (\<lambda>d. (k8s_name d, event_labels d, k8s_replicas d)) ds) wds)"
  by (induction ds arbitrary: wds) (simp_all add: update_deployment_cache wdc.invar_upd)

lemma deployments_ok_Nil [simp]: "deployments_ok []"
  by (simp add: deployments_ok_def)

definition example_event :: "string \<Rightarrow> int \<Rightarrow> k8s_deployment" where
  "example_event nm r = \<lparr>k8s_name = nm, k8s_labels = [(''oasislmf/supplier-id'', ''OasisLMF''),
     (''oasislmf/model-id'', ''PiWind''), (''oasislmf/model-version-id'', ''1''),
     (''oasislmf/api-version'', ''v2'')], k8s_replicas = r\<rparr>"

text \<open>
  C38: Loading any list of deployments at start-up succeeds, keeps one entry per model, version and
  API version (case-insensitively), and records for each the replica count reported last.
\<close>

theorem load_deployments_last_count:
  "\<exists>wds. load_deployments [] ds = Inr wds \<and> deployments_ok wds \<and>
     (\<forall>k. cache_look wds k =
        map_of (rev (map (\<lambda>d. (norm_labels (event_labels d), k8s_replicas d)) ds)) k)"
proof -
  let ?es = "map (\<lambda>d. (k8s_name d, event_labels d, k8s_replicas d)) ds"
  let ?wds = "fold (\<lambda>(n, l, r) c. cache_upd c n l r) ?es []"
  have "cache_look ?wds k = map_of (rev (map (\<lambda>d. (norm_labels (event_labels d), k8s_replicas d)) ds)) k"
    for k
    using wdc.look_upds [OF deployments_ok_Nil, of ?es k]
    by (simp add: o_def cache_look_def cache_find_def split: option.splits)
  then show ?thesis
    using load_deployments_fold [OF deployments_ok_Nil, of ds] wdc.invar_upds [OF deployments_ok_Nil]
    by blast
qed

text \<open>No label of the deployment contains a dash.\<close>

definition dash_free :: "worker_deployment \<Rightarrow> bool" where
  "dash_free wd \<longleftrightarrow> CHR ''-'' \<notin> set (wd_supplier_id wd) \<and> CHR ''-'' \<notin> set (wd_model_id wd) \<and>
     CHR ''-'' \<notin> set (wd_model_version_id wd) \<and>
     (case wd_api_version wd of None \<Rightarrow> True | Some v \<Rightarrow> CHR ''-'' \<notin> set v)"

lemma lower_char_dash: "lower_char c = CHR ''-'' \<longleftrightarrow> c = CHR ''-''"
proof
  assume h: "lower_char c = CHR ''-''"
  show "c = CHR ''-''"
  proof (cases "65 \<le> (of_char c :: nat) \<and> (of_char c :: nat) \<le> 90")
    case True
    then have "of_char (lower_char c) = (of_char c + 32 :: nat)"
      by (simp add: lower_char_def Let_def of_char_of)
    with h True show ?thesis by simp
  next
    case False
    with h show ?thesis by (auto simp: lower_char_def Let_def split: if_splits)
  qed
qed (simp add: lower_char_def Let_def)

lemma dash_lower [simp]: "CHR ''-'' \<in> set (lower s) \<longleftrightarrow> CHR ''-'' \<in> set s"
proof -
  have "CHR ''-'' \<in> set (lower s) \<longleftrightarrow> (\<exists>c \<in> set s. lower_char c = CHR ''-'')"
    by (force simp: lower_def)
  then show ?thesis by (simp add: lower_char_dash)
qed

lemma lower_join: "lower (join_with CHR ''-'' ws) = join_with CHR ''-'' (map lower ws)"
proof (induction "CHR ''-''" ws rule: join_with.induct)
  case (3 w v vs)
  have "lower_char CHR ''-'' = CHR ''-''" by (simp add: lower_char_dash)
  with 3 show ?case by (simp add: lower_def)
qed simp_all

lemma find_index_distinct_key:
  "distinct (map g xs) \<Longrightarrow> i < length xs \<Longrightarrow> find_index (\<lambda>x. g x = g (xs ! i)) xs = Some i"
proof (induction xs arbitrary: i)
  case (Cons x xs)
  then show ?case by (cases i) (auto simp: nth_mem)
qed simp

text \<open>
  The queue name the controller derives for a deployment leads back to that deployment, as
  long as none of its four labels contains a dash.
\<close>

theorem id_string_roundtrip:
  assumes "deployments_ok wds" "i < length wds" "dash_free (wds ! i)"
  shows "get_worker_deployment_by_name_id wds (id_string (wds ! i)) = Inr (Some i)"
proof -
  let ?wd = "wds ! i"
  from assms(1,2) obtain v where v: "wd_api_version ?wd = Some v"
    by (auto simp: deployments_ok_def list_all_length complete_def)
  let ?ws = "map lower [wd_supplier_id ?wd, wd_model_id ?wd, wd_model_version_id ?wd, v]"
  have "split_on CHR ''-'' (id_string ?wd) = ?ws"
    using assms(3) v unfolding id_string_def v option.case lower_join
    by (intro split_join) (auto simp: dash_free_def v)
  moreover have "list_all complete wds" using assms(1) by (simp add: deployments_ok_def)
  moreover have "(\<lambda>wd. wd_key wd = (lower (wd_supplier_id ?wd), lower (wd_model_id ?wd),
      lower (wd_model_version_id ?wd), Some (lower v))) = (\<lambda>wd. wd_key wd = wd_key ?wd)"
    by (simp add: wd_key_def v)
  ultimately show ?thesis
    using find_index_distinct_key [of wd_key wds i] assms(1,2)
    by (simp add: get_worker_deployment_by_name_id_def get_worker_deployment_def
        find_with_version_total deployments_ok_def)
qed

definition example_wd :: worker_deployment where
  "example_wd = \<lparr>wd_name = ''worker-piwind'', wd_supplier_id = ''OasisLMF'', wd_model_id = ''PiWind'',
     wd_model_version_id = ''1'', wd_api_version = Some ''v2'', wd_oasis_model_id = None,
     wd_replicas = Some 0, wd_auto_scaling = None\<rparr>"

theorem id_string_roundtrip_witness:
  "get_worker_deployment_by_name_id [example_wd] (id_string ([example_wd] ! 0)) = Inr (Some 0)"
  by (rule id_string_roundtrip) code_simp+

lemma split_on_length: "length (split_on c s) = Suc (length (filter (\<lambda>x. x = c) s))"
  by (induction s) (auto split: list.splits)

lemma dashes_lower: "length (filter (\<lambda>x. x = CHR ''-'') (lower s)) = length (filter (\<lambda>x. x = CHR ''-'') s)"
  by (induction s) (simp_all add: lower_def lower_char_dash)

text \<open>
  A deployment whose supplier, model or version label contains a dash is not found under its
  own queue name: splitting the name at dashes yields more than four parts and the lookup gives
  up. Such a model is never scaled by the controller.
\<close>

theorem dashed_labels_not_found:
  assumes "wd_api_version wd = Some v"
    and "CHR ''-'' \<in> set (wd_supplier_id wd @ wd_model_id wd @ wd_model_version_id wd)"
  shows "get_worker_deployment_by_name_id wds (id_string wd) = Inr None"
proof -
  let ?d = "\<lambda>s. length (filter (\<lambda>x. x = CHR ''-'') s)"
  have "0 < ?d (wd_supplier_id wd @ wd_model_id wd @ wd_model_version_id wd)"
    using assms(2) by (force simp: filter_empty_conv)
  then have "4 < length (split_on CHR ''-'' (id_string wd))"
    using assms(1) by (auto simp: split_on_length id_string_def dashes_lower)
  then show ?thesis
    by (auto simp: get_worker_deployment_by_name_id_def split: list.splits)
qed

theorem dashed_labels_not_found_witness:
  "get_worker_deployment_by_name_id [example_wd\<lparr>wd_supplier_id := ''Oasis-LMF''\<rparr>]
     (id_string (example_wd\<lparr>wd_supplier_id := ''Oasis-LMF''\<rparr>)) = Inr None"
  by (rule dashed_labels_not_found [where v = "''v2''"]) (simp_all add: example_wd_def)

end
