(* ===== verification/Autoscaler.thy ===== *)
theory Autoscaler
  imports Worker_Deployments
begin

text \<open>
  The autoscaler of the worker controller (\<open>kubernetes/worker-controller/src/autoscaler.py\<close>)
  with the API client calls it makes (\<open>oasis_client.py\<close>). A queue-status message is turned
  into one state per model, models without a deployment are dropped, models with less urgent
  runs are reset, and every remaining deployment is scaled up at once or scheduled for a
  delayed shutdown. Replica changes are recorded as the list of calls of
  \<open>ClusterClient.set_replicas\<close>; the asyncio timers are the identifiers of the pending
  \<open>call_later\<close> handles. One message is processed as one step.
\<close>

section \<open>Messages\<close>

record queue_entry =
  qe_name :: string
  qe_queued_count :: "int option"
  qe_message_count :: "int option"

record analysis_entry =
  ae_id :: int
  ae_sub_task_count :: "int option"
  ae_priority :: "int option"
  ae_total_in_queue :: "int option"
  ae_queue_names :: "string list option"

record content_entry =
  ce_queue :: queue_entry
  ce_analyses :: "analysis_entry list"

text \<open>
  The keys of the two dictionaries of analyses: \<open>pending-task_<queue>\<close> or an analysis id.
\<close>

datatype analysis_key = PendingTask string | AnalysisId int

definition default :: "'a \<Rightarrow> 'a option \<Rightarrow> 'a" where
  "default d v = (case v of None \<Rightarrow> d | Some x \<Rightarrow> x)"

lemma default_simps [simp]: "default d None = d" "default d (Some x) = x"
  by (simp_all add: default_def)

definition pending_of_entry ::
  "content_entry \<Rightarrow> (analysis_key, running_analysis) dict \<Rightarrow> (analysis_key, running_analysis) dict" where
  "pending_of_entry e acc =
     (let q = ce_queue e in
      if qe_name q \<notin> set [''celery'', ''celery-v2'', ''task-controller''] then
        (let queued_count = max (default 0 (qe_queued_count q)) (default 0 (qe_message_count q)) in
         if queued_count > 0 \<and> ce_analyses e = [] then
           AList.update (PendingTask (qe_name q))
             \<lparr>ra_id = None, ra_tasks = 1, ra_queue_names = [qe_name q], ra_priority = 4\<rparr> acc
         else acc)
      else acc)"

definition parse_queued_pending :: "content_entry list \<Rightarrow> (analysis_key, running_analysis) dict" where
  "parse_queued_pending content = fold pending_of_entry content []"

text \<open>
  One analysis of one entry. An analysis with no sub tasks is registered once for the entry's
  queue; the second test then fails for it, so the fall-through of the source adds nothing.
\<close>

definition running_of_analysis ::
  "content_entry \<Rightarrow> analysis_entry \<Rightarrow> (analysis_key, running_analysis) dict
     \<Rightarrow> (analysis_key, running_analysis) dict" where
  "running_of_analysis e a acc =
     (let n = default 0 (ae_sub_task_count a); k = AnalysisId (ae_id a) in
      if n = 0 \<and> map_of acc k = None then
        AList.update k \<lparr>ra_id = Some (ae_id a), ra_tasks = 1, ra_queue_names = [qe_name (ce_queue e)],
          ra_priority = default 1 (ae_priority a)\<rparr> acc
      else
        (let names = (if default 0 (ae_total_in_queue a) > 0 then default [] (ae_queue_names a) else []) in
         if n > 0 \<and> names \<noteq> [] then
           (if map_of acc k = None then
              AList.update k \<lparr>ra_id = Some (ae_id a), ra_tasks = n, ra_queue_names = names,
                ra_priority = default 1 (ae_priority a)\<rparr> acc
            else acc)
         else acc))"

definition parse_running_analyses :: "content_entry list \<Rightarrow> (analysis_key, running_analysis) dict" where
  "parse_running_analyses content =
     fold (\<lambda>e acc. fold (running_of_analysis e) (ce_analyses e) acc) content []"

section \<open>Model states\<close>

type_synonym model_states = "(string, model_state) dict"

definition add_queue :: "running_analysis \<Rightarrow> string \<Rightarrow> model_states \<Rightarrow> model_states" where
  "add_queue a queue_name ms =
     (let q = lower queue_name in
      case map_of ms q of
        Some st \<Rightarrow> AList.update q
          \<lparr>tasks = tasks st + ra_tasks a, analyses = analyses st + 1,
           priority = (if ra_priority a > priority st then ra_priority a else priority st)\<rparr> ms
      | None \<Rightarrow> AList.update q \<lparr>tasks = ra_tasks a, analyses = 1, priority = ra_priority a\<rparr> ms)"

definition add_analysis :: "running_analysis \<Rightarrow> model_states \<Rightarrow> model_states" where
  "add_analysis a ms = fold (add_queue a) (ra_queue_names a) ms"

definition idle_state :: model_state where
  "idle_state = \<lparr>tasks = 0, analyses = 0, priority = 1\<rparr>"

definition add_idle :: "worker_deployment \<Rightarrow> model_states \<Rightarrow> model_states" where
  "add_idle wd ms =
     (let i = id_string wd in
      if map_of ms i = None \<and> map_of ms (take (length i - 3) i) = None
      then AList.update i idle_state ms else ms)"

definition aggregate_model_states ::
  "deployments \<Rightarrow> (analysis_key, running_analysis) dict \<Rightarrow> model_states" where
  "aggregate_model_states wds an =
     fold add_idle wds (fold add_analysis (dict_values an) [])"

section \<open>Selecting deployments\<close>

type_synonym model_entry = "string \<times> model_state \<times> nat"

fun filter_model_states_with_wd :: "deployments \<Rightarrow> model_states \<Rightarrow> model_entry list result" where
  "filter_model_states_with_wd wds [] = Inr []"
| "filter_model_states_with_wd wds ((model, st) # ms) =
     rbind (get_worker_deployment_by_name_id wds model) (\<lambda>wd.
     rbind (filter_model_states_with_wd wds ms) (\<lambda>rest.
       Inr (case wd of None \<Rightarrow> rest | Some i \<Rightarrow> (model, st, i) # rest)))"

definition filter_models_by_api_version ::
  "deployments \<Rightarrow> model_entry list \<Rightarrow> string \<Rightarrow> model_entry list" where
  "filter_models_by_api_version wds es api_version =
     filter (\<lambda>(model, st, i). wd_api_version (wds ! i) = Some (lower api_version)) es"

definition get_highest_model_priorities :: "int option \<Rightarrow> model_entry list \<Rightarrow> int list option" where
  "get_highest_model_priorities limit es =
     (case limit of
        None \<Rightarrow> None
      | Some n \<Rightarrow>
          if n = 0 then None
          else (let priorities = rev (sort (remdups (map (\<lambda>(model, st, i). priority st) es))) in
                if length priorities > 1 then Some (slice_to priorities n) else None))"

definition clear_unprioritized_models :: "int option \<Rightarrow> model_entry list \<Rightarrow> model_entry list" where
  "clear_unprioritized_models limit es =
     (case get_highest_model_priorities limit es of
        None \<Rightarrow> es
      | Some [] \<Rightarrow> es
      | Some ps \<Rightarrow> map (\<lambda>(model, st, i).
            if priority st \<in> set ps then (model, st, i) else (model, idle_state, i)) es)"

section \<open>The autoscaler object\<close>

record autoscaler =
  as_deployments :: deployments
  as_prioritized_models_limit :: "int option"
  as_limit :: "int option"
  as_continue_update_scaling :: bool
  as_never_shutdown_fixed_workers :: bool
  as_cleanup_timer :: "nat option"
  as_cleanup_deployments :: "string list"
  as_loop_timers :: "nat list"
  as_next_timer :: nat
  as_commands :: "(string \<times> int) list"

text \<open>
  The two limits are the numeric readings of the command line values, \<open>None\<close> when unset or
  empty.
\<close>

definition new_autoscaler ::
  "deployments \<Rightarrow> int option \<Rightarrow> int option \<Rightarrow> bool \<Rightarrow> bool \<Rightarrow> autoscaler" where
  "new_autoscaler wds prioritized_models_limit limit continue_update_scaling never_shutdown =
     \<lparr>as_deployments = wds, as_prioritized_models_limit = prioritized_models_limit,
      as_limit = limit, as_continue_update_scaling = continue_update_scaling,
      as_never_shutdown_fixed_workers = never_shutdown, as_cleanup_timer = None,
      as_cleanup_deployments = [], as_loop_timers = [], as_next_timer = 0, as_commands = []\<rparr>"

text \<open>The desired count with the per-message limit applied; only \<open>ValueError\<close> is handled.\<close>

definition desired_replicas :: "bool \<Rightarrow> auto_scaling \<Rightarrow> model_state \<Rightarrow> int option \<Rightarrow> int result" where
  "desired_replicas never s m limit =
     (case get_desired_worker_count s m never of
        Inr n \<Rightarrow> Inr (case limit of None \<Rightarrow> n | Some l \<Rightarrow> if n > l then l else n)
      | Inl (ValueError _) \<Rightarrow> Inr 0
      | Inl e \<Rightarrow> Inl e)"

text \<open>\<open>cancel\<close> and \<open>call_later\<close> on the shutdown timer.\<close>

definition restart_timer :: "autoscaler \<Rightarrow> autoscaler" where
  "restart_timer s =
     (let s1 = (case as_cleanup_timer s of
                  Some t \<Rightarrow> s\<lparr>as_loop_timers := removeAll t (as_loop_timers s), as_cleanup_timer := None\<rparr>
                | None \<Rightarrow> s)
      in s1\<lparr>as_loop_timers := as_next_timer s1 # as_loop_timers s1,
            as_cleanup_timer := Some (as_next_timer s1), as_next_timer := Suc (as_next_timer s1)\<rparr>)"

definition scale_deployment ::
  "autoscaler \<Rightarrow> worker_deployment \<Rightarrow> auto_scaling \<Rightarrow> model_state \<Rightarrow> int option
     \<Rightarrow> (autoscaler \<times> int option) result" where
  "scale_deployment s wd settings m limit =
     rbind (desired_replicas (as_never_shutdown_fixed_workers s) settings m limit) (\<lambda>desired.
       let s1 = (if desired > 0
                 then s\<lparr>as_cleanup_deployments := removeAll (wd_name wd) (as_cleanup_deployments s)\<rparr>
                 else s) in
       if wd_replicas wd \<noteq> Some desired then
         (if desired > 0
          then Inr (s1\<lparr>as_commands := as_commands s1 @ [(wd_name wd, desired)]\<rparr>, Some desired)
          else Inr (restart_timer
                 (s1\<lparr>as_cleanup_deployments := List.insert (wd_name wd) (as_cleanup_deployments s1)\<rparr>),
               wd_replicas wd))
       else Inr (s1, Some desired))"

definition cleanup :: "autoscaler \<Rightarrow> autoscaler" where
  "cleanup s =
     (if as_cleanup_deployments s \<noteq> []
      then s\<lparr>as_commands := as_commands s @ map (\<lambda>n. (n, 0)) (as_cleanup_deployments s),
             as_cleanup_deployments := []\<rparr>
      else s)"

section \<open>The Oasis API client\<close>

text \<open>
  The two queries of \<open>OasisClient\<close> that the autoscaler makes. What the server answers is a
  parameter: the models listed for a (supplier, model, version) triple and the scaling
  configuration of a model id, either of which may fail.
\<close>

record api_model =
  am_id :: int
  am_supplier_id :: string
  am_model_id :: string
  am_version_id :: string

record oasis_api =
  api_models :: "string \<Rightarrow> string \<Rightarrow> string \<Rightarrow> api_model list result"
  api_scaling :: "int \<Rightarrow> auto_scaling result"

definition get_oasis_model_id :: "oasis_api \<Rightarrow> string \<Rightarrow> string \<Rightarrow> string \<Rightarrow> int option result" where
  "get_oasis_model_id api supplier_id model_id model_version_id =
     rbind (api_models api supplier_id model_id model_version_id) (\<lambda>models.
       Inr (map_option am_id (find (\<lambda>m. am_supplier_id m = supplier_id \<and> am_model_id m = model_id
              \<and> am_version_id m = model_version_id) models)))"

definition get_auto_scaling :: "oasis_api \<Rightarrow> int \<Rightarrow> auto_scaling result" where
  "get_auto_scaling api oasis_model_id = api_scaling api oasis_model_id"

section \<open>Scaling all models\<close>

definition no_settings :: auto_scaling where
  "no_settings = \<lparr>scaling_strategy = None, worker_count_fixed = None, worker_count_max = None,
     worker_count_min = None, chunks_per_worker = None\<rparr>"

text \<open>\<open>if wd.auto_scaling\<close>: neither \<open>None\<close> nor the empty object.\<close>

definition settings_truthy :: "auto_scaling option \<Rightarrow> bool" where
  "settings_truthy v \<longleftrightarrow> v \<noteq> None \<and> v \<noteq> Some no_settings"

definition id_truthy :: "int option \<Rightarrow> bool" where
  "id_truthy v \<longleftrightarrow> v \<noteq> None \<and> v \<noteq> Some 0"

definition refresh_settings :: "oasis_api \<Rightarrow> worker_deployment \<Rightarrow> worker_deployment result" where
  "refresh_settings api wd =
     rbind (if id_truthy (wd_oasis_model_id wd) then Inr wd
            else rbind (get_oasis_model_id api (wd_supplier_id wd) (wd_model_id wd)
                          (wd_model_version_id wd))
                   (\<lambda>i. Inr (wd\<lparr>wd_oasis_model_id := i\<rparr>)))
       (\<lambda>wd. case wd_oasis_model_id wd of
          Some i \<Rightarrow> if i \<noteq> 0 then rbind (get_auto_scaling api i)
                                     (\<lambda>s. Inr (wd\<lparr>wd_auto_scaling := Some s\<rparr>))
                    else Inr wd
        | None \<Rightarrow> Inr wd)"

definition needs_refresh :: "autoscaler \<Rightarrow> worker_deployment \<Rightarrow> bool" where
  "needs_refresh s wd \<longleftrightarrow>
     \<not> settings_truthy (wd_auto_scaling wd) \<or> wd_replicas wd = Some 0 \<or>
     as_continue_update_scaling s \<or>
     (settings_truthy (wd_auto_scaling wd) \<and> worker_min (the (wd_auto_scaling wd)) > 0)"

definition replicas_limit :: "autoscaler \<Rightarrow> int \<Rightarrow> int option" where
  "replicas_limit s workers_total =
     (case as_limit s of None \<Rightarrow> None | Some l \<Rightarrow> if l = 0 then None else Some (l - workers_total))"

text \<open>
  One iteration of \<open>_scale_models\<close>; the integer is \<open>workers_total\<close>. A deployment that has
  settings without a strategy is skipped before anything else.
\<close>

definition scale_model ::
  "oasis_api \<Rightarrow> autoscaler \<Rightarrow> int \<Rightarrow> model_entry \<Rightarrow> (autoscaler \<times> int) result" where
  "scale_model api s workers_total e =
     (case e of (model, st, i) \<Rightarrow>
        let wd = as_deployments s ! i in
        if settings_truthy (wd_auto_scaling wd) \<and> scaling_strategy (the (wd_auto_scaling wd)) = None
        then Inr (s, workers_total)
        else rbind (if needs_refresh s wd then refresh_settings api wd else Inr wd) (\<lambda>wd'.
          let s' = s\<lparr>as_deployments := (as_deployments s)[i := wd']\<rparr> in
          if settings_truthy (wd_auto_scaling wd') then
            rbind (scale_deployment s' wd' (the (wd_auto_scaling wd')) st (replicas_limit s' workers_total))
              (\<lambda>(s'', created). case created of
                 None \<Rightarrow> Inl (TypeError ''unsupported operand type(s) for +='')
               | Some n \<Rightarrow> Inr (s'', workers_total + n))
          else Inr (s', workers_total)))"

fun scale_models ::
  "oasis_api \<Rightarrow> autoscaler \<Rightarrow> int \<Rightarrow> model_entry list \<Rightarrow> (autoscaler \<times> int) result" where
  "scale_models api s workers_total [] = Inr (s, workers_total)"
| "scale_models api s workers_total (e # es) =
     rbind (scale_model api s workers_total e) (\<lambda>(s', t'). scale_models api s' t' es)"

definition process_queue_status_message ::
  "oasis_api \<Rightarrow> autoscaler \<Rightarrow> content_entry list \<Rightarrow> autoscaler result" where
  "process_queue_status_message api s msg =
     (let pending_analyses = parse_queued_pending msg;
          running_analyses = parse_running_analyses msg;
          model_states = aggregate_model_states (as_deployments s)
                           (dict_merge pending_analyses running_analyses) in
      rbind (filter_model_states_with_wd (as_deployments s) model_states) (\<lambda>with_wd.
        let v1_models = filter_models_by_api_version (as_deployments s) with_wd ''v1'';
            v2_models = filter_models_by_api_version (as_deployments s) with_wd ''v2'';
            prioritized = clear_unprioritized_models (as_prioritized_models_limit s)
                            (v1_models @ v2_models) in
        rbind (scale_models api s 0 prioritized) (\<lambda>(s', workers_total). Inr s')))"

section \<open>Aggregation\<close>

text \<open>
  The reference definition: the analyses that name a queue (once per mention), their task
  total, their number and their highest priority.
\<close>

definition mentions :: "running_analysis list \<Rightarrow> (running_analysis \<times> string) list" where
  "mentions as = concat (map (\<lambda>a. map (Pair a) (ra_queue_names a)) as)"

definition contributions :: "(running_analysis \<times> string) list \<Rightarrow> string \<Rightarrow> running_analysis list" where
  "contributions ps q = map fst (filter (\<lambda>(a, n). lower n = q) ps)"

definition summary :: "running_analysis list \<Rightarrow> model_state option" where
  "summary c = (if c = [] then None else
     Some \<lparr>tasks = sum_list (map ra_tasks c), analyses = int (length c),
           priority = Max (set (map ra_priority c))\<rparr>)"

lemma fold_add_analysis:
  "fold add_analysis as ms = fold (\<lambda>(a, n). add_queue a n) (mentions as) ms"
proof -
  have one: "add_analysis a ms = fold (\<lambda>(a, n). add_queue a n) (map (Pair a) (ra_queue_names a)) ms"
    for a ms by (simp add: add_analysis_def fold_map o_def)
  show ?thesis by (induction as arbitrary: ms) (simp_all add: one mentions_def)
qed

lemma contributions_snoc:
  "contributions (ps @ [(a, n)]) q = contributions ps q @ (if lower n = q then [a] else [])"
  by (simp add: contributions_def)

lemma summary_snoc:
  "summary (c @ [a]) = Some (case summary c of
     None \<Rightarrow> \<lparr>tasks = ra_tasks a, analyses = 1, priority = ra_priority a\<rparr>
   | Some st \<Rightarrow> \<lparr>tasks = tasks st + ra_tasks a, analyses = analyses st + 1,
       priority = (if ra_priority a > priority st then ra_priority a else priority st)\<rparr>)"
proof (cases "c = []")
  case False
  let ?m = "Max (set (map ra_priority c))"
  from False have "Max (set (map ra_priority (c @ [a]))) = max (ra_priority a) ?m"
    by (simp del: Max_less_iff)
  also have "\<dots> = (if ra_priority a > ?m then ra_priority a else ?m)"
    by (rule max_if)
  finally show ?thesis
    using False by (simp only: summary_def) simp
qed (simp add: summary_def)

lemma map_of_add_queue:
  "map_of (add_queue a n ms) q =
     (if q = lower n then Some (case map_of ms q of
         None \<Rightarrow> \<lparr>tasks = ra_tasks a, analyses = 1, priority = ra_priority a\<rparr>
       | Some st \<Rightarrow> \<lparr>tasks = tasks st + ra_tasks a, analyses = analyses st + 1,
           priority = (if ra_priority a > priority st then ra_priority a else priority st)\<rparr>)
      else map_of ms q)"
  by (auto simp: add_queue_def Let_def split: option.splits)

lemma map_of_add_queues:
  "map_of (fold (\<lambda>(a, n). add_queue a n) ps []) q = summary (contributions ps q)"
proof (induction ps rule: rev_induct)
  case (snoc p ps)
  obtain a n where p: "p = (a, n)" by (cases p)
  show ?case
  proof (cases "lower n = q")
    case True
    then show ?thesis
      by (simp add: p snoc.IH map_of_add_queue contributions_snoc summary_snoc)
  next
    case False
    then show ?thesis
      using snoc.IH by (simp add: p map_of_add_queue contributions_snoc)
  qed
qed (simp add: contributions_def summary_def)

lemma map_of_add_idle:
  "map_of (add_idle wd ms) q = map_of ms q \<or>
   map_of ms q = None \<and> q = id_string wd \<and> map_of (add_idle wd ms) q = Some idle_state"
  by (auto simp: add_idle_def Let_def)

lemma add_idles_keep: "map_of ms q = Some st \<Longrightarrow> map_of (fold add_idle wds ms) q = Some st"
proof (induction wds arbitrary: ms)
  case (Cons wd wds)
  then show ?case using map_of_add_idle [of wd ms q] by simp
qed simp

lemma add_idles_new:
  "map_of ms q = None \<Longrightarrow> map_of (fold add_idle wds ms) q = Some st \<Longrightarrow>
   st = idle_state \<and> q \<in> id_string ` set wds"
proof (induction wds arbitrary: ms)
  case (Cons wd wds)
  then show ?case
    using map_of_add_idle [of wd ms q] add_idles_keep [of "add_idle wd ms" q idle_state wds]
    by auto
qed simp

lemma add_idles_cover:
  "wd \<in> set wds \<Longrightarrow> \<exists>q. map_of (fold add_idle wds ms) q \<noteq> None \<and>
     (q = id_string wd \<or> q = take (length (id_string wd) - 3) (id_string wd))"
proof (induction wds arbitrary: ms)
  case (Cons w wds)
  have keep: "map_of (fold add_idle wds ms') q \<noteq> None" if "map_of ms' q \<noteq> None" for ms' q
    using that add_idles_keep [of ms' q _ wds] by auto
  show ?case
  proof (cases "wd \<in> set wds")
    case False
    with Cons.prems have w: "w = wd" by simp
    have "map_of (add_idle wd ms) (id_string wd) \<noteq> None \<or>
        map_of (add_idle wd ms) (take (length (id_string wd) - 3) (id_string wd)) \<noteq> None"
      by (auto simp: add_idle_def Let_def)
    then obtain q where q: "map_of (add_idle wd ms) q \<noteq> None"
      "q = id_string wd \<or> q = take (length (id_string wd) - 3) (id_string wd)" by blast
    from keep [OF q(1)] q(2) show ?thesis
      by (intro exI [of _ q] conjI) (simp_all add: w)
  qed (use Cons.IH in auto)
qed simp

section \<open>Priorities\<close>

lemma mem_take_desc:
  fixes L :: "int list"
  assumes "sorted_wrt (>) L"
  shows "x \<in> set (take n L) \<longleftrightarrow> x \<in> set L \<and> card {y \<in> set L. y > x} < n"
  using assms
proof (induction L arbitrary: n)
  case (Cons a L)
  then have IH: "\<And>n. x \<in> set (take n L) \<longleftrightarrow> x \<in> set L \<and> card {y \<in> set L. y > x} < n"
    and a: "\<forall>y \<in> set L. y < a" by auto
  show ?case
  proof (cases "x = a")
    case True
    then have "{y \<in> set (a # L). y > x} = {}" using a by auto
    then have c0: "card {y \<in> set (a # L). y > x} = 0" by simp
    show ?thesis unfolding c0 using True by (cases n) auto
  next
    case False
    show ?thesis
    proof (cases "x \<in> set L")
      case True
      then have "{y \<in> set (a # L). y > x} = insert a {y \<in> set L. y > x}" using a by auto
      moreover have "a \<notin> {y \<in> set L. y > x}" using a by auto
      ultimately have "card {y \<in> set (a # L). y > x} = Suc (card {y \<in> set L. y > x})" by simp
      with False True show ?thesis using IH by (cases n) auto
    next
      case False': False
      with False show ?thesis by (cases n) (auto dest: in_set_takeD)
    qed
  qed
qed simp

lemma sorted_desc: "sorted_wrt (>) (rev (sort (remdups xs)))" for xs :: "int list"
  by (simp add: sorted_wrt_rev strict_sorted_iff)

abbreviation entry_priority :: "model_entry \<Rightarrow> int" where
  "entry_priority e \<equiv> priority (fst (snd e))"

definition levels_above :: "model_entry list \<Rightarrow> int \<Rightarrow> nat" where
  "levels_above es p = card {y \<in> set (map entry_priority es). y > p}"

lemma clear_unprioritized_spec:
  assumes "0 < n"
  shows "clear_unprioritized_models (Some n) es =
    map (\<lambda>e. if levels_above es (entry_priority e) < nat n then e
             else (fst e, idle_state, snd (snd e))) es"
proof -
  let ?ps = "map entry_priority es"
  let ?L = "rev (sort (remdups ?ps))"
  have ps: "map (\<lambda>(model, st, i). priority st) es = ?ps" by (simp add: case_prod_beta')
  have mem: "entry_priority e \<in> set (take (nat n) ?L) \<longleftrightarrow> levels_above es (entry_priority e) < nat n"
    if "e \<in> set es" for e
    using that by (simp add: mem_take_desc [OF sorted_desc] levels_above_def)
  show ?thesis
  proof (cases "length ?L > 1")
    case True
    then have hi: "get_highest_model_priorities (Some n) es = Some (take (nat n) ?L)"
      using assms by (simp only: get_highest_model_priorities_def ps)
        (simp add: Let_def slice_to_def)
    moreover have "take (nat n) ?L \<noteq> []"
      using True assms by (cases ?L) (auto simp: take_eq_Nil)
    ultimately have "clear_unprioritized_models (Some n) es =
        map (\<lambda>e. if entry_priority e \<in> set (take (nat n) ?L) then e
                 else (fst e, idle_state, snd (snd e))) es"
      by (cases "take (nat n) ?L") (simp_all add: clear_unprioritized_models_def case_prod_beta')
    then show ?thesis using mem by simp
  next
    case False
    then have hi: "get_highest_model_priorities (Some n) es = None"
      using assms by (simp only: get_highest_model_priorities_def ps) (simp add: Let_def)
    have "levels_above es (entry_priority e) < nat n" if "e \<in> set es" for e
    proof -
      from False have "take 1 ?L = ?L" by simp
      moreover have "entry_priority e \<in> set ?L" using that by simp
      ultimately have "entry_priority e \<in> set (take 1 ?L)" by simp
      then have "levels_above es (entry_priority e) < 1"
        using that unfolding mem_take_desc [OF sorted_desc] by (simp add: levels_above_def)
      with assms show ?thesis by simp
    qed
    then show ?thesis by (simp add: clear_unprioritized_models_def hi map_idI)
  qed
qed

section \<open>One deployment\<close>

lemma desired_replicas_le:
  "desired_replicas b st m (Some l) = Inr n \<Longrightarrow> n \<le> max l 0"
  by (auto simp: desired_replicas_def split: sum.splits py_exn.splits if_splits)

text \<open>
  The three outcomes of \<open>_scale_deployment\<close>: a scale-up call, a scheduled shutdown, or no
  change of the replica count.
\<close>

lemma scale_deployment_cases:
  assumes "scale_deployment s wd st m limit = Inr (s', created)"
  obtains (up) n where "desired_replicas (as_never_shutdown_fixed_workers s) st m limit = Inr n"
      "0 < n" "wd_replicas wd \<noteq> Some n" "created = Some n"
      "s' = s\<lparr>as_cleanup_deployments := removeAll (wd_name wd) (as_cleanup_deployments s),
              as_commands := as_commands s @ [(wd_name wd, n)]\<rparr>"
    | (down) n where "desired_replicas (as_never_shutdown_fixed_workers s) st m limit = Inr n"
      "n \<le> 0" "wd_replicas wd \<noteq> Some n" "created = wd_replicas wd"
      "s' = restart_timer (s\<lparr>as_cleanup_deployments :=
              List.insert (wd_name wd) (as_cleanup_deployments s)\<rparr>)"
    | (same) n where "desired_replicas (as_never_shutdown_fixed_workers s) st m limit = Inr n"
      "wd_replicas wd = Some n" "created = Some n"
      "s' = (if 0 < n then s\<lparr>as_cleanup_deployments :=
              removeAll (wd_name wd) (as_cleanup_deployments s)\<rparr> else s)"
proof -
  from assms obtain n
    where n: "desired_replicas (as_never_shutdown_fixed_workers s) st m limit = Inr n"
    by (auto simp: scale_deployment_def exn_simps)
  show thesis
  proof (cases "wd_replicas wd = Some n")
    case True
    with n assms show thesis by (intro same) (auto simp: scale_deployment_def Let_def)
  next
    case False
    show thesis
    proof (cases "0 < n")
      case True
      with n False assms show thesis by (intro up) (auto simp: scale_deployment_def Let_def)
    next
      case le: False
      with n False assms show thesis by (intro down) (auto simp: scale_deployment_def Let_def)
    qed
  qed
qed

lemma restart_timer_frame [frame_simps]:
  "as_commands (restart_timer s) = as_commands s"
  "as_deployments (restart_timer s) = as_deployments s"
  "as_limit (restart_timer s) = as_limit s"
  "as_cleanup_deployments (restart_timer s) = as_cleanup_deployments s"
  "as_never_shutdown_fixed_workers (restart_timer s) = as_never_shutdown_fixed_workers s"
  by (simp_all add: restart_timer_def Let_def split: option.splits)

lemma scale_deployment_frame:
  assumes "scale_deployment s wd st m limit = Inr (s', created)"
  shows "as_deployments s' = as_deployments s" "as_limit s' = as_limit s"
  using assms by (auto elim!: scale_deployment_cases simp: frame_simps)

definition same_deployment :: "worker_deployment \<Rightarrow> worker_deployment \<Rightarrow> bool" where
  "same_deployment wd wd' \<longleftrightarrow> wd_replicas wd' = wd_replicas wd \<and> wd_name wd' = wd_name wd \<and>
     wd_key wd' = wd_key wd \<and> wd_api_version wd' = wd_api_version wd"

lemma refresh_settings_frame:
  assumes "refresh_settings api wd = Inr wd'"
  shows "same_deployment wd wd'"
proof -
  let ?with_id = "if id_truthy (wd_oasis_model_id wd) then Inr wd
      else rbind (get_oasis_model_id api (wd_supplier_id wd) (wd_model_id wd) (wd_model_version_id wd))
             (\<lambda>i. Inr (wd\<lparr>wd_oasis_model_id := i\<rparr>))"
  from assms obtain wd1 where 1: "?with_id = Inr wd1"
    and 2: "(case wd_oasis_model_id wd1 of
          Some i \<Rightarrow> if i \<noteq> 0 then rbind (get_auto_scaling api i)
                                     (\<lambda>s. Inr (wd1\<lparr>wd_auto_scaling := Some s\<rparr>))
                    else Inr wd1
        | None \<Rightarrow> Inr wd1) = Inr wd'"
    unfolding refresh_settings_def rbind_eq_Inr by blast
  have "same_deployment wd wd1"
    using 1 by (cases "get_oasis_model_id api (wd_supplier_id wd) (wd_model_id wd) (wd_model_version_id wd)")
      (auto simp: same_deployment_def wd_key_def split: if_splits)
  moreover have "same_deployment wd1 wd'"
  proof (cases "wd_oasis_model_id wd1")
    case (Some i)
    with 2 show ?thesis
      by (cases "get_auto_scaling api i") (auto simp: same_deployment_def wd_key_def split: if_splits)
  qed (use 2 in \<open>simp add: same_deployment_def\<close>)
  ultimately show ?thesis by (simp add: same_deployment_def)
qed

text \<open>The outcomes of one iteration of \<open>_scale_models\<close>.\<close>

lemma scale_model_cases:
  assumes "scale_model api s t (model, st, i) = Inr (s', t')"
  obtains (skip) "s' = s" "t' = t"
    | (none) wd' where "same_deployment (as_deployments s ! i) wd'" "t' = t"
        "s' = s\<lparr>as_deployments := (as_deployments s)[i := wd']\<rparr>"
    | (scaled) wd' n where "same_deployment (as_deployments s ! i) wd'" "t' = t + n"
        "scale_deployment (s\<lparr>as_deployments := (as_deployments s)[i := wd']\<rparr>) wd'
           (the (wd_auto_scaling wd')) st
           (replicas_limit (s\<lparr>as_deployments := (as_deployments s)[i := wd']\<rparr>) t) = Inr (s', Some n)"
proof -
  let ?wd = "as_deployments s ! i"
  show thesis
  proof (cases "settings_truthy (wd_auto_scaling ?wd) \<and> scaling_strategy (the (wd_auto_scaling ?wd)) = None")
    case True
    with assms show thesis by (intro skip) (simp_all add: scale_model_def Let_def)
  next
    case False
    with assms obtain wd' where
      ref: "(if needs_refresh s ?wd then refresh_settings api ?wd else Inr ?wd) = Inr wd'"
      and rest: "(let s1 = s\<lparr>as_deployments := (as_deployments s)[i := wd']\<rparr> in
          if settings_truthy (wd_auto_scaling wd') then
            rbind (scale_deployment s1 wd' (the (wd_auto_scaling wd')) st (replicas_limit s1 t))
              (\<lambda>(s'', created). case created of
                 None \<Rightarrow> Inl (TypeError ''unsupported operand type(s) for +='')
               | Some n \<Rightarrow> Inr (s'', t + n))
          else Inr (s1, t)) = Inr (s', t')"
      unfolding scale_model_def prod.case Let_def if_not_P [OF False] rbind_eq_Inr by blast
    have same: "same_deployment ?wd wd'"
      using ref refresh_settings_frame by (auto simp: same_deployment_def split: if_splits)
    show thesis
    proof (cases "settings_truthy (wd_auto_scaling wd')")
      case True
      with rest obtain r where "scale_deployment (s\<lparr>as_deployments := (as_deployments s)[i := wd']\<rparr>) wd'
           (the (wd_auto_scaling wd')) st
           (replicas_limit (s\<lparr>as_deployments := (as_deployments s)[i := wd']\<rparr>) t) = Inr r"
        and "(case r of (s'', created) \<Rightarrow> (case created of
                 None \<Rightarrow> Inl (TypeError ''unsupported operand type(s) for +='')
               | Some n \<Rightarrow> Inr (s'', t + n))) = Inr (s', t')"
        unfolding Let_def if_P [OF True] rbind_eq_Inr by blast
      then show thesis using scaled [OF same] by (cases r) (auto split: option.splits)
    next
      case no: False
      with rest show thesis by (intro none [OF same]) (simp_all add: Let_def)
    qed
  qed
qed

section \<open>The worker limit\<close>

definition command_total :: "(string \<times> int) list \<Rightarrow> int" where
  "command_total cs = sum_list (map snd cs)"

definition replicas_nonneg :: "deployments \<Rightarrow> bool" where
  "replicas_nonneg wds \<longleftrightarrow>
     list_all (\<lambda>wd. case wd_replicas wd of None \<Rightarrow> True | Some r \<Rightarrow> 0 \<le> r) wds"

lemma replicas_nonnegD:
  "replicas_nonneg wds \<Longrightarrow> i < length wds \<Longrightarrow> wd_replicas (wds ! i) = Some r \<Longrightarrow> 0 \<le> r"
  by (fastforce simp: replicas_nonneg_def list_all_length)

lemma scale_deployment_commands:
  assumes "scale_deployment s wd st m limit = Inr (s', Some n)"
    and "\<And>r. wd_replicas wd = Some r \<Longrightarrow> 0 \<le> r"
  shows "\<exists>cs. as_commands s' = as_commands s @ cs \<and> 0 \<le> n \<and>
    (cs = [] \<or> cs = [(wd_name wd, n)] \<and> 0 < n \<and> (\<forall>l. limit = Some l \<longrightarrow> n \<le> l))"
  using assms(1)
proof (cases rule: scale_deployment_cases)
  case (up n')
  then show ?thesis using desired_replicas_le by fastforce
next
  case (down n')
  then show ?thesis using assms(2) by (auto simp: frame_simps)
next
  case (same n')
  then show ?thesis using assms(2) by auto
qed

lemma scale_model_commands:
  assumes step: "scale_model api s t (model, st, i) = Inr (s', t')"
    and nn: "replicas_nonneg (as_deployments s)" and i: "i < length (as_deployments s)"
  shows "\<exists>cs. as_commands s' = as_commands s @ cs \<and> 0 \<le> command_total cs \<and>
      t + command_total cs \<le> t' \<and>
      (\<forall>l. as_limit s = Some l \<longrightarrow> l \<noteq> 0 \<longrightarrow> cs = [] \<or> t' \<le> l)"
    and "replicas_nonneg (as_deployments s')" "length (as_deployments s') = length (as_deployments s)"
    and "as_limit s' = as_limit s"
proof -
  let ?wd = "as_deployments s ! i"
  have upd: "replicas_nonneg ((as_deployments s)[i := wd'])"
    if "wd_replicas wd' = wd_replicas ?wd" for wd'
  proof -
    have "case wd_replicas wd' of None \<Rightarrow> True | Some r \<Rightarrow> 0 \<le> r"
      using nn i that by (auto simp: replicas_nonneg_def list_all_length split: option.splits)
    with nn show ?thesis
      by (auto simp: replicas_nonneg_def list_all_iff dest!: set_update_subset_insert [THEN subsetD])
  qed
  show "\<exists>cs. as_commands s' = as_commands s @ cs \<and> 0 \<le> command_total cs \<and>
      t + command_total cs \<le> t' \<and>
      (\<forall>l. as_limit s = Some l \<longrightarrow> l \<noteq> 0 \<longrightarrow> cs = [] \<or> t' \<le> l)"
    using step
  proof (cases rule: scale_model_cases)
    case skip
    then show ?thesis by (intro exI [of _ "[]"]) (simp add: command_total_def)
  next
    case none
    then show ?thesis by (intro exI [of _ "[]"]) (simp add: command_total_def)
  next
    case (scaled wd' n)
    then obtain cs where "as_commands s' = as_commands s @ cs" "0 \<le> n"
      "cs = [] \<or> cs = [(wd_name wd', n)] \<and> 0 < n \<and>
         (\<forall>l. replicas_limit (s\<lparr>as_deployments := (as_deployments s)[i := wd']\<rparr>) t = Some l \<longrightarrow> n \<le> l)"
      using scale_deployment_commands [OF scaled(3)] replicas_nonnegD [OF nn i]
      by (auto simp: same_deployment_def)
    with scaled(2) show ?thesis
      by (intro exI [of _ cs]) (auto simp: command_total_def replicas_limit_def)
  qed
  show "replicas_nonneg (as_deployments s')"
    using step nn by (cases rule: scale_model_cases)
      (auto dest: scale_deployment_frame simp: upd same_deployment_def)
  show "length (as_deployments s') = length (as_deployments s)"
    using step by (cases rule: scale_model_cases) (auto dest: scale_deployment_frame)
  show "as_limit s' = as_limit s"
    using step by (cases rule: scale_model_cases) (auto dest: scale_deployment_frame)
qed

lemma scale_models_commands:
  assumes "scale_models api s t es = Inr (s', t')"
    and "replicas_nonneg (as_deployments s)"
    and "\<forall>(model, st, i) \<in> set es. i < length (as_deployments s)"
    and "as_limit s = Some l" "0 < l" "0 \<le> t" "c \<le> t" "c \<le> l"
  shows "\<exists>cs. as_commands s' = as_commands s @ cs \<and> c + command_total cs \<le> l"
  using assms
proof (induction es arbitrary: s t c)
  case (Cons e es)
  obtain model st i where e: "e = (model, st, i)" by (cases e)
  from Cons.prems(1) obtain s1 t1 where step: "scale_model api s t (model, st, i) = Inr (s1, t1)"
    and rest: "scale_models api s1 t1 es = Inr (s', t')"
    by (auto simp: e exn_simps)
  from Cons.prems(3) have i: "i < length (as_deployments s)" by (simp add: e)
  note sm = scale_model_commands [OF step Cons.prems(2) i]
  obtain cs where cs: "as_commands s1 = as_commands s @ cs" "0 \<le> command_total cs"
      "t + command_total cs \<le> t1" "cs = [] \<or> t1 \<le> l"
    using sm(1) Cons.prems(4,5) by auto
  have le: "c + command_total cs \<le> t1" "c + command_total cs \<le> l"
    using cs Cons.prems(6,7,8) by (auto simp: command_total_def)
  have "\<exists>cs'. as_commands s' = as_commands s1 @ cs' \<and> (c + command_total cs) + command_total cs' \<le> l"
    using Cons.IH [OF rest sm(2), of "c + command_total cs"] sm(3,4) Cons.prems cs le by auto
  then show ?case using cs(1) by (auto simp: command_total_def)
qed (simp add: command_total_def)

lemma filter_with_wd_bound:
  "filter_model_states_with_wd wds ms = Inr es \<Longrightarrow> (model, st, i) \<in> set es \<Longrightarrow> i < length wds"
proof (induction ms arbitrary: es)
  case (Cons p ms)
  have bound: "i < length wds" if "get_worker_deployment_by_name_id wds x = Inr (Some i)" for x i
  proof -
    have fw: "find_with_version a b c d wds = Inr (Some i) \<Longrightarrow> i < length wds" for a b c d i
      by (induction wds arbitrary: i) (auto simp: exn_simps split: option.splits if_splits)
    show ?thesis using that find_index_Some fw
      by (auto simp: get_worker_deployment_by_name_id_def get_worker_deployment_def
          split: list.splits option.splits)
  qed
  obtain model' st' where p: "p = (model', st')" by (cases p)
  from Cons.prems(1) p obtain wd rest where
    "get_worker_deployment_by_name_id wds model' = Inr wd"
    "filter_model_states_with_wd wds ms = Inr rest"
    "es = (case wd of None \<Rightarrow> rest | Some j \<Rightarrow> (model', st', j) # rest)"
    by (auto simp: exn_simps)
  with Cons.IH Cons.prems(2) bound show ?case by (auto split: option.splits)
qed simp

lemma clear_unprioritized_index:
  "(model, st, i) \<in> set (clear_unprioritized_models n es) \<Longrightarrow> \<exists>st'. (model, st', i) \<in> set es"
  by (auto simp: clear_unprioritized_models_def split: option.splits list.splits if_splits)

text \<open>The list \<open>_scale_models\<close> works on refers to deployments of the cache only.\<close>

lemma prioritized_bound:
  assumes "filter_model_states_with_wd wds ms = Inr es"
  shows "\<forall>(model, st, i) \<in> set (clear_unprioritized_models n
      (filter_models_by_api_version wds es a @ filter_models_by_api_version wds es b)). i < length wds"
  using filter_with_wd_bound [OF assms]
  by (fastforce dest!: clear_unprioritized_index simp: filter_models_by_api_version_def)

section \<open>The controller as a state machine\<close>

text \<open>
  The three things that happen to the autoscaler: a queue-status message, a change reported by
  the Kubernetes watch, and a pending shutdown timer that fires.
\<close>

inductive controller_step :: "oasis_api \<Rightarrow> autoscaler \<Rightarrow> autoscaler \<Rightarrow> bool" for api where
  message: "process_queue_status_message api s msg = Inr s' \<Longrightarrow> controller_step api s s'"
| watch: "update_deployment (as_deployments s) d ty = Inr wds \<Longrightarrow>
    controller_step api s (s\<lparr>as_deployments := wds\<rparr>)"
| timer: "t \<in> set (as_loop_timers s) \<Longrightarrow>
    controller_step api s (cleanup (s\<lparr>as_loop_timers := removeAll t (as_loop_timers s)\<rparr>))"

inductive controller_reach :: "oasis_api \<Rightarrow> autoscaler \<Rightarrow> autoscaler \<Rightarrow> bool" for api s0 where
  start: "controller_reach api s0 s0"
| step: "controller_reach api s0 s \<Longrightarrow> controller_step api s s' \<Longrightarrow> controller_reach api s0 s'"

inductive_cases controller_stepE: "controller_step api s s'"

definition timer_ok :: "autoscaler \<Rightarrow> bool" where
  "timer_ok s \<longleftrightarrow>
     (as_loop_timers s = [] \<or> (\<exists>t. as_cleanup_timer s = Some t \<and> as_loop_timers s = [t])) \<and>
     (as_cleanup_deployments s \<noteq> [] \<longrightarrow> as_loop_timers s \<noteq> [])"

definition controller_inv :: "autoscaler \<Rightarrow> bool" where
  "controller_inv s \<longleftrightarrow> deployments_ok (as_deployments s) \<and> timer_ok s"

lemma restart_timer_ok:
  assumes "as_loop_timers s = [] \<or> (\<exists>t. as_cleanup_timer s = Some t \<and> as_loop_timers s = [t])"
  shows "timer_ok (restart_timer s)"
  using assms by (auto simp: timer_ok_def restart_timer_def Let_def split: option.splits)

lemma scale_deployment_timer_ok:
  assumes "scale_deployment s wd st m limit = Inr (s', created)" "timer_ok s"
  shows "timer_ok s'"
  using assms(1)
proof (cases rule: scale_deployment_cases)
  case (up n)
  with assms(2) show ?thesis by (auto simp: timer_ok_def)
next
  case (down n)
  have "timer_ok (restart_timer (s\<lparr>as_cleanup_deployments :=
      List.insert (wd_name wd) (as_cleanup_deployments s)\<rparr>))"
    by (rule restart_timer_ok) (use assms(2) in \<open>simp add: timer_ok_def\<close>)
  with down show ?thesis by simp
next
  case (same n)
  with assms(2) show ?thesis by (auto simp: timer_ok_def)
qed

lemma deployments_ok_same:
  assumes "deployments_ok wds" "same_deployment (wds ! i) wd"
  shows "deployments_ok (wds[i := wd])"
proof (cases "i < length wds")
  case True
  have "map wd_key (wds[i := wd]) = map wd_key wds"
    using assms(2) by (simp add: map_list_update_same same_deployment_def)
  moreover have "complete wd"
    using assms True by (auto simp: deployments_ok_def list_all_length same_deployment_def complete_def)
  then have "list_all complete (wds[i := wd])"
    using assms(1) by (auto simp: deployments_ok_def list_all_iff
        dest!: set_update_subset_insert [THEN subsetD])
  ultimately show ?thesis using assms(1) by (simp add: deployments_ok_def)
qed (use assms in \<open>simp add: list_update_beyond\<close>)

lemma scale_model_inv:
  assumes "scale_model api s t (model, st, i) = Inr (s', t')" "controller_inv s"
  shows "controller_inv s'"
  using assms(1)
proof (cases rule: scale_model_cases)
  case skip
  with assms(2) show ?thesis by simp
next
  case (none wd')
  with assms(2) show ?thesis
    by (simp add: controller_inv_def deployments_ok_same timer_ok_def)
next
  case (scaled wd' n)
  have "timer_ok (s\<lparr>as_deployments := (as_deployments s)[i := wd']\<rparr>)"
    using assms(2) by (simp add: controller_inv_def timer_ok_def)
  from scale_deployment_timer_ok [OF scaled(3) this] scale_deployment_frame [OF scaled(3)]
  show ?thesis using assms(2) scaled(1) by (simp add: controller_inv_def deployments_ok_same)
qed

lemma scale_models_inv:
  "scale_models api s t es = Inr (s', t') \<Longrightarrow> controller_inv s \<Longrightarrow> controller_inv s'"
proof (induction es arbitrary: s t)
  case (Cons e es)
  obtain model st i where "e = (model, st, i)" by (cases e)
  with Cons show ?case by (auto simp: exn_simps intro: scale_model_inv)
qed simp

lemma process_message_scale:
  assumes "process_queue_status_message api s msg = Inr s'"
  obtains es t where "scale_models api s 0 es = Inr (s', t)"
    "\<forall>(model, st, i) \<in> set es. i < length (as_deployments s)"
proof -
  let ?wds = "as_deployments s"
  from assms obtain with_wd r where
    f: "filter_model_states_with_wd ?wds (aggregate_model_states ?wds
          (dict_merge (parse_queued_pending msg) (parse_running_analyses msg))) = Inr with_wd"
    and r: "scale_models api s 0 (clear_unprioritized_models (as_prioritized_models_limit s)
          (filter_models_by_api_version ?wds with_wd ''v1'' @
           filter_models_by_api_version ?wds with_wd ''v2'')) = Inr r" "fst r = s'"
    unfolding process_queue_status_message_def Let_def rbind_eq_Inr by auto
  then have "scale_models api s 0 (clear_unprioritized_models (as_prioritized_models_limit s)
          (filter_models_by_api_version ?wds with_wd ''v1'' @
           filter_models_by_api_version ?wds with_wd ''v2'')) = Inr (s', snd r)"
    by auto
  then show thesis by (rule that) (rule prioritized_bound [OF f])
qed

lemma controller_step_inv:
  assumes "controller_step api s s'" "controller_inv s"
  shows "controller_inv s'"
  using assms(1)
proof (cases rule: controller_step.cases)
  case (message msg)
  then show ?thesis using assms(2) by (blast elim: process_message_scale intro: scale_models_inv)
next
  case (watch d ty wds)
  from assms(2) have ok: "deployments_ok (as_deployments s)" by (simp add: controller_inv_def)
  with watch have "deployments_ok wds"
    by (cases "ty = Some ''DELETED''")
       (auto simp: update_deployment_cache intro: wdc.invar_upd wdc.invar_del)
  with watch assms(2) show ?thesis by (simp add: controller_inv_def timer_ok_def)
next
  case (timer t)
  with assms(2) show ?thesis
    by (auto simp: controller_inv_def timer_ok_def cleanup_def)
qed

lemma controller_reach_inv:
  "controller_reach api s0 s \<Longrightarrow> controller_inv s0 \<Longrightarrow> controller_inv s"
  by (induction rule: controller_reach.induct) (auto intro: controller_step_inv)

lemma new_autoscaler_inv: "deployments_ok wds \<Longrightarrow> controller_inv (new_autoscaler wds p l c n)"
  by (simp add: controller_inv_def timer_ok_def new_autoscaler_def)

section \<open>Properties\<close>

text \<open>A deployment, a message and an API answer for the witnesses.\<close>

definition demo_settings :: auto_scaling where
  "demo_settings = \<lparr>scaling_strategy = Some ''DYNAMIC_TASKS'', worker_count_fixed = Some 1,
     worker_count_max = Some 10, worker_count_min = Some 0, chunks_per_worker = Some 4\<rparr>"

definition demo_wd :: worker_deployment where
  "demo_wd = \<lparr>wd_name = ''w'', wd_supplier_id = ''o'', wd_model_id = ''p'',
     wd_model_version_id = ''1'', wd_api_version = Some ''v2'', wd_oasis_model_id = Some 7,
     wd_replicas = Some 2, wd_auto_scaling = Some demo_settings\<rparr>"

definition demo_autoscaler :: autoscaler where
  "demo_autoscaler = new_autoscaler [demo_wd] None (Some 3) False False"

definition demo_api :: oasis_api where
  "demo_api = \<lparr>api_models = (\<lambda>_ _ _. Inr []), api_scaling = (\<lambda>_. Inr demo_settings)\<rparr>"

definition demo_msg :: "content_entry list" where
  "demo_msg = [\<lparr>ce_queue = \<lparr>qe_name = ''o-p-1-v2'', qe_queued_count = Some 20, qe_message_count = None\<rparr>,
     ce_analyses = [\<lparr>ae_id = 5, ae_sub_task_count = Some 22, ae_priority = Some 4,
       ae_total_in_queue = Some 20, ae_queue_names = Some [''o-p-1-v2'']\<rparr>]\<rparr>]"

lemmas demo_defs = demo_settings_def demo_wd_def demo_autoscaler_def demo_api_def demo_msg_def

text \<open>
  C35: With a total worker limit configured, the replica counts requested while processing one
  queue-status message never add up to more than the limit, whatever the message, the model
  settings and the API answers are.
\<close>

theorem scale_up_within_limit:
  assumes "process_queue_status_message api s msg = Inr s'"
    and "as_limit s = Some l" "0 < l" "replicas_nonneg (as_deployments s)"
  shows "\<exists>cs. as_commands s' = as_commands s @ cs \<and> command_total cs \<le> l"
proof -
  from assms(1) obtain es t where es: "scale_models api s 0 es = Inr (s', t)"
    "\<forall>(model, st, i) \<in> set es. i < length (as_deployments s)"
    by (rule process_message_scale)
  from scale_models_commands [OF es(1) assms(4) es(2) assms(2,3), of 0] assms(3)
  show ?thesis by simp
qed

lemma demo_run:
  "process_queue_status_message demo_api demo_autoscaler demo_msg =
     Inr (demo_autoscaler\<lparr>as_commands := [(''w'', 3)]\<rparr>)"
  by code_simp

theorem scale_up_within_limit_witness:
  "\<exists>cs. as_commands (demo_autoscaler\<lparr>as_commands := [(''w'', 3)]\<rparr>) =
       as_commands demo_autoscaler @ cs \<and> command_total cs \<le> 3"
  by (rule scale_up_within_limit [OF demo_run])
     (simp_all add: demo_defs new_autoscaler_def replicas_nonneg_def)

text \<open>
  C36: In every state the controller can reach, through messages, watch events and timers in any
  order, a deployment that is marked for shutdown has exactly one pending timer, the one whose
  handle the autoscaler holds: a scheduled shutdown is neither lost nor duplicated.
\<close>

theorem shutdown_has_timer:
  assumes "controller_reach api (new_autoscaler wds p l c n) s" "deployments_ok wds"
    and "as_cleanup_deployments s \<noteq> []"
  shows "\<exists>t. as_cleanup_timer s = Some t \<and> as_loop_timers s = [t]"
  using controller_reach_inv [OF assms(1) new_autoscaler_inv [OF assms(2)]] assms(3)
  by (auto simp: controller_inv_def timer_ok_def)

definition demo_idle :: autoscaler where
  "demo_idle = demo_autoscaler\<lparr>as_cleanup_deployments := [''w''], as_cleanup_timer := Some 0,
     as_loop_timers := [0], as_next_timer := 1\<rparr>"

lemma demo_idle_run: "process_queue_status_message demo_api demo_autoscaler [] = Inr demo_idle"
  by code_simp

lemma demo_ok: "deployments_ok [demo_wd]"
  by code_simp

theorem shutdown_has_timer_witness:
  "\<exists>t. as_cleanup_timer demo_idle = Some t \<and> as_loop_timers demo_idle = [t]"
proof (rule shutdown_has_timer [OF _ demo_ok])
  show "controller_reach demo_api (new_autoscaler [demo_wd] None (Some 3) False False) demo_idle"
    using controller_reach.step [OF controller_reach.start controller_step.message [OF demo_idle_run]]
    by (simp add: demo_autoscaler_def)
  show "as_cleanup_deployments demo_idle \<noteq> []"
    by (simp add: demo_idle_def)
qed

text \<open>
  C37: The model states built from a message agree with the reference definition: a queue named by
  at least one analysis gets the total of the tasks, the number of mentions and the highest
  priority of the analyses that name it (case-insensitively); any other entry is an idle state
  of a known deployment.
\<close>

theorem aggregate_model_states_spec:
  "map_of (aggregate_model_states wds an) q =
     (case summary (contributions (mentions (dict_values an)) q) of
        Some st \<Rightarrow> Some st
      | None \<Rightarrow> if q \<in> id_string ` set wds \<and> map_of (aggregate_model_states wds an) q \<noteq> None
                then Some idle_state else None)"
proof -
  let ?ms = "fold add_analysis (dict_values an) []"
  have ms: "map_of ?ms q = summary (contributions (mentions (dict_values an)) q)"
    by (simp add: fold_add_analysis map_of_add_queues)
  show ?thesis
  proof (cases "map_of ?ms q")
    case None
    then show ?thesis
      using add_idles_new [OF None, of wds]
      by (cases "map_of (fold add_idle wds ?ms) q") (auto simp: aggregate_model_states_def ms)
  next
    case (Some st)
    then show ?thesis
      using add_idles_keep [OF Some, of wds] by (simp add: aggregate_model_states_def ms)
  qed
qed

text \<open>
  Every deployment of the cache is represented in the model states, under its own id or under
  the id without the API version suffix, so that a model without running analyses is scaled too.
\<close>

theorem aggregate_covers_deployments:
  assumes "wd \<in> set wds"
  shows "\<exists>q. map_of (aggregate_model_states wds an) q \<noteq> None \<and>
     (q = id_string wd \<or> q = take (length (id_string wd) - 3) (id_string wd))"
  unfolding aggregate_model_states_def using assms by (rule add_idles_cover)

theorem aggregate_covers_deployments_witness:
  "\<exists>q. map_of (aggregate_model_states [demo_wd] []) q \<noteq> None \<and>
     (q = id_string demo_wd \<or> q = take (length (id_string demo_wd) - 3) (id_string demo_wd))"
  by (rule aggregate_covers_deployments) simp

text \<open>
  C8: With a positive limit n of prioritised models, a model keeps its state exactly when fewer than n
  distinct priority levels lie above its own; every other model is handed on as idle. The list
  of models, their order and their deployments stay as they were.
\<close>

theorem prioritisation_spec:
  assumes "0 < n"
  shows "clear_unprioritized_models (Some n) es =
    map (\<lambda>e. if levels_above es (entry_priority e) < nat n then e
             else (fst e, idle_state, snd (snd e))) es"
  using assms by (rule clear_unprioritized_spec)

definition demo_entries :: "model_entry list" where
  "demo_entries = [(''a'', \<lparr>tasks = 3, analyses = 1, priority = 9\<rparr>, 0),
     (''b'', \<lparr>tasks = 5, analyses = 2, priority = 4\<rparr>, 1)]"

theorem prioritisation_spec_witness:
  "clear_unprioritized_models (Some 1) demo_entries =
    map (\<lambda>e. if levels_above demo_entries (entry_priority e) < nat 1 then e
             else (fst e, idle_state, snd (snd e))) demo_entries"
  by (rule prioritisation_spec) simp

text \<open>
  Scaling a deployment to a positive count withdraws it from the pending shutdowns, so the
  timer that fires next issues no call that sets it to zero; deployments still waiting are
  scaled to zero exactly once.
\<close>

theorem scale_up_cancels_shutdown:
  assumes "scale_deployment s wd st m limit = Inr (s', created)"
    and "desired_replicas (as_never_shutdown_fixed_workers s) st m limit = Inr n" "0 < n"
  shows "wd_name wd \<notin> set (as_cleanup_deployments s') \<and>
    as_commands (cleanup s') = as_commands s' @ map (\<lambda>d. (d, 0)) (as_cleanup_deployments s') \<and>
    as_cleanup_deployments (cleanup s') = []"
  using assms by (auto elim!: scale_deployment_cases simp: cleanup_def)

theorem scale_up_cancels_shutdown_witness:
  "''w'' \<notin> set (as_cleanup_deployments (demo_idle\<lparr>as_cleanup_deployments := [],
        as_commands := [(''w'', 3)]\<rparr>)) \<and>
    as_commands (cleanup (demo_idle\<lparr>as_cleanup_deployments := [], as_commands := [(''w'', 3)]\<rparr>)) =
      [(''w'', 3)] \<and>
    as_cleanup_deployments (cleanup (demo_idle\<lparr>as_cleanup_deployments := [],
        as_commands := [(''w'', 3)]\<rparr>)) = []"
proof -
  have run: "scale_deployment demo_idle demo_wd demo_settings \<lparr>tasks = 22, analyses = 1, priority = 4\<rparr>
      (Some 3) = Inr (demo_idle\<lparr>as_cleanup_deployments := [], as_commands := [(''w'', 3)]\<rparr>, Some 3)"
    by code_simp
  have want: "desired_replicas (as_never_shutdown_fixed_workers demo_idle) demo_settings
      \<lparr>tasks = 22, analyses = 1, priority = 4\<rparr> (Some 3) = Inr 3"
    by code_simp
  from scale_up_cancels_shutdown [OF run want] show ?thesis by (simp add: demo_defs)
qed

end
