(* ===== verification/Oasis_Json.thy ===== *)
theory Oasis_Json
  imports Oasis_Prelude
begin

text \<open>
  JSON documents as Python sees them after \<open>json.loads\<close>: settings files and model resource
  files. The accessors follow Python: \<open>get\<close> exists on objects only, \<open>len\<close> on strings,
  lists and objects, and every value has a truth value.
\<close>

datatype json =
    JNull
  | JBool bool
  | JInt int
  | JStr string
  | JArr "json list"
  | JObj "(string \<times> json) list"

fun truthy :: "json \<Rightarrow> bool" where
  "truthy JNull = False"
| "truthy (JBool b) = b"
| "truthy (JInt n) = (n \<noteq> 0)"
| "truthy (JStr s) = (s \<noteq> [])"
| "truthy (JArr xs) = (xs \<noteq> [])"
| "truthy (JObj kvs) = (kvs \<noteq> [])"

text \<open>\<open>d.get(k, default)\<close>.\<close>

fun json_get :: "json \<Rightarrow> string \<Rightarrow> json \<Rightarrow> json result" where
  "json_get (JObj kvs) k d = Inr (case map_of kvs k of None \<Rightarrow> d | Some v \<Rightarrow> v)"
| "json_get _ k d = Inl (AttributeError ''get'')"

text \<open>\<open>d[k]\<close> on an object; indexing anything else with a string is a \<open>TypeError\<close>.\<close>

fun json_index :: "json \<Rightarrow> string \<Rightarrow> json result" where
  "json_index (JObj kvs) k = (case map_of kvs k of None \<Rightarrow> Inl (KeyError k) | Some v \<Rightarrow> Inr v)"
| "json_index _ k = Inl (TypeError ''indices must be integers'')"

fun json_len :: "json \<Rightarrow> int result" where
  "json_len (JStr s) = Inr (int (length s))"
| "json_len (JArr xs) = Inr (int (length xs))"
| "json_len (JObj kvs) = Inr (int (length kvs))"
| "json_len _ = Inl (TypeError ''object has no len()'')"

text \<open>Iterating a value: the items of a list, the keys of an object, the characters of a string.\<close>

fun json_iter :: "json \<Rightarrow> json list result" where
  "json_iter (JArr xs) = Inr xs"
| "json_iter (JObj kvs) = Inr (map (\<lambda>(k, v). JStr k) kvs)"
| "json_iter (JStr s) = Inr (map (\<lambda>c. JStr [c]) s)"
| "json_iter _ = Inl (TypeError ''object is not iterable'')"

text \<open>\<open>k in v\<close> for a string \<open>k\<close>.\<close>

fun json_has :: "json \<Rightarrow> string \<Rightarrow> bool result" where
  "json_has (JObj kvs) k = Inr (map_of kvs k \<noteq> None)"
| "json_has (JArr xs) k = Inr (JStr k \<in> set xs)"
| "json_has (JStr s) k = Inr (\<exists>i \<in> set [0..<Suc (length s)]. starts_with (drop i s) k)"
| "json_has _ k = Inl (TypeError ''argument is not iterable'')"

text \<open>
  \<open>==\<close> on JSON scalars: \<open>True\<close> equals \<open>1\<close> and \<open>False\<close> equals \<open>0\<close>. Lists and objects
  cannot be dictionary keys.
\<close>

fun json_num :: "json \<Rightarrow> json" where
  "json_num (JBool b) = JInt (if b then 1 else 0)"
| "json_num j = j"

definition py_eq :: "json \<Rightarrow> json \<Rightarrow> bool" where
  "py_eq a b \<longleftrightarrow> json_num a = json_num b"

fun hashable :: "json \<Rightarrow> bool" where
  "hashable (JArr _) = False"
| "hashable (JObj _) = False"
| "hashable _ = True"

text \<open>A loop over a list whose body may raise.\<close>

fun mapR :: "('a \<Rightarrow> 'b result) \<Rightarrow> 'a list \<Rightarrow> 'b list result" where
  "mapR f [] = Inr []"
| "mapR f (x # xs) = rbind (f x) (\<lambda>y. rbind (mapR f xs) (\<lambda>ys. Inr (y # ys)))"

lemma mapR_Inr_length: "mapR f xs = Inr ys \<Longrightarrow> length ys = length xs"
  by (induction xs arbitrary: ys) (auto simp: exn_simps)

lemma mapR_Inr_nth: "mapR f xs = Inr ys \<Longrightarrow> i < length xs \<Longrightarrow> f (xs ! i) = Inr (ys ! i)"
proof (induction xs arbitrary: ys i)
  case (Cons x xs)
  then show ?case by (cases i) (auto simp: exn_simps)
qed simp

lemma mapR_Inr_set: "mapR f xs = Inr ys \<Longrightarrow> set ys = {y. \<exists>x \<in> set xs. f x = Inr y}"
proof (induction xs arbitrary: ys)
  case (Cons x xs)
  then obtain y zs where "f x = Inr y" "mapR f xs = Inr zs" "ys = y # zs" by (auto simp: exn_simps)
  with Cons.IH [of zs] show ?case by auto
qed simp

end
