(* ===== verification/Database.thy ===== *)
theory Database
  imports Oasis_Json
begin

text \<open>
  The rows the Django models describe and the few ORM operations the modelled code uses on
  them: lookup by primary key, \<open>save\<close> (of all or of some fields), \<open>create\<close> and
  \<open>delete\<close> with the foreign keys' \<open>on_delete\<close> behaviour. Foreign keys are primary keys of
  the table they point to. Sources: \<open>analyses/models.py\<close>, \<open>analysis_models/models.py\<close>,
  \<open>portfolios/models.py\<close>, \<open>files/models.py\<close>.
\<close>

section \<open>Enumerations\<close>

datatype analysis_status =
    NEW
  | INPUTS_GENERATION_ERROR
  | INPUTS_GENERATION_NO_KEYS
  | INPUTS_GENERATION_CANCELLED
  | INPUTS_GENERATION_STARTED
  | INPUTS_GENERATION_QUEUED
  | READY
  | RUN_QUEUED
  | RUN_STARTED
  | RUN_COMPLETED
  | RUN_CANCELLED
  | RUN_ERROR

datatype task_status = PENDING | QUEUED | STARTED | COMPLETED | CANCELLED | ERROR

datatype conversion_state = CONV_NONE | CONV_PENDING | CONV_IN_PROGRESS | CONV_DONE | CONV_ERROR

datatype portfolio_status =
    PS_NONE
  | PS_INSUFFICIENT_DATA
  | PS_STARTED
  | PS_ERROR
  | PS_RUN_COMPLETED

datatype chunking_type = FIXED_CHUNKS | DYNAMIC_CHUNKS

section \<open>Rows\<close>

type_synonym pk = nat
type_synonym time = int

text \<open>
  What a stored file holds, as far as the code looks into it: the rows the CSV reader yields
  (after decompression), the row count of a Parquet footer, a JSON document together with the
  rows the CSV reader would yield on its text, the number of entries of a zip archive that is
  not a single file, or bytes that are none of these and are not UTF-8 text (an archive).
\<close>

datatype file_content =
    CsvRows "string list list"
  | ParquetRows nat
  | JsonDoc json "string list list"
  | ZipOf nat
  | Opaque string

record related_file =
  rf_id :: pk
  rf_creator :: "pk option"
  rf_file :: string
  rf_filename :: string
  rf_content_type :: string
  rf_store_as_filename :: bool
  rf_groups :: "pk list"
  rf_oed_validated :: bool
  rf_mapping_file :: "pk option"
  rf_converted_file :: "string option"
  rf_conversion_log_file :: "string option"
  rf_converted_filename :: string
  rf_conversion_time :: "time option"
  rf_conversion_state :: conversion_state
  rf_content :: file_content

record chunking_options =
  lookup_strategy :: chunking_type
  loss_strategy :: chunking_type
  dynamic_locations_per_lookup :: int
  dynamic_events_per_analysis :: int
  dynamic_chunks_max :: int
  fixed_analysis_chunks :: "int option"
  fixed_lookup_chunks :: "int option"

record scaling_options =
  so_scaling_strategy :: string
  so_worker_count_fixed :: int
  so_worker_count_max :: int
  so_worker_count_min :: int
  so_chunks_per_worker :: int

record analysis_model =
  mo_id :: pk
  mo_supplier_id :: string
  mo_model_id :: string
  mo_version_id :: string
  mo_resource_file :: "pk option"
  mo_creator :: pk
  mo_groups :: "pk list"
  mo_data_files :: "pk list"
  mo_ver_ktools :: "string option"
  mo_ver_oasislmf :: "string option"
  mo_ver_platform :: "string option"
  mo_ver_ods :: "string option"
  mo_ver_oed :: "string option"
  mo_oasislmf_config :: string
  mo_deleted :: bool
  mo_run_mode :: "string option"
  mo_scaling_options :: "scaling_options option"
  mo_chunking_options :: "chunking_options option"

record portfolio =
  po_id :: pk
  po_name :: string
  po_creator :: pk
  po_groups :: "pk list"
  po_accounts_file :: "pk option"
  po_location_file :: "pk option"
  po_reinsurance_info_file :: "pk option"
  po_reinsurance_scope_file :: "pk option"
  po_exposure_run_file :: "pk option"
  po_transform_file :: "pk option"
  po_mapping_file :: "pk option"
  po_run_errors_file :: "pk option"
  po_currency_conversion_json :: "pk option"
  po_reporting_currency :: string
  po_exposure_status :: portfolio_status
  po_validation_status :: portfolio_status
  po_exposure_transform_status :: portfolio_status

record analysis =
  an_id :: pk
  an_creator :: pk
  an_portfolio :: pk
  an_model :: "pk option"
  an_name :: string
  an_status :: analysis_status
  an_run_mode :: "string option"
  an_task_started :: "time option"
  an_task_finished :: "time option"
  an_run_task_id :: string
  an_generate_inputs_task_id :: string
  an_complex_model_data_files :: "pk list"
  an_settings_file :: "pk option"
  an_input_file :: "pk option"
  an_input_generation_traceback_file :: "pk option"
  an_output_file :: "pk option"
  an_run_traceback_file :: "pk option"
  an_run_log_file :: "pk option"
  an_analysis_chunks :: "int option"
  an_lookup_chunks :: "int option"
  an_priority :: int
  an_lookup_errors_file :: "pk option"
  an_lookup_success_file :: "pk option"
  an_lookup_validation_file :: "pk option"
  an_summary_levels_file :: "pk option"
  an_chunking_options :: "chunking_options option"
  an_num_events_total :: int
  an_num_events_complete :: int

record subtask =
  st_queue_name :: string
  st_task_id :: string
  st_analysis :: pk
  st_status :: task_status
  st_pending_time :: "time option"
  st_queue_time :: "time option"
  st_start_time :: "time option"
  st_end_time :: "time option"
  st_name :: string
  st_slug :: string
  st_retry_count :: int
  st_output_log :: "pk option"
  st_error_log :: "pk option"
  st_retry_log :: "pk option"

text \<open>A data file is represented by its primary key and the key of its stored file.\<close>

record db =
  db_files :: "related_file list"
  db_models :: "analysis_model list"
  db_portfolios :: "portfolio list"
  db_analyses :: "analysis list"
  db_subtasks :: "subtask list"
  db_data_files :: "(pk \<times> pk option) list"
  db_next_file :: pk
  db_next_model :: pk
  db_next_analysis :: pk
  db_next_portfolio :: pk

section \<open>Lookup and save\<close>

definition get_file :: "db \<Rightarrow> pk \<Rightarrow> related_file option" where
  "get_file d i = find (\<lambda>f. rf_id f = i) (db_files d)"

definition get_model :: "db \<Rightarrow> pk \<Rightarrow> analysis_model option" where
  "get_model d i = find (\<lambda>m. mo_id m = i) (db_models d)"

definition get_portfolio :: "db \<Rightarrow> pk \<Rightarrow> portfolio option" where
  "get_portfolio d i = find (\<lambda>p. po_id p = i) (db_portfolios d)"

definition get_analysis :: "db \<Rightarrow> pk \<Rightarrow> analysis option" where
  "get_analysis d i = find (\<lambda>a. an_id a = i) (db_analyses d)"

definition save_analysis :: "db \<Rightarrow> analysis \<Rightarrow> db" where
  "save_analysis d a = d\<lparr>db_analyses := map (\<lambda>b. if an_id b = an_id a then a else b) (db_analyses d)\<rparr>"

text \<open>\<open>save(update_fields=\<dots>)\<close>: the function writes the named fields of the object to the row.\<close>

definition save_analysis_fields :: "db \<Rightarrow> pk \<Rightarrow> (analysis \<Rightarrow> analysis) \<Rightarrow> db" where
  "save_analysis_fields d i f =
     d\<lparr>db_analyses := map (\<lambda>b. if an_id b = i then f b else b) (db_analyses d)\<rparr>"

definition save_file :: "db \<Rightarrow> related_file \<Rightarrow> db" where
  "save_file d f = d\<lparr>db_files := map (\<lambda>g. if rf_id g = rf_id f then f else g) (db_files d)\<rparr>"

definition save_model :: "db \<Rightarrow> analysis_model \<Rightarrow> db" where
  "save_model d m = d\<lparr>db_models := map (\<lambda>n. if mo_id n = mo_id m then m else n) (db_models d)\<rparr>"

definition save_portfolio :: "db \<Rightarrow> portfolio \<Rightarrow> db" where
  "save_portfolio d p = d\<lparr>db_portfolios := map (\<lambda>q. if po_id q = po_id p then p else q) (db_portfolios d)\<rparr>"

definition blank_file :: related_file where
  "blank_file = \<lparr>rf_id = 0, rf_creator = None, rf_file = [], rf_filename = [], rf_content_type = [],
     rf_store_as_filename = False, rf_groups = [], rf_oed_validated = False, rf_mapping_file = None,
     rf_converted_file = None, rf_conversion_log_file = None, rf_converted_filename = [],
     rf_conversion_time = None, rf_conversion_state = CONV_NONE, rf_content = Opaque []\<rparr>"

text \<open>\<open>RelatedFile.objects.create(\<dots>)\<close>: a fresh primary key.\<close>

definition create_file :: "db \<Rightarrow> related_file \<Rightarrow> db \<times> pk" where
  "create_file d f =
     (d\<lparr>db_files := db_files d @ [f\<lparr>rf_id := db_next_file d\<rparr>], db_next_file := Suc (db_next_file d)\<rparr>,
      db_next_file d)"

section \<open>Deletion\<close>

text \<open>
  Deleting a file removes the analyses that refer to it through a \<open>CASCADE\<close> key and clears the
  \<open>SET_NULL\<close> keys of the others (the two traceback files and the run log). The sub-task log
  keys are all \<open>SET_NULL\<close>; the file keys of portfolios and models cascade.
\<close>

definition analysis_cascade_files :: "analysis \<Rightarrow> pk set" where
  "analysis_cascade_files a =
     set_option (an_settings_file a) \<union> set_option (an_input_file a) \<union> set_option (an_output_file a) \<union>
     set_option (an_lookup_errors_file a) \<union> set_option (an_lookup_success_file a) \<union>
     set_option (an_lookup_validation_file a) \<union> set_option (an_summary_levels_file a)"

definition unless_eq :: "pk \<Rightarrow> pk option \<Rightarrow> pk option" where
  "unless_eq i v = (if v = Some i then None else v)"

definition analysis_set_null :: "pk \<Rightarrow> analysis \<Rightarrow> analysis" where
  "analysis_set_null i a =
     a\<lparr>an_input_generation_traceback_file := unless_eq i (an_input_generation_traceback_file a),
       an_run_traceback_file := unless_eq i (an_run_traceback_file a),
       an_run_log_file := unless_eq i (an_run_log_file a)\<rparr>"

definition subtask_set_null :: "pk \<Rightarrow> subtask \<Rightarrow> subtask" where
  "subtask_set_null i s =
     s\<lparr>st_output_log := unless_eq i (st_output_log s), st_error_log := unless_eq i (st_error_log s),
       st_retry_log := unless_eq i (st_retry_log s)\<rparr>"

definition portfolio_files :: "portfolio \<Rightarrow> pk set" where
  "portfolio_files p =
     set_option (po_accounts_file p) \<union> set_option (po_location_file p) \<union>
     set_option (po_reinsurance_info_file p) \<union> set_option (po_reinsurance_scope_file p) \<union>
     set_option (po_exposure_run_file p) \<union> set_option (po_transform_file p) \<union>
     set_option (po_mapping_file p) \<union> set_option (po_run_errors_file p) \<union>
     set_option (po_currency_conversion_json p)"

definition delete_file :: "db \<Rightarrow> pk \<Rightarrow> db" where
  "delete_file d i =
     (let gone_models = filter (\<lambda>m. mo_resource_file m = Some i) (db_models d);
          gone_portfolios = filter (\<lambda>p. i \<in> portfolio_files p) (db_portfolios d);
          gone = (\<lambda>a. i \<in> analysis_cascade_files a \<or> an_portfolio a \<in> po_id ` set gone_portfolios \<or>
                      (\<exists>m \<in> set_option (an_model a). m \<in> mo_id ` set gone_models));
          lost = filter gone (db_analyses d) in
      d\<lparr>db_files := filter (\<lambda>f. rf_id f \<noteq> i) (db_files d),
        db_models := filter (\<lambda>m. mo_resource_file m \<noteq> Some i) (db_models d),
        db_portfolios := filter (\<lambda>p. i \<notin> portfolio_files p) (db_portfolios d),
        db_analyses := map (analysis_set_null i) (filter (\<lambda>a. \<not> gone a) (db_analyses d)),
        db_subtasks := map (subtask_set_null i)
          (filter (\<lambda>s. st_analysis s \<notin> an_id ` set lost) (db_subtasks d))\<rparr>)"

section \<open>Well-formedness\<close>

definition db_ok :: "db \<Rightarrow> bool" where
  "db_ok d \<longleftrightarrow>
     distinct (map rf_id (db_files d)) \<and> (\<forall>f \<in> set (db_files d). rf_id f < db_next_file d) \<and>
     distinct (map an_id (db_analyses d))"

text \<open>No analysis refers to file \<open>i\<close> through a cascading key, directly or via its parents.\<close>

definition file_unreferenced :: "db \<Rightarrow> pk \<Rightarrow> bool" where
  "file_unreferenced d i \<longleftrightarrow>
     (\<forall>a \<in> set (db_analyses d). i \<notin> analysis_cascade_files a) \<and>
     (\<forall>p \<in> set (db_portfolios d). i \<notin> portfolio_files p) \<and>
     (\<forall>m \<in> set (db_models d). mo_resource_file m \<noteq> Some i)"

lemma map_id_if [simp]: "map (\<lambda>b. if key b = k then b else b) xs = xs"
  by simp

lemma find_map_key:
  assumes "\<And>b. key (f b) = key b"
  shows "find (\<lambda>b. key b = k) (map f xs) = map_option f (find (\<lambda>b. key b = k) xs)"
  using assms by (induction xs) auto

lemma get_analysis_id: "get_analysis d i = Some a \<Longrightarrow> an_id a = i"
  by (auto simp: get_analysis_def find_Some_iff)

lemma get_analysis_mem: "get_analysis d i = Some a \<Longrightarrow> a \<in> set (db_analyses d)"
  by (auto simp: get_analysis_def find_Some_iff)

lemma get_save_analysis:
  "get_analysis (save_analysis d a) i =
     (if i = an_id a then map_option (\<lambda>_. a) (get_analysis d i) else get_analysis d i)"
proof -
  have "find (\<lambda>b. an_id b = i) (map (\<lambda>b. if an_id b = an_id a then a else b) xs) =
      (if i = an_id a then map_option (\<lambda>_. a) (find (\<lambda>b. an_id b = i) xs)
       else find (\<lambda>b. an_id b = i) xs)" for xs
    by (induction xs) auto
  then show ?thesis by (simp add: get_analysis_def save_analysis_def)
qed

lemma get_save_analysis_fields:
  assumes "\<And>b. an_id (f b) = an_id b"
  shows "get_analysis (save_analysis_fields d j f) i =
     (if i = j then map_option f (get_analysis d i) else get_analysis d i)"
proof -
  have "find (\<lambda>b. an_id b = i) (map (\<lambda>b. if an_id b = j then f b else b) xs) =
      (if i = j then map_option f (find (\<lambda>b. an_id b = i) xs)
       else find (\<lambda>b. an_id b = i) xs)" for xs
    by (induction xs) (auto simp: assms)
  then show ?thesis by (simp add: get_analysis_def save_analysis_fields_def)
qed

lemma save_analysis_frame [frame_simps]:
  "db_files (save_analysis d a) = db_files d" "db_models (save_analysis d a) = db_models d"
  "db_portfolios (save_analysis d a) = db_portfolios d" "db_subtasks (save_analysis d a) = db_subtasks d"
  "db_next_file (save_analysis d a) = db_next_file d"
  "map an_id (db_analyses (save_analysis d a)) = map an_id (db_analyses d)"
  by (auto simp: save_analysis_def)

lemma save_analysis_fields_frame [frame_simps]:
  "db_files (save_analysis_fields d i f) = db_files d"
  "db_models (save_analysis_fields d i f) = db_models d"
  "db_portfolios (save_analysis_fields d i f) = db_portfolios d"
  "db_subtasks (save_analysis_fields d i f) = db_subtasks d"
  "db_next_file (save_analysis_fields d i f) = db_next_file d"
  by (auto simp: save_analysis_fields_def)

lemma save_analysis_ok [simp]: "db_ok (save_analysis d a) \<longleftrightarrow> db_ok d"
  by (simp add: db_ok_def frame_simps)

lemma save_analysis_same: "get_analysis d (an_id a) = Some a \<Longrightarrow> db_ok d \<Longrightarrow> save_analysis d a = d"
proof -
  assume a: "get_analysis d (an_id a) = Some a" and ok: "db_ok d"
  have "(if an_id b = an_id a then a else b) = b" if "b \<in> set (db_analyses d)" for b
    using that ok get_analysis_mem [OF a] by (auto simp: db_ok_def distinct_map dest: inj_onD)
  then have "map (\<lambda>b. if an_id b = an_id a then a else b) (db_analyses d) = db_analyses d"
    by (simp add: map_idI)
  then show ?thesis by (simp add: save_analysis_def)
qed

lemma create_file_frame [frame_simps]:
  "db_analyses (fst (create_file d f)) = db_analyses d"
  "db_models (fst (create_file d f)) = db_models d"
  "db_portfolios (fst (create_file d f)) = db_portfolios d"
  "db_subtasks (fst (create_file d f)) = db_subtasks d"
  by (simp_all add: create_file_def)

lemma get_analysis_create_file [simp]:
  "get_analysis (fst (create_file d f)) i = get_analysis d i"
  by (simp add: get_analysis_def frame_simps)

lemma create_file_ok: "db_ok d \<Longrightarrow> db_ok (fst (create_file d f))"
  by (auto simp: db_ok_def create_file_def)

lemma get_create_file:
  "db_ok d \<Longrightarrow> get_file (fst (create_file d f)) (snd (create_file d f)) =
     Some (f\<lparr>rf_id := db_next_file d\<rparr>)"
proof -
  assume ok: "db_ok d"
  have "find (\<lambda>g. rf_id g = db_next_file d) (db_files d) = None"
    using ok by (auto simp: db_ok_def find_None_iff)
  moreover have "find P (xs @ [x]) = (case find P xs of None \<Rightarrow> if P x then Some x else None | Some y \<Rightarrow> Some y)"
    for P x and xs :: "related_file list"
    by (induction xs) auto
  ultimately show ?thesis by (simp add: get_file_def create_file_def)
qed

text \<open>Deleting a file nothing refers to through a cascading key removes no other row.\<close>

lemma delete_unreferenced:
  assumes "file_unreferenced d i"
  shows "delete_file d i = d\<lparr>db_files := filter (\<lambda>f. rf_id f \<noteq> i) (db_files d),
      db_analyses := map (analysis_set_null i) (db_analyses d),
      db_subtasks := map (subtask_set_null i) (db_subtasks d)\<rparr>"
proof -
  have m: "filter (\<lambda>m. mo_resource_file m = Some i) (db_models d) = []"
    "filter (\<lambda>m. mo_resource_file m \<noteq> Some i) (db_models d) = db_models d"
    using assms by (auto simp: file_unreferenced_def filter_empty_conv filter_id_conv)
  have p: "filter (\<lambda>p. i \<in> portfolio_files p) (db_portfolios d) = []"
    "filter (\<lambda>p. i \<notin> portfolio_files p) (db_portfolios d) = db_portfolios d"
    using assms by (auto simp: file_unreferenced_def filter_empty_conv filter_id_conv)
  have a: "filter (\<lambda>a. i \<in> analysis_cascade_files a) (db_analyses d) = []"
    "filter (\<lambda>a. i \<notin> analysis_cascade_files a) (db_analyses d) = db_analyses d"
    using assms by (auto simp: file_unreferenced_def filter_empty_conv filter_id_conv)
  have e: "{x \<in> set (db_analyses d). i \<in> analysis_cascade_files x} = {}"
    using assms by (auto simp: file_unreferenced_def)
  show ?thesis by (simp add: delete_file_def Let_def m p a e)
qed

lemma analysis_set_null_id [simp]: "an_id (analysis_set_null i a) = an_id a"
  by (simp add: analysis_set_null_def)

lemma analysis_set_null_status [simp]: "an_status (analysis_set_null i a) = an_status a"
  by (simp add: analysis_set_null_def)

end
