(* ===== verification/Related_Files.thy ===== *)
theory Related_Files
  imports Database
begin

text \<open>
  Stored files: \<open>files/models.py\<close>, \<open>files/upload.py\<close>, \<open>analyses/v2_api/utils.py\<close> and the same
  helpers of \<open>analyses/v1_api/tasks.py\<close>. Storage back ends (S3, Azure, the shared file system)
  are described by a record of what the code asks of them.
\<close>

section \<open>URLs\<close>

text \<open>
  \<open>urllib.parse.urlparse\<close> on references without brackets, control characters or surrounding
  blanks: the scheme, the network location, and the path without query, fragment and
  parameters of the last segment.
\<close>

definition is_alpha :: "char \<Rightarrow> bool" where
  "is_alpha c = (let n = (of_char c :: nat) in (65 \<le> n \<and> n \<le> 90) \<or> (97 \<le> n \<and> n \<le> 122))"

definition is_digit :: "char \<Rightarrow> bool" where
  "is_digit c = (let n = (of_char c :: nat) in 48 \<le> n \<and> n \<le> 57)"

definition scheme_char :: "char \<Rightarrow> bool" where
  "scheme_char c \<longleftrightarrow> is_alpha c \<or> is_digit c \<or> c \<in> set ''+-.''"

definition url_scheme :: "string \<Rightarrow> string \<times> string" where
  "url_scheme url =
     (let pre = takeWhile (\<lambda>c. c \<noteq> CHR '':'') url in
      if length pre < length url \<and> pre \<noteq> [] \<and> is_alpha (hd pre) \<and> list_all scheme_char pre
      then (lower pre, drop (Suc (length pre)) url) else ([], url))"

definition url_netloc :: "string \<Rightarrow> string \<times> string" where
  "url_netloc rest =
     (if starts_with rest ''//''
      then let n = takeWhile (\<lambda>c. c \<notin> set ''/?#'') (drop 2 rest) in (n, drop (2 + length n) rest)
      else ([], rest))"

definition uses_params :: "string list" where
  "uses_params = ['''', ''ftp'', ''hdl'', ''prospero'', ''http'', ''https'', ''imap'', ''rtsp'',
     ''rtsps'', ''rtspu'', ''sip'', ''sips'', ''mms'', ''sftp'', ''tel'']"

record parsed_url =
  pu_scheme :: string
  pu_netloc :: string
  pu_path :: string

definition urlparse :: "string \<Rightarrow> parsed_url" where
  "urlparse url =
     (let (scheme, rest) = url_scheme url;
          (netloc, rest') = url_netloc rest;
          p = takeWhile (\<lambda>c. c \<noteq> CHR ''?'') (takeWhile (\<lambda>c. c \<noteq> CHR ''#'') rest');
          segs = split_on CHR ''/'' p in
      \<lparr>pu_scheme = scheme, pu_netloc = netloc,
       pu_path = (if scheme \<in> set uses_params
                  then join_with CHR ''/'' (butlast segs @ [takeWhile (\<lambda>c. c \<noteq> CHR '';'') (last segs)])
                  else p)\<rparr>)"

section \<open>Names, row counts and links\<close>

definition ARCHIVE_CONTENT_TYPES :: "(string, string) dict" where
  "ARCHIVE_CONTENT_TYPES = [(''tar.gz'', ''application/gzip''), (''tar.zst'', ''application/zstd'')]"

definition archive_suffix :: "string option \<Rightarrow> string" where
  "archive_suffix reference =
     (if ends_with (pu_path (urlparse (case reference of None \<Rightarrow> ''None'' | Some r \<Rightarrow> r))) ''.tar.zst''
      then ''tar.zst'' else ''tar.gz'')"

text \<open>\<open>filename.rsplit('.', 1)[-1]\<close> is the text after the last dot.\<close>

definition after_dot :: "string \<Rightarrow> string" where
  "after_dot s = last (split_on CHR ''.'' s)"

definition random_file_name :: "string \<Rightarrow> bool \<Rightarrow> string \<Rightarrow> string" where
  "random_file_name uuid store_as_filename filename =
     (if store_as_filename then filename
      else if ends_with filename ''.tar.gz'' \<or> ends_with filename ''.tar.zst''
      then uuid @ ''.tar.'' @ after_dot filename
      else uuid @ snd (splitext filename))"

text \<open>The copy of the function in \<open>files/upload.py\<close> ignores the instance.\<close>

definition random_file_name_upload :: "string \<Rightarrow> string \<Rightarrow> string" where
  "random_file_name_upload uuid filename =
     (if ends_with filename ''.tar.gz'' \<or> ends_with filename ''.tar.zst''
      then uuid @ ''.tar.'' @ after_dot filename
      else uuid @ snd (splitext filename))"

definition related_file_row_count :: "related_file option \<Rightarrow> int option result" where
  "related_file_row_count f =
     (case f of
        None \<Rightarrow> Inr None
      | Some rf \<Rightarrow>
          if rf_content_type rf = ''application/octet-stream''
          then (case rf_content rf of
                  ParquetRows n \<Rightarrow> Inr (Some (int n))
                | _ \<Rightarrow> Inl (ValueError ''not a parquet file''))
          else (case rf_content rf of
                  ParquetRows n \<Rightarrow> Inr (Some (int n))
                | CsvRows rows \<Rightarrow> Inr (Some (max (int (length (filter (\<lambda>r. r \<noteq> []) rows)) - 1) 0))
                | JsonDoc _ rows \<Rightarrow> Inr (Some (max (int (length (filter (\<lambda>r. r \<noteq> []) rows)) - 1) 0))
                | ZipOf n \<Rightarrow> Inl (ValueError (''Expected a single file in zip archive, found '' @ str_nat n))
                | Opaque _ \<Rightarrow> Inl (ValueError ''codec can't decode'')))"

definition read_json :: "related_file \<Rightarrow> json result" where
  "read_json f = (case rf_content f of JsonDoc j _ \<Rightarrow> Inr j | _ \<Rightarrow> Inl (ValueError ''not json''))"

definition is_ready :: "conversion_state \<Rightarrow> bool" where
  "is_ready s \<longleftrightarrow> s \<in> set [CONV_NONE, CONV_ERROR, CONV_DONE]"

text \<open>
  What the code asks of the configured storage. \<open>sg_bucket\<close> answers \<open>Object(key).load()\<close> with
  an error code or success and is missing when the storage has no bucket; \<open>sg_container\<close>
  likewise for blobs. \<open>sg_available\<close> is the name the back end chooses for a new object.
\<close>

datatype storage_type = SHARED_FS | AWS_S3 | AZURE

record storage =
  sg_type :: storage_type
  sg_aws_shared_bucket :: bool
  sg_azure_shared_container :: bool
  sg_location :: string
  sg_url :: "string \<Rightarrow> string"
  sg_bucket :: "(string option \<Rightarrow> string option) option"
  sg_container :: "(string option \<Rightarrow> bool) option"
  sg_header :: "string \<Rightarrow> string"
  sg_available :: "string \<Rightarrow> string"
  sg_valid_path :: "string \<Rightarrow> string"
  sg_copy_status :: "nat \<Rightarrow> string"
  sg_object :: "string \<Rightarrow> file_content"

definition file_storage_link :: "storage \<Rightarrow> related_file option \<Rightarrow> bool \<Rightarrow> string option" where
  "file_storage_link sg storage_obj fullpath =
     (case storage_obj of
        None \<Rightarrow> None
      | Some f \<Rightarrow>
          if rf_file f = [] then None
          else
            (let storage_file =
                   (if str_truthy (rf_converted_file f) \<and> rf_conversion_state f = CONV_DONE
                    then the (rf_converted_file f) else rf_file f) in
             if sg_type sg \<in> {AWS_S3, AZURE} then
               (let shared_storage = (if sg_type sg = AWS_S3 then sg_aws_shared_bucket sg
                                      else sg_azure_shared_container sg) in
                if shared_storage \<or> fullpath then Some (path_join (sg_location sg) storage_file)
                else Some (sg_url sg storage_file))
             else Some storage_file))"

section \<open>Storing worker output\<close>

definition is_valid_url :: "string option \<Rightarrow> bool" where
  "is_valid_url url =
     (if str_truthy url
      then (let r = urlparse (the url) in
            pu_scheme r \<noteq> [] \<and> pu_netloc r \<noteq> [] \<and> pu_scheme r \<in> set [''http'', ''https''])
      else False)"

definition is_in_bucket :: "storage \<Rightarrow> string option \<Rightarrow> bool result" where
  "is_in_bucket sg object_key =
     (case sg_bucket sg of
        None \<Rightarrow> Inr False
      | Some load \<Rightarrow>
          (case load object_key of
             None \<Rightarrow> Inr True
           | Some code \<Rightarrow> if code = ''404'' then Inr False else Inl (ClientError code)))"

definition is_in_container :: "storage \<Rightarrow> string option \<Rightarrow> bool" where
  "is_in_container sg object_key =
     (case sg_container sg of None \<Rightarrow> False | Some found \<Rightarrow> found object_key)"

text \<open>
  \<open>wait_for_blob_copy\<close> polls the copy status. The module does not import \<open>time\<close>, so the call
  of \<open>time.sleep\<close> raises a \<open>NameError\<close>.
\<close>

definition time_sleep :: "unit result" where
  "time_sleep = Inl (NameError ''time'')"

function wait_for_blob_copy :: "unit result \<Rightarrow> (nat \<Rightarrow> string) \<Rightarrow> nat \<Rightarrow> unit result" where
  "wait_for_blob_copy sleep status count =
     (if status count = ''pending''
      then if Suc count > 15 then Inl (TimeoutError ''Timed out waiting for async copy to complete.'')
           else rbind sleep (\<lambda>_. wait_for_blob_copy sleep status (Suc count))
      else Inr ())"
  by pat_completeness auto
termination by (relation "measure (\<lambda>(_, _, count). 16 - count)") auto

declare wait_for_blob_copy.simps [simp del]

definition new_file :: "string \<Rightarrow> string \<Rightarrow> string \<Rightarrow> pk \<Rightarrow> file_content \<Rightarrow> related_file" where
  "new_file stored_name filename content_type creator content =
     blank_file\<lparr>rf_file := stored_name, rf_filename := filename, rf_content_type := content_type,
       rf_creator := Some creator, rf_store_as_filename := True, rf_content := content\<rparr>"

definition create_stored :: "db \<Rightarrow> related_file \<Rightarrow> (db \<times> pk option) result" where
  "create_stored d f = (let (d', i) = create_file d f in Inr (d', Some i))"

text \<open>
  \<open>store_file\<close>. A reference that is not a string makes \<open>os.path.basename\<close> raise a
  \<open>TypeError\<close>; the server-side copies (S3, Azure) give the new object the content of the
  referenced one.
\<close>

definition store_file ::
  "storage \<Rightarrow> db \<Rightarrow> string option \<Rightarrow> string \<Rightarrow> pk \<Rightarrow> bool \<Rightarrow> string option \<Rightarrow> (db \<times> pk option) result" where
  "store_file sg d reference content_type creator required filename =
     (if is_valid_url reference then
        (let header_fname = last (split_sub ''filename='' 0 [] (sg_header sg (the reference)));
             ref = (if header_fname \<noteq> [] then header_fname else basename (pu_path (urlparse (the reference))));
             fname = str_or filename ref
                  in create_stored d (new_file (sg_available sg fname) fname content_type creator
                    (sg_object sg (the reference))))
      else
        rbind (is_in_bucket sg reference) (\<lambda>in_bucket.
          if in_bucket then
            (let fname = str_or filename (basename (the reference))
                  in create_stored d (new_file (sg_available sg fname) fname content_type creator
                    (sg_object sg (the reference))))
          else if is_in_container sg reference then
            (let fname = sg_valid_path sg (str_or filename (basename (the reference))) in
             rbind (wait_for_blob_copy time_sleep (sg_copy_status sg) 0) (\<lambda>_.
               create_stored d (new_file (sg_available sg fname) fname content_type creator
                    (sg_object sg (the reference)))))
          else
            (case reference of
               None \<Rightarrow> if \<not> required then Inr (d, None)
                       else Inl (TypeError ''expected str, bytes or os.PathLike object'')
             | Some r \<Rightarrow>
                 (let ref = basename r; fname = str_or filename ref
                  in create_stored d (new_file ref fname content_type creator (sg_object sg ref))))))"

text \<open>
  The V1 copy of \<open>store_file\<close> takes the name of a server-side copy from \<open>ref\<close>, which only the
  URL branch binds.
\<close>

definition unbound_ref :: "string option \<Rightarrow> string result" where
  "unbound_ref filename = (if str_truthy filename then Inr (the filename) else Inl (UnboundLocalError ''ref''))"

definition store_file_v1 ::
  "storage \<Rightarrow> db \<Rightarrow> string option \<Rightarrow> string \<Rightarrow> pk \<Rightarrow> bool \<Rightarrow> string option \<Rightarrow> (db \<times> pk option) result" where
  "store_file_v1 sg d reference content_type creator required filename =
     (if is_valid_url reference then
        (let header_fname = last (split_sub ''filename='' 0 [] (sg_header sg (the reference)));
             ref = (if header_fname \<noteq> [] then header_fname else basename (pu_path (urlparse (the reference))));
             fname = str_or filename ref
                  in create_stored d (new_file (sg_available sg fname) fname content_type creator
                    (sg_object sg (the reference))))
      else
        rbind (is_in_bucket sg reference) (\<lambda>in_bucket.
          if in_bucket then
            rbind (unbound_ref filename) (\<lambda>fname.
              create_stored d (new_file (sg_available sg fname) fname content_type creator
                    (sg_object sg (the reference))))
          else if is_in_container sg reference then
            rbind (unbound_ref filename) (\<lambda>new_filename.
              rbind (wait_for_blob_copy time_sleep (sg_copy_status sg) 0) (\<lambda>_.
                let fname = sg_valid_path sg new_filename
                  in create_stored d (new_file (sg_available sg fname) fname content_type creator
                    (sg_object sg (the reference)))))
          else
            (case reference of
               None \<Rightarrow> if \<not> required then Inr (d, None)
                       else Inl (TypeError ''expected str, bytes or os.PathLike object'')
             | Some r \<Rightarrow>
                 (let ref = basename r; fname = str_or filename ref
                  in create_stored d (new_file ref fname content_type creator (sg_object sg ref))))))"

definition store_archive ::
  "storage \<Rightarrow> db \<Rightarrow> string option \<Rightarrow> pk \<Rightarrow> string \<Rightarrow> bool \<Rightarrow> (db \<times> pk option) result" where
  "store_archive sg d reference creator name required =
     (let suffix = archive_suffix reference in
      case map_of ARCHIVE_CONTENT_TYPES suffix of
        None \<Rightarrow> Inl (KeyError suffix)
      | Some content_type \<Rightarrow>
          store_file sg d reference content_type creator required (Some (name @ ''.'' @ suffix)))"

definition store_archive_v1 ::
  "storage \<Rightarrow> db \<Rightarrow> string option \<Rightarrow> pk \<Rightarrow> string \<Rightarrow> bool \<Rightarrow> (db \<times> pk option) result" where
  "store_archive_v1 sg d reference creator name required =
     (let suffix = archive_suffix reference in
      case map_of ARCHIVE_CONTENT_TYPES suffix of
        None \<Rightarrow> Inl (KeyError suffix)
      | Some content_type \<Rightarrow>
          store_file_v1 sg d reference content_type creator required (Some (name @ ''.'' @ suffix)))"

section \<open>File fields of an analysis\<close>

text \<open>The names \<open>getattr\<close> and \<open>setattr\<close> are called with.\<close>

datatype analysis_field =
    settings_file
  | input_file
  | input_generation_traceback_file
  | output_file
  | run_traceback_file
  | run_log_file
  | lookup_errors_file
  | lookup_success_file
  | lookup_validation_file
  | summary_levels_file

fun get_field :: "analysis_field \<Rightarrow> analysis \<Rightarrow> pk option" where
  "get_field settings_file a = an_settings_file a"
| "get_field input_file a = an_input_file a"
| "get_field input_generation_traceback_file a = an_input_generation_traceback_file a"
| "get_field output_file a = an_output_file a"
| "get_field run_traceback_file a = an_run_traceback_file a"
| "get_field run_log_file a = an_run_log_file a"
| "get_field lookup_errors_file a = an_lookup_errors_file a"
| "get_field lookup_success_file a = an_lookup_success_file a"
| "get_field lookup_validation_file a = an_lookup_validation_file a"
| "get_field summary_levels_file a = an_summary_levels_file a"

fun set_field :: "analysis_field \<Rightarrow> pk option \<Rightarrow> analysis \<Rightarrow> analysis" where
  "set_field settings_file v a = a\<lparr>an_settings_file := v\<rparr>"
| "set_field input_file v a = a\<lparr>an_input_file := v\<rparr>"
| "set_field input_generation_traceback_file v a = a\<lparr>an_input_generation_traceback_file := v\<rparr>"
| "set_field output_file v a = a\<lparr>an_output_file := v\<rparr>"
| "set_field run_traceback_file v a = a\<lparr>an_run_traceback_file := v\<rparr>"
| "set_field run_log_file v a = a\<lparr>an_run_log_file := v\<rparr>"
| "set_field lookup_errors_file v a = a\<lparr>an_lookup_errors_file := v\<rparr>"
| "set_field lookup_success_file v a = a\<lparr>an_lookup_success_file := v\<rparr>"
| "set_field lookup_validation_file v a = a\<lparr>an_lookup_validation_file := v\<rparr>"
| "set_field summary_levels_file v a = a\<lparr>an_summary_levels_file := v\<rparr>"

definition all_fields :: "analysis_field list" where
  "all_fields = [settings_file, input_file, input_generation_traceback_file, output_file,
     run_traceback_file, run_log_file, lookup_errors_file, lookup_success_file,
     lookup_validation_file, summary_levels_file]"

text \<open>
  \<open>delete_prev_output\<close>: the named fields are cleared on the object and in the row before the
  files they pointed to are deleted, so the deletion does not cascade to the analysis.
\<close>

fun collect_prev :: "analysis_field list \<Rightarrow> analysis \<Rightarrow> analysis \<times> pk list" where
  "collect_prev [] a = (a, [])"
| "collect_prev (f # fs) a =
     (case get_field f a of
        None \<Rightarrow> collect_prev fs a
      | Some i \<Rightarrow> let (a', is) = collect_prev fs (set_field f None a) in (a', i # is))"

definition delete_prev_output :: "db \<Rightarrow> analysis \<Rightarrow> analysis_field list \<Rightarrow> db \<times> analysis" where
  "delete_prev_output d object_model field_list =
     (let (a, files_for_removal) = collect_prev field_list object_model;
          d1 = save_analysis_fields d (an_id a)
                 (\<lambda>row. fold (\<lambda>f r. set_field f (get_field f a) r) field_list row)
      in (fold (\<lambda>i e. delete_file e i) files_for_removal d1, a))"

definition delete_prev_output_v1 :: "db \<Rightarrow> analysis \<Rightarrow> analysis_field list \<Rightarrow> db \<times> analysis" where
  "delete_prev_output_v1 d object_model field_list =
     (let (a, files_for_removal) = collect_prev field_list object_model;
          d1 = save_analysis_fields d (an_id a)
                 (\<lambda>row. fold (\<lambda>f r. set_field f (get_field f a) r) field_list row)
      in (fold (\<lambda>i e. delete_file e i) files_for_removal d1, a))"

section \<open>Lemmas\<close>

lemma get_set_field [simp]: "get_field g (set_field f v a) = (if g = f then v else get_field g a)"
  by (cases f; cases g) simp_all

lemma set_field_frame [simp]:
  "an_id (set_field f v a) = an_id a" "an_status (set_field f v a) = an_status a"
  "an_portfolio (set_field f v a) = an_portfolio a" "an_model (set_field f v a) = an_model a"
  "an_run_mode (set_field f v a) = an_run_mode a"
  by (cases f; simp)+

lemma collect_prev_frame [simp]:
  "an_id (fst (collect_prev fs a)) = an_id a" "an_status (fst (collect_prev fs a)) = an_status a"
  by (induction fs a rule: collect_prev.induct) (auto split: option.splits prod.splits)

lemma collect_prev_field:
  "get_field g (fst (collect_prev fs a)) = (if g \<in> set fs then None else get_field g a)"
  by (induction fs a rule: collect_prev.induct) (auto split: option.splits prod.splits)

lemma collect_prev_files:
  "i \<in> set (snd (collect_prev fs a)) \<Longrightarrow> \<exists>f \<in> set fs. get_field f a = Some i"
  by (induction fs a rule: collect_prev.induct) (fastforce split: option.splits prod.splits if_splits)+

lemma collect_prev_files_complete:
  "f \<in> set fs \<Longrightarrow> get_field f a = Some i \<Longrightarrow> i \<in> set (snd (collect_prev fs a))"
  by (induction fs a rule: collect_prev.induct) (fastforce split: option.splits prod.splits if_splits)+

lemma fold_set_field:
  "get_field g (fold (\<lambda>f r. set_field f (get_field f a) r) fs r) =
     (if g \<in> set fs then get_field g a else get_field g r)"
  by (induction fs arbitrary: r) auto

lemma fold_set_field_frame [simp]:
  "an_id (fold (\<lambda>f r. set_field f (get_field f a) r) fs r) = an_id r"
  "an_status (fold (\<lambda>f r. set_field f (get_field f a) r) fs r) = an_status r"
  by (induction fs arbitrary: r) auto

lemma cascade_files_fields: "i \<in> analysis_cascade_files b \<Longrightarrow> \<exists>g. get_field g b = Some i"
  unfolding analysis_cascade_files_def
  by (metis (no_types) Un_iff elem_set get_field.simps)

lemma cascade_set_null [simp]: "analysis_cascade_files (analysis_set_null i a) = analysis_cascade_files a"
  by (simp add: analysis_cascade_files_def analysis_set_null_def)

lemma get_field_set_null:
  "get_field g (analysis_set_null i a) = None \<or> get_field g (analysis_set_null i a) = get_field g a"
  by (cases g) (simp_all add: analysis_set_null_def unless_eq_def)

lemma unreferenced_delete:
  "file_unreferenced d i \<Longrightarrow> file_unreferenced d j \<Longrightarrow> file_unreferenced (delete_file d i) j"
  by (auto simp: delete_unreferenced) (auto simp: file_unreferenced_def)

text \<open>Deleting a list of unreferenced files only removes files and clears nullable keys.\<close>

lemma delete_files_unreferenced:
  assumes "\<forall>i \<in> set is. file_unreferenced d i"
  shows "fold (\<lambda>i e. delete_file e i) is d =
    d\<lparr>db_files := filter (\<lambda>f. rf_id f \<notin> set is) (db_files d),
      db_analyses := map (fold analysis_set_null is) (db_analyses d),
      db_subtasks := map (fold subtask_set_null is) (db_subtasks d)\<rparr>"
  using assms
proof (induction "is" arbitrary: d)
  case (Cons i "is")
  have "\<forall>j \<in> set is. file_unreferenced (delete_file d i) j"
    using Cons.prems by (auto intro: unreferenced_delete)
  from Cons.IH [OF this] Cons.prems show ?case
    by (simp add: delete_unreferenced conj_commute) 
qed (simp add: filter_True)

lemma fold_set_null_frame [simp]:
  "an_id (fold analysis_set_null is a) = an_id a"
  "an_status (fold analysis_set_null is a) = an_status a"
  by (induction "is" arbitrary: a) auto

lemma fold_set_null_field:
  "get_field g a = None \<Longrightarrow> get_field g (fold analysis_set_null is a) = None"
proof (induction "is" arbitrary: a)
  case (Cons i "is")
  then show ?case using get_field_set_null [of g i a] by auto
qed simp

text \<open>
  No row but the analysis itself, through the listed fields, refers to file \<open>i\<close> by a key whose
  deletion cascades.
\<close>

definition owned_by :: "db \<Rightarrow> analysis \<Rightarrow> analysis_field list \<Rightarrow> pk \<Rightarrow> bool" where
  "owned_by d a fs i \<longleftrightarrow>
     (\<forall>b \<in> set (db_analyses d). an_id b \<noteq> an_id a \<longrightarrow> i \<notin> analysis_cascade_files b) \<and>
     (\<forall>g. g \<notin> set fs \<longrightarrow> get_field g a \<noteq> Some i) \<and>
     (\<forall>p \<in> set (db_portfolios d). i \<notin> portfolio_files p) \<and>
     (\<forall>m \<in> set (db_models d). mo_resource_file m \<noteq> Some i)"

lemma owned_unreferenced_after_clear:
  assumes ok: "db_ok d" and row: "get_analysis d (an_id a) = Some row"
    and same: "\<forall>g. get_field g row = get_field g a" and own: "owned_by d a fs i"
  shows "file_unreferenced (save_analysis_fields d (an_id a)
    (fold (\<lambda>f r. set_field f (get_field f (fst (collect_prev fs a))) r) fs)) i"
proof -
  let ?upd = "fold (\<lambda>f r. set_field f (get_field f (fst (collect_prev fs a))) r) fs"
  have "i \<notin> analysis_cascade_files (if an_id b = an_id a then ?upd b else b)"
    if b: "b \<in> set (db_analyses d)" for b
  proof (cases "an_id b = an_id a")
    case True
    then have "b = row"
      using b ok get_analysis_mem [OF row] get_analysis_id [OF row]
      by (simp add: db_ok_def distinct_map inj_on_def)
    then have "get_field g (?upd b) = (if g \<in> set fs then None else get_field g a)" for g
      using same unfolding fold_set_field by (simp add: collect_prev_field)
    then have "get_field g (?upd b) \<noteq> Some i" for g
      using own by (simp add: owned_by_def)
    with True show ?thesis using cascade_files_fields by auto
  qed (use own b in \<open>auto simp: owned_by_def\<close>)
  then have "\<forall>b \<in> set (db_analyses (save_analysis_fields d (an_id a) ?upd)). i \<notin> analysis_cascade_files b"
    unfolding save_analysis_fields_def by fastforce
  then show ?thesis
    using own by (simp add: file_unreferenced_def owned_by_def frame_simps)
qed

lemma delete_prev_output_eq:
  assumes ok: "db_ok d" and row: "get_analysis d (an_id a) = Some row"
    and same: "\<forall>g. get_field g row = get_field g a"
    and own: "\<forall>f \<in> set fs. \<forall>i. get_field f a = Some i \<longrightarrow> owned_by d a fs i"
  defines "is \<equiv> snd (collect_prev fs a)"
    and "d1 \<equiv> save_analysis_fields d (an_id a)
      (fold (\<lambda>f r. set_field f (get_field f (fst (collect_prev fs a))) r) fs)"
  shows "delete_prev_output d a fs =
    (d1\<lparr>db_files := filter (\<lambda>f. rf_id f \<notin> set is) (db_files d),
        db_analyses := map (fold analysis_set_null is) (db_analyses d1),
        db_subtasks := map (fold subtask_set_null is) (db_subtasks d)\<rparr>, fst (collect_prev fs a))"
proof -
  have "\<forall>i \<in> set is. file_unreferenced d1 i"
    using owned_unreferenced_after_clear [OF ok row same] own collect_prev_files
    unfolding is_def d1_def by metis
  from delete_files_unreferenced [OF this] show ?thesis
    by (simp add: delete_prev_output_def split_beta Let_def is_def d1_def frame_simps)
qed

lemma delete_prev_output_v1_eq [simp]: "delete_prev_output_v1 = delete_prev_output"
  by (simp add: fun_eq_iff delete_prev_output_v1_def delete_prev_output_def)

lemma archive_suffix_cases: "archive_suffix r = ''tar.gz'' \<or> archive_suffix r = ''tar.zst''"
  by (simp add: archive_suffix_def)

lemma archive_type_Some: "\<exists>t. map_of ARCHIVE_CONTENT_TYPES (archive_suffix r) = Some t"
  using archive_suffix_cases [of r] by (auto simp: ARCHIVE_CONTENT_TYPES_def)

lemma unbound_ref_Some [simp]: "n \<noteq> [] \<Longrightarrow> unbound_ref (Some n) = Inr n"
  by (simp add: unbound_ref_def str_truthy_def)

lemma str_or_Some [simp]: "n \<noteq> [] \<Longrightarrow> str_or (Some n) b = n"
  by (simp add: str_or_def str_truthy_def)

text \<open>With a file name given, the two versions of \<open>store_file\<close> agree.\<close>

lemma store_file_v1_eq:
  "n \<noteq> [] \<Longrightarrow> store_file_v1 sg d r t c req (Some n) = store_file sg d r t c req (Some n)"
  by (cases "is_in_bucket sg r") (simp_all add: store_file_v1_def store_file_def Let_def)

lemma store_archive_v1_eq [simp]: "store_archive_v1 = store_archive"
  by (auto simp: fun_eq_iff store_archive_v1_def store_archive_def store_file_v1_eq Let_def
      split: option.splits)

lemma create_stored_eq:
  "create_stored d f = Inr (fst (create_file d f), Some (snd (create_file d f)))"
  by (simp add: create_stored_def split_beta)

lemma create_stored_new:
  "create_stored d (new_file s n t c x) = Inr (d', v) \<Longrightarrow>
   \<exists>f. v = Some (snd (create_file d f)) \<and> d' = fst (create_file d f) \<and>
       rf_content_type f = t \<and> rf_creator f = Some c"
  by (rule exI [of _ "new_file s n t c x"]) (simp add: create_stored_eq new_file_def)

text \<open>The effect of a successful \<open>store_file\<close>: at most one new file row.\<close>

lemma store_file_effect:
  assumes "store_file sg d r t c req n = Inr (d', v)"
  shows "(v = None \<and> d' = d \<and> r = None \<and> \<not> req) \<or>
    (\<exists>f. v = Some (snd (create_file d f)) \<and> d' = fst (create_file d f) \<and>
         rf_content_type f = t \<and> rf_creator f = Some c)"
  using assms
  by (auto simp: store_file_def Let_def exn_simps split: if_splits option.splits
      dest!: create_stored_new)

text \<open>A file name that ends in an archive suffix keeps it when it is made random.\<close>

lemma after_dot_append: "CHR ''.'' \<notin> set t \<Longrightarrow> after_dot (s @ CHR ''.'' # t) = t"
proof -
  assume t: "CHR ''.'' \<notin> set t"
  have "\<exists>w ws. split_on CHR ''.'' (s @ CHR ''.'' # t) = (w # ws) @ [t]"
  proof (induction s)
    case Nil
    show ?case using t by (auto simp: split_on_no_sep)
  next
    case (Cons x xs)
    then obtain w ws where "split_on CHR ''.'' (xs @ CHR ''.'' # t) = (w # ws) @ [t]" by blast
    then show ?case by (cases "x = CHR ''.''") (auto intro: exI [of _ "w # ws"])
  qed
  then show ?thesis by (auto simp: after_dot_def)
qed

section \<open>Properties\<close>

text \<open>
  Replacing old output is safe. When the files in the listed fields belong to this analysis
  only, \<open>delete_prev_output\<close> removes exactly those files and no analysis, portfolio or model
  row, leaves the listed fields empty on the object and in the row, and keeps the status of the
  row.
\<close>

theorem delete_prev_output_no_cascade:
  assumes "db_ok d" "get_analysis d (an_id a) = Some row"
    "\<forall>g. get_field g row = get_field g a"
    "\<forall>f \<in> set fs. \<forall>i. get_field f a = Some i \<longrightarrow> owned_by d a fs i"
    "delete_prev_output d a fs = (d', a')"
  shows "map an_id (db_analyses d') = map an_id (db_analyses d) \<and>
    db_portfolios d' = db_portfolios d \<and> db_models d' = db_models d \<and>
    (\<forall>f \<in> set fs. get_field f a' = None) \<and>
    (\<exists>row'. get_analysis d' (an_id a) = Some row' \<and> an_status row' = an_status row \<and>
       (\<forall>f \<in> set fs. get_field f row' = None)) \<and>
    rf_id ` set (db_files d') = rf_id ` set (db_files d) - {i. \<exists>f \<in> set fs. get_field f a = Some i}"
proof -
  define rem upd where "rem = snd (collect_prev fs a)"
    and "upd = fold (\<lambda>f r. set_field f (get_field f (fst (collect_prev fs a))) r) fs"
  have d': "d' = (save_analysis_fields d (an_id a) upd)\<lparr>
      db_files := filter (\<lambda>f. rf_id f \<notin> set rem) (db_files d),
      db_analyses := map (fold analysis_set_null rem) (db_analyses (save_analysis_fields d (an_id a) upd)),
      db_subtasks := map (fold subtask_set_null rem) (db_subtasks d)\<rparr>"
    and a': "a' = fst (collect_prev fs a)"
    using delete_prev_output_eq [OF assms(1-4)] assms(5) by (simp_all add: rem_def upd_def)
  have rem: "set rem = {i. \<exists>f \<in> set fs. get_field f a = Some i}"
    using collect_prev_files collect_prev_files_complete unfolding rem_def by blast
  have upd: "an_id (upd r) = an_id r" "an_status (upd r) = an_status r"
    "f \<in> set fs \<Longrightarrow> get_field f (upd r) = None" for f r
    unfolding upd_def by (simp, simp) (unfold fold_set_field, simp add: collect_prev_field)
  have "get_analysis d' (an_id a) = Some (fold analysis_set_null rem (upd row))"
    using assms(2) find_map_key [of an_id "fold analysis_set_null rem"]
      get_save_analysis_fields [of upd d "an_id a" "an_id a", OF upd(1)]
    by (simp add: d' get_analysis_def)
  moreover have "map an_id (db_analyses d') = map an_id (db_analyses d)"
    by (auto simp: d' save_analysis_fields_def upd)
  moreover have "\<forall>f \<in> set fs. get_field f a' = None" by (simp add: a' collect_prev_field)
  moreover have "rf_id ` set (db_files d') = rf_id ` set (db_files d) - set rem"
    by (auto simp: d')
  ultimately show ?thesis
    using upd fold_set_null_field unfolding rem [symmetric] by (auto simp: d' frame_simps)
qed

definition demo_analysis :: analysis where
  "demo_analysis = \<lparr>an_id = 1, an_creator = 1, an_portfolio = 1, an_model = Some 1, an_name = ''a'',
     an_status = READY, an_run_mode = None, an_task_started = None, an_task_finished = None,
     an_run_task_id = [], an_generate_inputs_task_id = [], an_complex_model_data_files = [],
     an_settings_file = Some 1, an_input_file = Some 2, an_input_generation_traceback_file = None,
     an_output_file = Some 3, an_run_traceback_file = None, an_run_log_file = None,
     an_analysis_chunks = None, an_lookup_chunks = None, an_priority = 4, an_lookup_errors_file = None,
     an_lookup_success_file = None, an_lookup_validation_file = None, an_summary_levels_file = None,
     an_chunking_options = None, an_num_events_total = 0, an_num_events_complete = 0\<rparr>"

definition demo_db :: db where
  "demo_db = \<lparr>db_files = map (\<lambda>i. blank_file\<lparr>rf_id := i\<rparr>) [1, 2, 3], db_models = [], db_portfolios = [],
     db_analyses = [demo_analysis], db_subtasks = [], db_data_files = [], db_next_file = 4, db_next_model = 1,
     db_next_analysis = 2, db_next_portfolio = 2\<rparr>"

theorem delete_prev_output_no_cascade_witness:
  "map an_id (db_analyses (fst (delete_prev_output demo_db demo_analysis [output_file]))) = [1] \<and>
   rf_id ` set (db_files (fst (delete_prev_output demo_db demo_analysis [output_file]))) = {1, 2}"
proof -
  have row: "get_analysis demo_db (an_id demo_analysis) = Some demo_analysis"
    by (simp add: get_analysis_def demo_db_def)
  have ok: "db_ok demo_db" by (simp add: db_ok_def demo_db_def demo_analysis_def blank_file_def)
  have own: "\<forall>f \<in> set [output_file]. \<forall>i. get_field f demo_analysis = Some i \<longrightarrow>
      owned_by demo_db demo_analysis [output_file] i"
  proof -
    have "get_field g demo_analysis \<noteq> Some 3" if "g \<noteq> output_file" for g
      using that by (cases g) (simp_all add: demo_analysis_def)
    then show ?thesis by (simp add: owned_by_def demo_db_def) (simp add: demo_analysis_def)
  qed
  have ids: "map an_id (db_analyses demo_db) = [1]" "rf_id ` set (db_files demo_db) = {1, 2, 3}"
    "{i. \<exists>f \<in> set [output_file]. get_field f demo_analysis = Some i} = {3}"
    by (simp_all add: demo_db_def demo_analysis_def)
  have "\<forall>g. get_field g demo_analysis = get_field g demo_analysis" by simp
  from delete_prev_output_no_cascade [OF ok row this own prod.collapse [symmetric]]
  have "map an_id (db_analyses (fst (delete_prev_output demo_db demo_analysis [output_file]))) = [1]"
    "rf_id ` set (db_files (fst (delete_prev_output demo_db demo_analysis [output_file]))) = {1, 2, 3} - {3}"
    unfolding ids by simp_all
  then show ?thesis by (simp only: insert_Diff_if) simp
qed

text \<open>
  The wait for an Azure copy never completes a pending copy: the helper's module lacks the
  import of \<open>time\<close>, so a copy that is still pending at the first poll fails with a
  \<open>NameError\<close> instead of being polled again, and it succeeds exactly when the first poll is
  not pending.
\<close>

theorem wait_for_blob_copy_as_written:
  "wait_for_blob_copy time_sleep status 0 =
     (if status 0 = ''pending'' then Inl (NameError ''time'') else Inr ())"
  by (simp add: wait_for_blob_copy.simps [of _ _ 0] time_sleep_def)

text \<open>
  With a working \<open>sleep\<close> the polling loop is bounded: it succeeds exactly when one of the
  first sixteen polls is no longer pending and raises a \<open>TimeoutError\<close> otherwise.
\<close>

theorem wait_for_blob_copy_bounded:
  "wait_for_blob_copy (Inr ()) status 0 =
     (if \<exists>k \<in> {0..15}. status k \<noteq> ''pending'' then Inr ()
      else Inl (TimeoutError ''Timed out waiting for async copy to complete.''))"
proof -
  have "wait_for_blob_copy (Inr ()) status n =
     (if \<exists>k \<in> {n..15}. status k \<noteq> ''pending'' then Inr ()
      else Inl (TimeoutError ''Timed out waiting for async copy to complete.''))" if "n \<le> 15" for n
    using that
  proof (induction "15 - n" arbitrary: n)
    case 0
    then show ?case by (subst wait_for_blob_copy.simps) auto
  next
    case (Suc k)
    then have IH: "wait_for_blob_copy (Inr ()) status (Suc n) =
      (if \<exists>k \<in> {Suc n..15}. status k \<noteq> ''pending'' then Inr ()
       else Inl (TimeoutError ''Timed out waiting for async copy to complete.''))" by simp
    have "{n..15} = insert n {Suc n..15}" using Suc.prems by auto
    with IH Suc.hyps show ?case by (subst wait_for_blob_copy.simps) auto
  qed
  then show ?thesis by simp
qed

end
