(* ===== verification/Group_Auth.thy ===== *)
theory Group_Auth
  imports Oasis_Prelude
begin

text \<open>
  Group based access control (\<open>permissions/group_auth.py\<close>): which groups a user may attach to
  an object, who may modify an object, and which objects a user sees in a listing. A group has
  a primary key and a unique name.
\<close>

section \<open>Data\<close>

record group =
  g_id :: nat
  g_name :: string

record user =
  u_id :: nat
  u_groups :: "group list"
  u_is_superuser :: bool
  u_is_staff :: bool

text \<open>\<open>AnonymousUser\<close> is not a row of the user table.\<close>

datatype actor = Anonymous | User user

record user_store =
  us_users :: "user list"
  us_cache :: "user option"
  us_next :: nat

definition get_or_create_system_user :: "user_store \<Rightarrow> user_store \<times> user" where
  "get_or_create_system_user s =
     (case us_cache s of
        Some u \<Rightarrow> (s, u)
      | None \<Rightarrow>
          (case find u_is_superuser (us_users s) of
             Some u \<Rightarrow> (s\<lparr>us_cache := Some u\<rparr>, u)
           | None \<Rightarrow>
               let u = \<lparr>u_id = us_next s, u_groups = [], u_is_superuser = True, u_is_staff = True\<rparr>
               in (s\<lparr>us_users := us_users s @ [u], us_next := Suc (us_next s), us_cache := Some u\<rparr>, u)))"

definition resolve_user :: "user_store \<Rightarrow> actor \<Rightarrow> user_store \<times> user" where
  "resolve_user s a = (case a of User u \<Rightarrow> (s, u) | Anonymous \<Rightarrow> get_or_create_system_user s)"

section \<open>Groups of an object\<close>

definition get_group_names :: "group list \<Rightarrow> string set" where
  "get_group_names gs = (if gs = [] then {} else g_name ` set gs)"

definition privileged :: "user \<Rightarrow> bool" where
  "privileged u \<longleftrightarrow> u_is_superuser u \<or> u_is_staff u"

text \<open>
  \<open>verify_and_get_groups\<close>: \<open>None\<close> stands for a missing parameter. The error text lists the
  groups the user is not in.
\<close>

definition verify_and_get_groups :: "user \<Rightarrow> group list option \<Rightarrow> group list result" where
  "verify_and_get_groups u groups =
     (case groups of
        None \<Rightarrow> Inr (u_groups u)
      | Some gs \<Rightarrow>
          if gs = [] then
            (if u_groups u = [] then Inr []
             else if \<not> privileged u
             then Inl (ValidationError [(''groups'', [''user is required to specify groups''])])
             else Inr gs)
          else if \<not> privileged u then
            (let group_names = get_group_names gs;
                 user_not_in_groups = group_names - get_group_names (u_groups u) in
             if user_not_in_groups \<noteq> {} \<and> card user_not_in_groups = card group_names
             then Inl (ValidationError [(''groups'', [''user is not member of group(s)''])])
             else Inr (filter (\<lambda>g. g_name g \<notin> user_not_in_groups) gs))
          else Inr gs)"

text \<open>The \<open>groups\<close> entry of a serializer's attributes: absent, \<open>None\<close>, or a list.\<close>

definition validate_and_update_groups ::
  "bool \<Rightarrow> user \<Rightarrow> group list option \<Rightarrow> group list option result" where
  "validate_and_update_groups partial u attrs_groups =
     (if \<not> partial \<or> attrs_groups \<noteq> None
      then rbind (verify_and_get_groups u attrs_groups) (\<lambda>gs. Inr (Some gs))
      else Inr attrs_groups)"

record data_file =
  df_id :: nat
  df_groups :: "group list"

fun validate_data_files :: "user \<Rightarrow> data_file list \<Rightarrow> unit result" where
  "validate_data_files u [] = Inr ()"
| "validate_data_files u (f # fs) =
     (case verify_and_get_groups u (Some (df_groups f)) of
        Inl (ValidationError _) \<Rightarrow>
          Inl (ValidationError [(''data_files'',
            [''You are not allowed to use data file '' @ str_nat (df_id f)])])
      | Inl e \<Rightarrow> Inl e
      | Inr _ \<Rightarrow> validate_data_files u fs)"

section \<open>Write access\<close>

text \<open>An object whose model has no \<open>groups\<close> relation is \<open>None\<close>.\<close>

definition validate_user_is_owner :: "user \<Rightarrow> group list option \<Rightarrow> bool" where
  "validate_user_is_owner u obj_groups =
     (if privileged u then True
      else (case obj_groups of
              None \<Rightarrow> True
            | Some gs \<Rightarrow>
                if card (set gs) > 0
                then \<not> (card (set gs - set (u_groups u)) = card (set gs))
                else True))"

definition verify_user_is_in_obj_groups :: "user \<Rightarrow> group list option \<Rightarrow> string \<Rightarrow> unit result" where
  "verify_user_is_in_obj_groups u obj_groups msg =
     (if \<not> validate_user_is_owner u obj_groups then Inl (PermissionDenied msg) else Inr ())"

text \<open>
  \<open>IsMemberOfObjectGroupPermission.has_permission\<close>. The request names a primary key or not;
  the lookup yields the object's groups (those of the sub model attribute when one is
  configured, \<open>None\<close> when that attribute is null), or nothing when there is no such row.
\<close>

definition has_permission ::
  "user \<Rightarrow> (nat \<Rightarrow> group list option option) \<Rightarrow> nat option \<Rightarrow> bool" where
  "has_permission u lookup pk =
     (if u_is_superuser u then True
      else (case pk of
              None \<Rightarrow> True
            | Some i \<Rightarrow>
                (case lookup i of
                   None \<Rightarrow> True
                 | Some None \<Rightarrow> True
                 | Some (Some gs) \<Rightarrow> validate_user_is_owner u (Some gs))))"

section \<open>Visibility\<close>

text \<open>
  \<open>VerifyGroupAccessModelViewSet.get_queryset\<close>. Rows carry their groups; with a sub model
  (the portfolio of an analysis) the groups are those of the parent row. \<open>Q(groups=None)\<close>
  selects rows without groups. The direct query and the sub model query treat rows without
  groups differently for a user who has groups.
\<close>

record row =
  row_id :: nat
  row_groups :: "group list"

definition in_groups :: "group list \<Rightarrow> row \<Rightarrow> bool" where
  "in_groups gs r \<longleftrightarrow> (\<exists>g \<in> set gs. g \<in> set (row_groups r))"

definition visible_direct :: "user \<Rightarrow> row list \<Rightarrow> row list" where
  "visible_direct u rows =
     (if u_is_superuser u then rows
      else if u_groups u = [] then filter (\<lambda>r. row_groups r = []) rows
      else filter (in_groups (u_groups u)) rows)"

record child_row =
  ch_id :: nat
  ch_parent :: nat

definition visible_parents :: "user \<Rightarrow> row list \<Rightarrow> row list" where
  "visible_parents u parents =
     (if u_groups u = [] then filter (\<lambda>r. row_groups r = []) parents
      else filter (\<lambda>r. row_groups r = [] \<or> in_groups (u_groups u) r) parents)"

definition visible_sub_model :: "user \<Rightarrow> row list \<Rightarrow> child_row list \<Rightarrow> child_row list" where
  "visible_sub_model u parents rows =
     (if u_is_superuser u then rows
      else if visible_parents u parents = [] then []
      else filter (\<lambda>c. ch_parent c \<in> row_id ` set (visible_parents u parents)) rows)"

text \<open>
  The whole method: a class attribute \<open>queryset\<close> that evaluates to a non-empty list is
  returned as it is, for every user; otherwise the viewset must name a \<open>group_access_model\<close>,
  whose rows are filtered.
\<close>

definition get_queryset :: "row list option \<Rightarrow> row list option \<Rightarrow> user \<Rightarrow> row list result" where
  "get_queryset class_queryset access_rows u =
     (if class_queryset \<noteq> None \<and> class_queryset \<noteq> Some [] then Inr (the class_queryset)
      else (case access_rows of
              Some rows \<Rightarrow> Inr (visible_direct u rows)
            | None \<Rightarrow> Inl (ValueError
                ''Group access enabled without any specified group_access_sub_model'')))"

definition get_queryset_sub ::
  "child_row list option \<Rightarrow> (row list \<times> child_row list) option \<Rightarrow> user \<Rightarrow> child_row list result" where
  "get_queryset_sub class_queryset access_rows u =
     (if class_queryset \<noteq> None \<and> class_queryset \<noteq> Some [] then Inr (the class_queryset)
      else (case access_rows of
              Some (parents, rows) \<Rightarrow> Inr (visible_sub_model u parents rows)
            | None \<Rightarrow> Inl (ValueError
                ''Group access enabled without any specified group_access_sub_model'')))"

text \<open>The mapping file viewset sets \<open>queryset\<close> and no access model.\<close>

definition mapping_files_queryset :: "row list \<Rightarrow> user \<Rightarrow> row list result" where
  "mapping_files_queryset rows u = get_queryset (Some rows) None u"

text \<open>\<open>get_permissions\<close>: the group permission is added for every method not in the
  whitelist when the viewset names an access model.\<close>

definition checks_group_permission :: "bool \<Rightarrow> string \<Rightarrow> bool" where
  "checks_group_permission has_access_model request_method \<longleftrightarrow>
     has_access_model \<and> request_method \<notin> set [''GET'']"

text \<open>\<open>create_missing_groups\<close>: \<open>get_or_create\<close> by name, for privileged users only.\<close>

record group_store =
  gs_groups :: "group list"
  gs_next :: nat

definition get_or_create_group :: "string \<Rightarrow> group_store \<Rightarrow> group_store" where
  "get_or_create_group nm s =
     (if \<exists>g \<in> set (gs_groups s). g_name g = nm then s
      else s\<lparr>gs_groups := gs_groups s @ [\<lparr>g_id = gs_next s, g_name = nm\<rparr>], gs_next := Suc (gs_next s)\<rparr>)"

definition create_missing_groups :: "user option \<Rightarrow> string list option \<Rightarrow> group_store \<Rightarrow> group_store" where
  "create_missing_groups u request_groups s =
     (case u of
        None \<Rightarrow> s
      | Some v \<Rightarrow>
          if privileged v
          then fold get_or_create_group (case request_groups of None \<Rightarrow> [] | Some gs \<Rightarrow> gs) s
          else s)"

section \<open>Lemmas\<close>

text \<open>Group names are unique, so membership by name is membership.\<close>

definition names_unique :: "group set \<Rightarrow> bool" where
  "names_unique G \<longleftrightarrow> inj_on g_name G"

lemma get_group_names_eq: "get_group_names gs = g_name ` set gs"
  by (simp add: get_group_names_def)

lemma card_Diff_eq_iff: "finite A \<Longrightarrow> card (A - B) = card A \<longleftrightarrow> A \<inter> B = {}"
  by (metis Diff_disjoint Diff_triv Int_commute card_seteq Diff_subset finite_Diff order_refl
      inf_commute)

lemma validate_user_is_owner_iff:
  "validate_user_is_owner u (Some gs) \<longleftrightarrow>
     privileged u \<or> gs = [] \<or> set gs \<inter> set (u_groups u) \<noteq> {}"
  by (auto simp: validate_user_is_owner_def card_gt_0_iff card_Diff_eq_iff)

lemma verify_groups_member:
  assumes "verify_and_get_groups u (Some gs) = Inr gs'" "\<not> privileged u"
  shows "set gs' \<subseteq> set gs" "g_name ` set gs' \<subseteq> g_name ` set (u_groups u)"
  using assms
  by (auto simp: verify_and_get_groups_def get_group_names_eq Let_def split: if_splits)

lemma verify_groups_nonempty:
  assumes "verify_and_get_groups u (Some gs) = Inr gs'" "\<not> privileged u" "gs \<noteq> []"
  shows "gs' \<noteq> []"
proof -
  let ?N = "g_name ` set gs" and ?U = "g_name ` set (u_groups u)"
  have "\<not> (?N - ?U \<noteq> {} \<and> card (?N - ?U) = card ?N)" and gs': "gs' = filter (\<lambda>g. g_name g \<notin> ?N - ?U) gs"
    using assms by (auto simp: verify_and_get_groups_def get_group_names_eq Let_def split: if_splits)
  then have "?N - ?U = {} \<or> ?N \<inter> ?U \<noteq> {}" by (simp add: card_Diff_eq_iff)
  moreover have "?N \<noteq> {}" using assms(3) by simp
  ultimately have "?N \<inter> ?U \<noteq> {}" by (metis Diff_eq_empty_iff inf.absorb1)
  then obtain g where "g \<in> set gs" "g_name g \<in> ?U" by auto
  then have "g \<in> set gs'" by (simp add: gs')
  then show ?thesis by auto
qed

lemma get_or_create_group_names:
  "g_name ` set (gs_groups (get_or_create_group nm s)) = insert nm (g_name ` set (gs_groups s))"
proof (cases "\<exists>g \<in> set (gs_groups s). g_name g = nm")
  case True
  then have "nm \<in> g_name ` set (gs_groups s)" by (metis imageI)
  with True show ?thesis by (simp add: get_or_create_group_def insert_absorb)
next
  case False
  then show ?thesis by (simp add: get_or_create_group_def)
qed

lemma get_or_create_group_distinct:
  "distinct (map g_name (gs_groups s)) \<Longrightarrow> distinct (map g_name (gs_groups (get_or_create_group nm s)))"
  by (auto simp: get_or_create_group_def)

lemma fold_get_or_create:
  "g_name ` set (gs_groups (fold get_or_create_group ns s)) = set ns \<union> g_name ` set (gs_groups s)"
  "distinct (map g_name (gs_groups s)) \<Longrightarrow>
   distinct (map g_name (gs_groups (fold get_or_create_group ns s)))"
  by (induction ns arbitrary: s)
     (auto simp: get_or_create_group_names get_or_create_group_distinct)

section \<open>The access contract\<close>

text \<open>
  What the viewsets rely on: superusers may do everything, a user who may write an object shares
  a group with it (or the object has none), and the check does not depend on the object's
  identity but only on its groups.
\<close>

locale access_policy =
  fixes may_write :: "'u \<Rightarrow> 'g set \<Rightarrow> bool"
    and super :: "'u \<Rightarrow> bool"
    and member :: "'u \<Rightarrow> 'g set"
  assumes super_writes: "super u \<Longrightarrow> may_write u G"
    and open_object: "may_write u {}"
    and write_iff: "\<not> super u \<Longrightarrow> G \<noteq> {} \<Longrightarrow> may_write u G \<longleftrightarrow> G \<inter> member u \<noteq> {}"
begin

lemma write_mono: "may_write u G \<Longrightarrow> G \<noteq> {} \<Longrightarrow> G \<subseteq> H \<Longrightarrow> may_write u H"
proof (cases "super u")
  case False
  assume w: "may_write u G" "G \<noteq> {}" "G \<subseteq> H"
  then have "G \<inter> member u \<noteq> {}" using write_iff [OF False w(2)] by simp
  moreover have "H \<noteq> {}" using w by auto
  ultimately show ?thesis using write_iff [OF False, of H] w(3) by auto
qed (rule super_writes)

lemma isolated: "\<not> super u \<Longrightarrow> G \<noteq> {} \<Longrightarrow> G \<inter> member u = {} \<Longrightarrow> \<not> may_write u G"
  by (simp add: write_iff)

lemma share_to_grant: "\<not> super u \<Longrightarrow> \<not> may_write u G \<Longrightarrow> g \<in> member u \<Longrightarrow> may_write u (insert g G)"
  by (simp add: write_iff)

end

definition owner_of :: "user \<Rightarrow> group set \<Rightarrow> bool" where
  "owner_of u G \<longleftrightarrow> privileged u \<or> G = {} \<or> G \<inter> set (u_groups u) \<noteq> {}"

interpretation ga: access_policy owner_of privileged "\<lambda>u. set (u_groups u)"
  by unfold_locales (auto simp: owner_of_def)

lemma validate_owner_of: "validate_user_is_owner u (Some gs) = owner_of u (set gs)"
  by (auto simp: validate_user_is_owner_iff owner_of_def)

section \<open>Properties\<close>

definition alice :: user where
  "alice = \<lparr>u_id = 2, u_groups = [\<lparr>g_id = 1, g_name = ''uw''\<rparr>], u_is_superuser = False, u_is_staff = False\<rparr>"

text \<open>
  A user without admin rights can only attach groups they belong to: the groups that survive
  validation are among the requested ones, each is one of the user's own by name, and a
  non-empty request never silently becomes an object without groups.
\<close>

theorem groups_restricted_to_own:
  assumes "verify_and_get_groups u (Some gs) = Inr gs'" "\<not> privileged u"
  shows "set gs' \<subseteq> set gs \<and> g_name ` set gs' \<subseteq> g_name ` set (u_groups u) \<and> (gs \<noteq> [] \<longrightarrow> gs' \<noteq> [])"
  using verify_groups_member [OF assms] verify_groups_nonempty [OF assms] by blast

theorem groups_restricted_to_own_witness:
  "set [\<lparr>g_id = 1, g_name = ''uw''\<rparr>] \<subseteq> set [\<lparr>g_id = 1, g_name = ''uw''\<rparr>, \<lparr>g_id = 2, g_name = ''re''\<rparr>] \<and>
   g_name ` set [\<lparr>g_id = 1, g_name = ''uw''\<rparr>] \<subseteq> g_name ` set (u_groups alice)"
proof -
  have "verify_and_get_groups alice (Some [\<lparr>g_id = 1, g_name = ''uw''\<rparr>, \<lparr>g_id = 2, g_name = ''re''\<rparr>]) =
      Inr [\<lparr>g_id = 1, g_name = ''uw''\<rparr>]" "\<not> privileged alice"
    by code_simp+
  from groups_restricted_to_own [OF this] show ?thesis by blast
qed

text \<open>
  Write access is granted exactly to superusers and staff, to everyone when the object has no
  groups, and otherwise to users who share a group with the object.
\<close>

theorem write_access_iff:
  "validate_user_is_owner u (Some gs) \<longleftrightarrow>
     privileged u \<or> gs = [] \<or> set gs \<inter> set (u_groups u) \<noteq> {}"
  by (rule validate_user_is_owner_iff)

text \<open>
  Every object a non-superuser with groups sees in a direct listing (portfolios, models, data
  files) is one that user may also modify; objects without groups, which everyone may modify,
  are left out of that listing.
\<close>

theorem visible_objects_writable:
  assumes "r \<in> set (visible_direct u rows)" "\<not> u_is_superuser u" "u_groups u \<noteq> []"
  shows "validate_user_is_owner u (Some (row_groups r)) \<and> row_groups r \<noteq> []"
  using assms by (auto simp: visible_direct_def in_groups_def validate_owner_of owner_of_def)

theorem visible_objects_writable_witness:
  "validate_user_is_owner alice (Some (row_groups \<lparr>row_id = 7, row_groups = u_groups alice\<rparr>)) \<and>
   row_groups \<lparr>row_id = 7, row_groups = u_groups alice\<rparr> \<noteq> []"
  by (rule visible_objects_writable
      [where rows = "[\<lparr>row_id = 7, row_groups = u_groups alice\<rparr>, \<lparr>row_id = 8, row_groups = []\<rparr>]"])
     (simp_all add: visible_direct_def alice_def in_groups_def)

text \<open>
  Analyses, listed through their portfolio, are visible to a non-superuser exactly when the
  user may modify the portfolio as a plain member: the portfolio has no groups or shares one
  with the user.
\<close>

theorem visible_analyses_iff:
  assumes "\<not> u_is_superuser u"
  shows "c \<in> set (visible_sub_model u parents rows) \<longleftrightarrow>
    c \<in> set rows \<and> (\<exists>p \<in> set parents. row_id p = ch_parent c \<and>
      (row_groups p = [] \<or> set (row_groups p) \<inter> set (u_groups u) \<noteq> {}))"
proof -
  have vp: "set (visible_parents u parents) =
      {p \<in> set parents. row_groups p = [] \<or> set (row_groups p) \<inter> set (u_groups u) \<noteq> {}}"
    by (auto simp: visible_parents_def in_groups_def)
  have "c \<in> set (visible_sub_model u parents rows) \<longleftrightarrow>
      c \<in> set rows \<and> ch_parent c \<in> row_id ` set (visible_parents u parents)"
    using assms by (auto simp: visible_sub_model_def)
  then show ?thesis unfolding vp image_iff by auto
qed

theorem visible_analyses_iff_witness:
  "\<lparr>ch_id = 3, ch_parent = 7\<rparr> \<in> set (visible_sub_model alice [\<lparr>row_id = 7, row_groups = []\<rparr>] [\<lparr>ch_id = 3, ch_parent = 7\<rparr>]) \<longleftrightarrow>
    \<lparr>ch_id = 3, ch_parent = 7\<rparr> \<in> set [\<lparr>ch_id = 3, ch_parent = 7\<rparr>] \<and>
    (\<exists>p \<in> set [\<lparr>row_id = 7, row_groups = []\<rparr>]. row_id p = ch_parent \<lparr>ch_id = 3, ch_parent = 7\<rparr> \<and>
      (row_groups p = [] \<or> set (row_groups p) \<inter> set (u_groups alice) \<noteq> {}))"
  by (rule visible_analyses_iff) (simp add: alice_def)

text \<open>
  The mapping file listing ignores groups: with at least one mapping file every user gets all
  of them, and with none the request fails with an error instead of an empty list.
\<close>

theorem mapping_files_listing:
  "mapping_files_queryset rows u =
     (if rows = [] then Inl (ValueError
        ''Group access enabled without any specified group_access_sub_model'') else Inr rows)"
  by (simp add: mapping_files_queryset_def get_queryset_def)

end
