(* ===== verification/Analysis_Lifecycle.thy ===== *)
theory Analysis_Lifecycle
  imports Related_Files Group_Auth
begin

text \<open>
  The life cycle of an analysis (\<open>analyses/models.py\<close>): validation of the model, the run mode,
  the portfolio and the settings; starting input generation and loss generation; cancelling;
  copying; deleting; combining. An operation works on the analysis object and the database and
  yields the new database, the object, and the messages it sends to the task queue, in order.
\<close>

section \<open>Status values\<close>

fun status_name :: "analysis_status \<Rightarrow> string" where
  "status_name NEW = ''NEW''"
| "status_name INPUTS_GENERATION_ERROR = ''INPUTS_GENERATION_ERROR''"
| "status_name INPUTS_GENERATION_NO_KEYS = ''INPUTS_GENERATION_NO_KEYS''"
| "status_name INPUTS_GENERATION_CANCELLED = ''INPUTS_GENERATION_CANCELLED''"
| "status_name INPUTS_GENERATION_STARTED = ''INPUTS_GENERATION_STARTED''"
| "status_name INPUTS_GENERATION_QUEUED = ''INPUTS_GENERATION_QUEUED''"
| "status_name READY = ''READY''"
| "status_name RUN_QUEUED = ''RUN_QUEUED''"
| "status_name RUN_STARTED = ''RUN_STARTED''"
| "status_name RUN_COMPLETED = ''RUN_COMPLETED''"
| "status_name RUN_CANCELLED = ''RUN_CANCELLED''"
| "status_name RUN_ERROR = ''RUN_ERROR''"

definition INPUTS_GENERATION_VALID_STATUSES :: "analysis_status list" where
  "INPUTS_GENERATION_VALID_STATUSES =
     [NEW, INPUTS_GENERATION_ERROR, INPUTS_GENERATION_NO_KEYS, INPUTS_GENERATION_CANCELLED, READY,
      RUN_COMPLETED, RUN_CANCELLED, RUN_ERROR]"

definition RUN_VALID_STATUSES :: "analysis_status list" where
  "RUN_VALID_STATUSES = [READY, RUN_COMPLETED, RUN_ERROR, RUN_CANCELLED]"

text \<open>\<open>', '.join(names)\<close>.\<close>

fun comma_join :: "string list \<Rightarrow> string" where
  "comma_join [] = []"
| "comma_join [w] = w"
| "comma_join (w # ws) = w @ '', '' @ comma_join ws"

section \<open>Messages\<close>

text \<open>
  A queued Celery task: its name, positional arguments, queue, priority (when given), the task
  linked on success (with the analysis and the initiator as extra arguments) and the error
  callback. \<open>Revoke\<close> is \<open>AsyncResult(id).revoke(signal='SIGTERM', terminate=True)\<close>;
  \<open>SendDigest\<close> is the \<open>send_queue_status_digest\<close> task.
\<close>

datatype task_arg =
    A_None
  | A_Int int
  | A_Str string
  | A_Files "(string option \<times> string) list"
  | A_Links "string option list"
  | A_Json json

datatype error_callback =
    OnError string pk pk string
  | HandleTaskFailure pk pk analysis_field analysis_status string

record celery_task =
  ct_name :: string
  ct_args :: "task_arg list"
  ct_queue :: string
  ct_priority :: "int option"
  ct_link :: "(string \<times> pk \<times> pk) option"
  ct_link_error :: "error_callback option"

datatype effect = Dispatch celery_task | Revoke string | SendDigest

record lifecycle_env =
  le_storage :: storage
  le_now :: time
  le_task_id :: string
  le_controller_queue :: string
  le_uuid :: string

text \<open>
  The requests are not wrapped in a transaction, so the outcome of an operation has the database
  also when it raises.
\<close>

type_synonym lifecycle = "db \<times> (analysis \<times> effect list) result"

definition check :: "db \<Rightarrow> 'a result \<Rightarrow> ('a \<Rightarrow> db \<times> 'b result) \<Rightarrow> db \<times> 'b result" where
  "check d r f = (case r of Inl ex \<Rightarrow> (d, Inl ex) | Inr x \<Rightarrow> f x)"

lemma check_simps [simp]: "check d (Inl ex) f = (d, Inl ex)" "check d (Inr x) f = f x"
  by (simp_all add: check_def)

lemma check_ok [exn_simps]:
  "check d r f = (d', Inr y) \<longleftrightarrow> (\<exists>x. r = Inr x \<and> f x = (d', Inr y))"
  by (cases r) auto

type_synonym errors = "(string, string list) dict"

definition arg_str :: "string option \<Rightarrow> task_arg" where
  "arg_str s = (case s of None \<Rightarrow> A_None | Some x \<Rightarrow> A_Str x)"

definition arg_int :: "int option \<Rightarrow> task_arg" where
  "arg_int s = (case s of None \<Rightarrow> A_None | Some x \<Rightarrow> A_Int x)"

section \<open>Related rows\<close>

text \<open>
  Attribute access through a foreign key: \<open>None\<close> has no attributes, and a key without a row
  raises \<open>DoesNotExist\<close> (the database's constraints exclude it).
\<close>

definition self_model :: "db \<Rightarrow> analysis \<Rightarrow> analysis_model result" where
  "self_model d a =
     (case an_model a of
        None \<Rightarrow> Inl (AttributeError ''NoneType'')
      | Some i \<Rightarrow> (case get_model d i of
                     None \<Rightarrow> Inl (ObjectDoesNotExist ''AnalysisModel'') | Some m \<Rightarrow> Inr m))"

definition self_portfolio :: "db \<Rightarrow> analysis \<Rightarrow> portfolio result" where
  "self_portfolio d a =
     (case get_portfolio d (an_portfolio a) of
        None \<Rightarrow> Inl (ObjectDoesNotExist ''Portfolio'') | Some p \<Rightarrow> Inr p)"

definition related :: "db \<Rightarrow> pk option \<Rightarrow> related_file option" where
  "related d i = (case i of None \<Rightarrow> None | Some j \<Rightarrow> get_file d j)"

definition related_json :: "db \<Rightarrow> pk option \<Rightarrow> json result" where
  "related_json d i =
     (case related d i of None \<Rightarrow> Inl (AttributeError ''read_json'') | Some f \<Rightarrow> read_json f)"

text \<open>\<open>str(model)\<close>, which is also the queue name.\<close>

definition model_str :: "analysis_model \<Rightarrow> string" where
  "model_str m = mo_supplier_id m @ ''-'' @ mo_model_id m @ ''-'' @ mo_version_id m"

definition queue_name :: "analysis_model \<Rightarrow> string" where
  "queue_name m = model_str m"

section \<open>Validation\<close>

definition get_chunking_options :: "db \<Rightarrow> analysis \<Rightarrow> chunking_options result" where
  "get_chunking_options d a =
     (case an_chunking_options a of
        Some c \<Rightarrow> Inr c
      | None \<Rightarrow> rbind (self_model d a) (\<lambda>m.
          case mo_chunking_options m of
            Some c \<Rightarrow> Inr c
          | None \<Rightarrow> Inl (AttributeError ''NoneType'')))"

definition validate_standard_analysis :: "analysis \<Rightarrow> unit result" where
  "validate_standard_analysis a =
     (if an_model a = None
      then Inl (ValidationError [(''model'', [''Model not assigned to analysis''])]) else Inr ())"

definition resolve_run_mode :: "analysis_model \<Rightarrow> string option \<Rightarrow> string result" where
  "resolve_run_mode m run_mode_override =
     (if mo_run_mode m = None \<and> run_mode_override = None
      then Inl (ValidationError [(''model'',
             [''Model pk \"'' @ str_nat (mo_id m) @ ''\" - \"run_mode\" must not be null''])])
      else
        (let run_mode = (if str_truthy run_mode_override then run_mode_override else mo_run_mode m) in
         if run_mode \<in> {Some ''V1'', Some ''V2''} then Inr (the run_mode)
         else Inl (ValidationError [(''run_mode'', [''run_mode must be  [V1, V2]''])])))"

text \<open>
  \<open>validate_v2_location_file\<close>: any exception while counting rows becomes an error entry.
\<close>

definition validate_v2_location_file ::
  "db \<Rightarrow> analysis \<Rightarrow> errors \<Rightarrow> (int option \<times> errors) result" where
  "validate_v2_location_file d a errors =
     rbind (get_chunking_options d a) (\<lambda>chunking_options.
     rbind (self_portfolio d a) (\<lambda>p.
       if po_location_file p \<noteq> None then
         (case related_file_row_count (related d (po_location_file p)) of
            Inl e \<Rightarrow> Inr (None, AList.update ''portfolio''
                      [''Failed to read location file size for chunking''] errors)
          | Inr None \<Rightarrow> Inl (TypeError ''< not supported'')
          | Inr (Some loc_lines) \<Rightarrow>
              Inr (Some loc_lines,
                   if loc_lines < 1
                   then AList.update ''portfolio'' [''\"location_file\" must at least one row''] errors
                   else errors))
       else if lookup_strategy chunking_options = DYNAMIC_CHUNKS
       then Inr (None, AList.update ''portfolio''
              [''\"location_file\" must not be null for run_mode = V2 when the lookup chunking strategy is DYNAMIC_CHUNKS'']
              errors)
       else Inr (None, errors)))"

definition validate_input_generation ::
  "db \<Rightarrow> analysis \<Rightarrow> string \<Rightarrow> errors \<Rightarrow> (int option \<times> errors) result" where
  "validate_input_generation d a run_mode errors =
     (if run_mode = ''V1'' then
        rbind (self_portfolio d a) (\<lambda>p.
          if po_location_file p = None \<and> po_accounts_file p = None
          then Inr (None, AList.update ''portfolio''
                 [''Either \"location_file\" or \"accounts_file\" must not be null for run_mode = V1''] errors)
          else Inr (None, errors))
      else validate_v2_location_file d a errors)"

text \<open>
  The event sets: the one selected in the analysis settings, the options of the model settings,
  and the first option whose identifier is the selected one.
\<close>

definition event_set_selected :: "json \<Rightarrow> json result" where
  "event_set_selected analysis_settings =
     rbind (json_get analysis_settings ''model_settings'' (JObj [])) (\<lambda>ms.
     json_get ms ''event_set'' (JStr []))"

definition event_set_options :: "json \<Rightarrow> json \<Rightarrow> json result" where
  "event_set_options model_settings event_set_default =
     rbind (json_get model_settings ''model_settings'' (JObj [])) (\<lambda>ms.
     rbind (json_get ms ''event_set'' event_set_default) (\<lambda>es.
     json_get es ''options'' (JArr [])))"

definition events_matched :: "json list \<Rightarrow> json \<Rightarrow> json list result" where
  "events_matched opts selected =
     rbind (mapR (\<lambda>opt. json_get opt ''id'' JNull) opts) (\<lambda>ids.
       Inr (map fst (filter (\<lambda>(opt, i). py_eq i selected) (zip opts ids))))"

definition event_set_errors :: "json \<Rightarrow> json \<Rightarrow> json list \<Rightarrow> errors \<Rightarrow> errors result" where
  "event_set_errors selected opts matched errors =
     (let e1 = (if \<not> truthy selected
                then AList.update ''analysis_settings_file'' [''event_set, Must not be null for Dynamic chunking''] errors
                else errors);
          e2 = (if \<not> truthy opts
                then AList.update ''model_settings_file'' [''event_set, No options given in Model settings''] e1
                else e1) in
      case matched of
        [] \<Rightarrow> Inr (AList.update ''settings_files''
                [''selected event_set from analysis_settings not found in model_settings''] e2)
      | m # _ \<Rightarrow>
          rbind (json_get m ''number_of_events'' JNull) (\<lambda>n.
            Inr (if \<not> truthy n
                 then AList.update ''model_settings_file'' [''Option 'number_of_events' is not set for event_set''] e2
                 else e2)))"

definition validate_loss_generation ::
  "db \<Rightarrow> analysis \<Rightarrow> string \<Rightarrow> errors \<Rightarrow> errors result" where
  "validate_loss_generation d a run_mode errors =
     (if run_mode \<noteq> ''V2'' then Inr errors
      else
        rbind (get_chunking_options d a) (\<lambda>chunking_options.
          if loss_strategy chunking_options \<noteq> DYNAMIC_CHUNKS then Inr errors
          else
            rbind (self_model d a) (\<lambda>m.
              if mo_resource_file m = None
              then Inr (AList.update ''model_settings_file'' [''Must not be null for Dynamic chunking''] errors)
              else if an_settings_file a \<noteq> None then
                rbind (related_json d (mo_resource_file m)) (\<lambda>model_settings.
                rbind (related_json d (an_settings_file a)) (\<lambda>analysis_settings.
                rbind (json_get analysis_settings ''event_ids'' JNull) (\<lambda>event_ids.
                  if \<not> truthy event_ids then
                    rbind (event_set_selected analysis_settings) (\<lambda>selected.
                    rbind (event_set_options model_settings (JObj [])) (\<lambda>opts.
                    rbind (json_iter opts) (\<lambda>opt_list.
                    rbind (events_matched opt_list selected) (\<lambda>matched.
                    event_set_errors selected opts matched errors))))
                  else Inr errors)))
              else Inr errors)))"

text \<open>
  \<open>get_num_events\<close>: \<open>None\<close> unless the loss chunks are dynamic. The sizes are a dictionary
  comprehension over the options that have a \<open>number_of_events\<close>.
\<close>

fun event_set_sizes :: "json list \<Rightarrow> (json, json) dict \<Rightarrow> (json, json) dict result" where
  "event_set_sizes [] acc = Inr acc"
| "event_set_sizes (e # es) acc =
     rbind (json_has e ''number_of_events'') (\<lambda>has.
       if has then
         rbind (json_index e ''id'') (\<lambda>k.
         rbind (json_index e ''number_of_events'') (\<lambda>n.
           if hashable k then event_set_sizes es (AList.update (json_num k) n acc)
           else Inl (TypeError ''unhashable type'')))
       else event_set_sizes es acc)"

definition get_num_events :: "db \<Rightarrow> analysis \<Rightarrow> json result" where
  "get_num_events d a =
     rbind (get_chunking_options d a) (\<lambda>chunking_options.
       if loss_strategy chunking_options \<noteq> DYNAMIC_CHUNKS then Inr JNull
       else
         rbind (related_json d (an_settings_file a)) (\<lambda>analysis_settings.
         rbind (self_model d a) (\<lambda>m.
         rbind (related_json d (mo_resource_file m)) (\<lambda>model_settings.
         rbind (json_get analysis_settings ''event_ids'' (JArr [])) (\<lambda>user_selected_events.
         rbind (event_set_selected analysis_settings) (\<lambda>selected_event_set.
         rbind (json_len user_selected_events) (\<lambda>n.
           if n > 1 then Inr (JInt n)
           else
             rbind (event_set_options model_settings JNull) (\<lambda>opts.
             rbind (json_iter opts) (\<lambda>opt_list.
             rbind (event_set_sizes opt_list []) (\<lambda>sizes.
               if \<not> hashable selected_event_set then Inl (TypeError ''unhashable type'')
               else
                 (case map_of sizes (json_num selected_event_set) of
                    None \<Rightarrow> Inl (ValidationError [(''non_field_errors'',
                      [''Failed to read event set size for chunking''])])
                  | Some event_set_size \<Rightarrow> Inr event_set_size)))))))))))"

section \<open>Task signatures\<close>

definition data_file_dict :: "storage \<Rightarrow> db \<Rightarrow> pk \<Rightarrow> (string option \<times> string) result" where
  "data_file_dict sg d i =
     (case related d (case map_of (db_data_files d) i of None \<Rightarrow> None | Some f \<Rightarrow> f) of
        None \<Rightarrow> Inl (AttributeError ''filename'')
      | Some f \<Rightarrow> Inr (file_storage_link sg (Some f) False, rf_filename f))"

definition create_complex_model_data_file_dicts ::
  "storage \<Rightarrow> db \<Rightarrow> analysis \<Rightarrow> (string option \<times> string) list result" where
  "create_complex_model_data_file_dicts sg d a =
     mapR (data_file_dict sg d) (an_complex_model_data_files a)"

definition link_arg :: "storage \<Rightarrow> db \<Rightarrow> pk option \<Rightarrow> task_arg" where
  "link_arg sg d i = arg_str (file_storage_link sg (related d i) False)"

definition task :: "string \<Rightarrow> task_arg list \<Rightarrow> string \<Rightarrow> celery_task" where
  "task name args queue =
     \<lparr>ct_name = name, ct_args = args, ct_queue = queue, ct_priority = None, ct_link = None,
      ct_link_error = None\<rparr>"

definition v1_run_analysis_signature :: "storage \<Rightarrow> db \<Rightarrow> analysis \<Rightarrow> celery_task result" where
  "v1_run_analysis_signature sg d a =
     rbind (create_complex_model_data_file_dicts sg d a) (\<lambda>complex_data_files.
     rbind (self_model d a) (\<lambda>m.
       Inr (task ''run_analysis''
         [A_Int (int (an_id a)), link_arg sg d (an_input_file a), link_arg sg d (an_settings_file a),
          A_Files complex_data_files] (queue_name m))))"

definition v1_generate_input_signature :: "storage \<Rightarrow> db \<Rightarrow> analysis \<Rightarrow> celery_task result" where
  "v1_generate_input_signature sg d a =
     rbind (self_portfolio d a) (\<lambda>p.
     rbind (create_complex_model_data_file_dicts sg d a) (\<lambda>complex_data_files.
     rbind (self_model d a) (\<lambda>m.
       let currency = file_storage_link sg (related d (po_currency_conversion_json p)) False;
           args = [A_Int (int (an_id a)), link_arg sg d (po_location_file p), link_arg sg d (po_accounts_file p),
                   link_arg sg d (po_reinsurance_info_file p), link_arg sg d (po_reinsurance_scope_file p),
                   link_arg sg d (an_settings_file a), A_Files complex_data_files] in
       Inr (task ''generate_input''
         (if str_truthy currency \<and> po_reporting_currency p \<noteq> []
          then args @ [arg_str currency, A_Str (po_reporting_currency p)] else args)
         (queue_name m)))))"

definition v2_run_analysis_signature :: "lifecycle_env \<Rightarrow> celery_task" where
  "v2_run_analysis_signature e = task ''start_loss_generation_task'' [] (le_controller_queue e)"

definition v2_start_input_and_loss_generation_signature :: "lifecycle_env \<Rightarrow> celery_task" where
  "v2_start_input_and_loss_generation_signature e =
     task ''start_input_and_loss_generation_task'' [] (le_controller_queue e)"

definition v2_cancel_subtasks_signature :: "lifecycle_env \<Rightarrow> celery_task" where
  "v2_cancel_subtasks_signature e = task ''cancel_subtasks'' [] (le_controller_queue e)"

definition v2_generate_input_signature :: "lifecycle_env \<Rightarrow> celery_task" where
  "v2_generate_input_signature e = task ''start_input_generation_task'' [] (le_controller_queue e)"

section \<open>Starting\<close>

definition reset_input_generation :: "analysis \<Rightarrow> analysis" where
  "reset_input_generation a =
     a\<lparr>an_status := INPUTS_GENERATION_QUEUED, an_lookup_errors_file := None,
       an_lookup_success_file := None, an_lookup_validation_file := None,
       an_summary_levels_file := None, an_input_generation_traceback_file := None,
       an_input_file := None\<rparr>"

definition reset_loss_progress :: "analysis \<Rightarrow> analysis" where
  "reset_loss_progress a = a\<lparr>an_num_events_total := 0, an_num_events_complete := 0\<rparr>"

text \<open>
  \<open>_dispatch_v1\<close> and \<open>_dispatch_v2\<close> return the object with its run mode, the message, and the
  identifier of the queued task.
\<close>

definition dispatch_v1 ::
  "lifecycle_env \<Rightarrow> db \<Rightarrow> analysis \<Rightarrow> celery_task \<Rightarrow> pk \<Rightarrow> string \<Rightarrow> string \<Rightarrow> (analysis \<times> effect list \<times> string) result" where
  "dispatch_v1 e d a t initiator success_callback failure_callback_name =
     rbind (self_model d a) (\<lambda>m.
       Inr (a\<lparr>an_run_mode := Some ''V1''\<rparr>,
            [Dispatch (t\<lparr>ct_link := Some (success_callback, an_id a, initiator),
               ct_link_error := Some (OnError failure_callback_name (an_id a) initiator (queue_name m))\<rparr>)],
            le_task_id e))"

definition dispatch_v2 ::
  "lifecycle_env \<Rightarrow> analysis \<Rightarrow> celery_task \<Rightarrow> pk \<Rightarrow> task_arg list \<Rightarrow> analysis_field \<Rightarrow> analysis_status \<Rightarrow>
   analysis \<times> effect list \<times> string" where
  "dispatch_v2 e a t initiator args traceback_property failure_status =
     (a\<lparr>an_run_mode := Some ''V2''\<rparr>,
      [Dispatch (t\<lparr>ct_args := [A_Int (int (an_id a)), A_Int (int initiator)] @ args,
         ct_priority := Some (an_priority a),
         ct_link_error := Some (HandleTaskFailure (an_id a) initiator traceback_property failure_status ''celery-v2'')\<rparr>)],
      le_task_id e)"

datatype task_id_field = run_task_id | generate_inputs_task_id

definition record_dispatch ::
  "lifecycle_env \<Rightarrow> db \<Rightarrow> analysis \<Rightarrow> task_id_field \<Rightarrow> string \<Rightarrow> effect list \<Rightarrow> lifecycle" where
  "record_dispatch e d a task_id_field i effs =
     (let a1 = (case task_id_field of
                  run_task_id \<Rightarrow> a\<lparr>an_run_task_id := i\<rparr>
                | generate_inputs_task_id \<Rightarrow> a\<lparr>an_generate_inputs_task_id := i\<rparr>);
          a2 = a1\<lparr>an_task_started := Some (le_now e), an_task_finished := None\<rparr>
      in (save_analysis d a2, Inr (a2, effs @ [SendDigest])))"

fun json_arg :: "json \<Rightarrow> task_arg" where
  "json_arg JNull = A_None"
| "json_arg (JInt n) = A_Int n"
| "json_arg j = A_Json j"

definition add_error :: "bool \<Rightarrow> string \<Rightarrow> string list \<Rightarrow> errors \<Rightarrow> errors" where
  "add_error b key msgs errors = (if b then AList.update key msgs errors else errors)"

definition deleted_msg :: "analysis_model \<Rightarrow> string" where
  "deleted_msg m = ''Model pk \"'' @ str_nat (mo_id m) @ ''\" has been deleted''"

text \<open>
  \<open>run\<close> in two parts: the checks, which yield the run mode and the number of events, and the
  part after them that changes the analysis and queues the task.
\<close>

definition run_checks :: "db \<Rightarrow> analysis \<Rightarrow> string option \<Rightarrow> (string \<times> json) result" where
  "run_checks d a run_mode_override =
     rbind (validate_standard_analysis a) (\<lambda>_.
       if an_status a \<notin> set RUN_VALID_STATUSES
       then Inl (ValidationError [(''status'',
              [''Analysis must be in one of the following states ['' @
               comma_join (map status_name RUN_VALID_STATUSES) @ '']''])])
       else
         rbind (self_model d a) (\<lambda>m.
         rbind (resolve_run_mode m run_mode_override) (\<lambda>run_mode.
           let e1 = add_error (mo_deleted m) ''model'' [deleted_msg m] [];
               e2 = add_error (an_settings_file a = None) ''analysis_settings_file'' [''Must not be null''] e1;
               e3 = add_error (an_input_file a = None) ''input_file'' [''Must not be null''] e2 in
           rbind (validate_loss_generation d a run_mode e3) (\<lambda>errors.
             if errors \<noteq> [] then Inl (ValidationError errors)
             else
               rbind (if run_mode = ''V2'' then get_num_events d a else Inr JNull) (\<lambda>events_total.
                 Inr (run_mode, events_total))))))"

definition run_dispatch ::
  "lifecycle_env \<Rightarrow> db \<Rightarrow> analysis \<Rightarrow> pk \<Rightarrow> string \<Rightarrow> json \<Rightarrow> (analysis \<times> effect list \<times> string) result" where
  "run_dispatch e d a initiator run_mode events_total =
     (if run_mode = ''V1''
      then rbind (v1_run_analysis_signature (le_storage e) d a) (\<lambda>t.
             dispatch_v1 e d a t initiator ''record_run_analysis_result'' ''record_run_analysis_failure'')
      else Inr (dispatch_v2 e a (v2_run_analysis_signature e) initiator
             [json_arg events_total] run_traceback_file RUN_ERROR))"

definition run :: "lifecycle_env \<Rightarrow> db \<Rightarrow> analysis \<Rightarrow> pk \<Rightarrow> string option \<Rightarrow> lifecycle" where
  "run e d a initiator run_mode_override =
     check d (run_checks d a run_mode_override) (\<lambda>(run_mode, events_total).
       let a1 = reset_loss_progress (a\<lparr>an_status := RUN_QUEUED\<rparr>);
           d1 = save_analysis d a1 in
       check d1 (run_dispatch e d1 a1 initiator run_mode events_total) (\<lambda>(a2, effs, i).
         record_dispatch e d1 a2 run_task_id i effs))"

definition status_error :: "analysis \<Rightarrow> errors" where
  "status_error a =
     add_error (an_status a \<notin> set INPUTS_GENERATION_VALID_STATUSES) ''status''
       [''Analysis status must be one of ['' @
        comma_join (map status_name INPUTS_GENERATION_VALID_STATUSES) @ '']''] []"

definition generate_inputs_checks ::
  "db \<Rightarrow> analysis \<Rightarrow> string option \<Rightarrow> (string \<times> int option) result" where
  "generate_inputs_checks d a run_mode_override =
     rbind (validate_standard_analysis a) (\<lambda>_.
     rbind (self_model d a) (\<lambda>m.
     rbind (resolve_run_mode m run_mode_override) (\<lambda>run_mode.
       let e1 = status_error a;
           e2 = add_error (mo_deleted m) ''model'' [deleted_msg m] e1 in
       rbind (validate_input_generation d a run_mode e2) (\<lambda>(loc_lines, errors).
         if errors \<noteq> [] then Inl (ValidationError errors) else Inr (run_mode, loc_lines)))))"

definition generate_inputs_dispatch ::
  "lifecycle_env \<Rightarrow> db \<Rightarrow> analysis \<Rightarrow> pk \<Rightarrow> string \<Rightarrow> int option \<Rightarrow> (analysis \<times> effect list \<times> string) result" where
  "generate_inputs_dispatch e d a initiator run_mode loc_lines =
     (if run_mode = ''V1''
      then rbind (v1_generate_input_signature (le_storage e) d a) (\<lambda>t.
             dispatch_v1 e d a t initiator ''record_generate_input_result'' ''record_generate_input_failure'')
      else Inr (dispatch_v2 e a (v2_generate_input_signature e) initiator
             [arg_int loc_lines] input_generation_traceback_file INPUTS_GENERATION_ERROR))"

definition generate_inputs ::
  "lifecycle_env \<Rightarrow> db \<Rightarrow> analysis \<Rightarrow> pk \<Rightarrow> string option \<Rightarrow> lifecycle" where
  "generate_inputs e d a initiator run_mode_override =
     check d (generate_inputs_checks d a run_mode_override) (\<lambda>(run_mode, loc_lines).
       let a1 = reset_input_generation a; d1 = save_analysis d a1 in
       check d1 (generate_inputs_dispatch e d1 a1 initiator run_mode loc_lines) (\<lambda>(a2, effs, i).
         record_dispatch e d1 a2 generate_inputs_task_id i effs))"

definition generate_and_run_checks :: "db \<Rightarrow> analysis \<Rightarrow> (int option \<times> json) result" where
  "generate_and_run_checks d a =
     rbind (validate_standard_analysis a) (\<lambda>_.
     rbind (self_model d a) (\<lambda>m.
       let e1 = status_error a;
           e2 = add_error (mo_deleted m) ''model'' [deleted_msg m] e1;
           e3 = add_error (mo_run_mode m \<noteq> Some ''V2'') ''model''
                  [''Model pk \"'' @ str_nat (mo_id m) @
                   ''\" - Unsupported Operation, \"run_mode\" must be \"V2\", not \"'' @
                   (case mo_run_mode m of None \<Rightarrow> ''None'' | Some r \<Rightarrow> r) @ ''\"''] e2;
           e4 = add_error (an_settings_file a = None) ''settings_file'' [''Must not be null''] e3 in
       rbind (validate_input_generation d a ''V2'' e4) (\<lambda>(loc_lines, e5).
       rbind (validate_loss_generation d a ''V2'' e5) (\<lambda>errors.
         if errors \<noteq> [] then Inl (ValidationError errors)
         else rbind (get_num_events d a) (\<lambda>events_total. Inr (loc_lines, events_total))))))"

definition generate_and_run :: "lifecycle_env \<Rightarrow> db \<Rightarrow> analysis \<Rightarrow> pk \<Rightarrow> lifecycle" where
  "generate_and_run e d a initiator =
     check d (generate_and_run_checks d a) (\<lambda>(loc_lines, events_total).
       let a1 = reset_loss_progress (reset_input_generation a);
           d1 = save_analysis d a1;
           (a2, effs, i) = dispatch_v2 e a1 (v2_start_input_and_loss_generation_signature e) initiator
             [arg_int loc_lines, json_arg events_total] input_generation_traceback_file
             INPUTS_GENERATION_ERROR
       in record_dispatch e d1 a2 generate_inputs_task_id i effs)"

section \<open>Cancelling\<close>

definition cancel_subtasks :: "lifecycle_env \<Rightarrow> analysis \<Rightarrow> effect list" where
  "cancel_subtasks e a =
     (if an_run_mode a = Some ''V2''
      then [Dispatch ((v2_cancel_subtasks_signature e)\<lparr>ct_args := [A_Int (int (an_id a))], ct_priority := Some 1\<rparr>)]
      else [])"

definition cancel_analysis :: "lifecycle_env \<Rightarrow> db \<Rightarrow> analysis \<Rightarrow> lifecycle" where
  "cancel_analysis e d a =
     (if an_status a \<notin> set [RUN_QUEUED, RUN_STARTED]
      then (d, Inl (ValidationError [(''status'', [''Analysis execution is not running or queued''])]))
      else
        (let a1 = a\<lparr>an_status := RUN_CANCELLED, an_run_mode := None, an_task_finished := Some (le_now e)\<rparr>
         in (save_analysis d a1, Inr (a1, [Revoke (an_run_task_id a)]))))"

definition cancel_generate_inputs :: "lifecycle_env \<Rightarrow> db \<Rightarrow> analysis \<Rightarrow> lifecycle" where
  "cancel_generate_inputs e d a =
     (if an_status a \<notin> set [INPUTS_GENERATION_QUEUED, INPUTS_GENERATION_STARTED]
      then (d, Inl (ValidationError [(''status'', [''Analysis input generation is not running or queued''])]))
      else
        (let a1 = a\<lparr>an_status := INPUTS_GENERATION_CANCELLED, an_run_mode := None, an_task_finished := Some (le_now e)\<rparr>
         in (save_analysis d a1, Inr (a1, [Revoke (an_generate_inputs_task_id a)]))))"

definition cancel_any :: "lifecycle_env \<Rightarrow> db \<Rightarrow> analysis \<Rightarrow> lifecycle" where
  "cancel_any e d a =
     (let INPUTS_GENERATION_STATES = [INPUTS_GENERATION_QUEUED, INPUTS_GENERATION_STARTED];
          RUN_ANALYSIS_STATES = [RUN_QUEUED, RUN_STARTED] in
      if an_status a \<notin> set (INPUTS_GENERATION_STATES @ RUN_ANALYSIS_STATES)
      then (d, Inl (ValidationError [(''status'', [''Analysis is not running or queued''])]))
      else
        (case (if an_status a \<in> set INPUTS_GENERATION_STATES then cancel_generate_inputs e d a
               else (d, Inr (a, []))) of
           (d1, Inl ex) \<Rightarrow> (d1, Inl ex)
         | (d1, Inr (a1, effs1)) \<Rightarrow>
             if an_status a1 \<in> set RUN_ANALYSIS_STATES
             then (case cancel_analysis e d1 a1 of
                     (d2, Inl ex) \<Rightarrow> (d2, Inl ex)
                   | (d2, Inr (a2, effs2)) \<Rightarrow> (d2, Inr (a2, effs1 @ effs2)))
             else (d1, Inr (a1, effs1))))"

section \<open>Copy, deletion, groups\<close>

definition copy_file :: "lifecycle_env \<Rightarrow> db \<Rightarrow> pk option \<Rightarrow> db \<times> pk option" where
  "copy_file e d obj =
     (case related d obj of
        None \<Rightarrow> (d, None)
      | Some f \<Rightarrow>
          let (d', i) = create_file d (blank_file\<lparr>
                rf_file := random_file_name (le_uuid e) False (rf_file f), rf_filename := rf_filename f,
                rf_content_type := rf_content_type f, rf_creator := rf_creator f,
                rf_content := rf_content f\<rparr>)
          in (d', Some i))"

text \<open>
  \<open>copy\<close> returns an unsaved object. The primary key it gets when the caller saves it is the
  next free one.
\<close>

definition copy :: "lifecycle_env \<Rightarrow> db \<Rightarrow> analysis \<Rightarrow> db \<times> analysis" where
  "copy e d a =
     (let (d', settings) = copy_file e d (an_settings_file a) in
      (d', a\<lparr>an_id := db_next_analysis d, an_name := take 248 (an_name a) @ '' - Copy'',
        an_run_task_id := [], an_generate_inputs_task_id := [], an_status := NEW,
        an_settings_file := settings, an_input_file := None, an_input_generation_traceback_file := None,
        an_output_file := None, an_run_traceback_file := None, an_run_log_file := None,
        an_lookup_errors_file := None, an_lookup_success_file := None,
        an_lookup_validation_file := None, an_summary_levels_file := None\<rparr>))"

definition insert_analysis :: "db \<Rightarrow> analysis \<Rightarrow> db" where
  "insert_analysis d a =
     d\<lparr>db_analyses := db_analyses d @ [a], db_next_analysis := Suc (db_next_analysis d)\<rparr>"

definition delete_connected_files :: "db \<Rightarrow> analysis \<Rightarrow> db" where
  "delete_connected_files d instance =
     fold (\<lambda>ref e. case get_field ref instance of None \<Rightarrow> e | Some i \<Rightarrow> delete_file e i)
       [settings_file, input_file, input_generation_traceback_file, output_file, run_traceback_file,
        run_log_file, lookup_errors_file, lookup_success_file, lookup_validation_file, summary_levels_file] d"

definition delete_connected_task_logs :: "db \<Rightarrow> subtask \<Rightarrow> db" where
  "delete_connected_task_logs d instance =
     fold (\<lambda>ref e. case ref instance of None \<Rightarrow> e | Some i \<Rightarrow> delete_file e i)
       [st_output_log, st_error_log, st_retry_log] d"

text \<open>
  Deleting an analysis removes its sub-task rows and the row; the receivers then delete the
  files both kinds of rows pointed to.
\<close>

definition delete_analysis :: "db \<Rightarrow> analysis \<Rightarrow> db" where
  "delete_analysis d a =
     (let subs = filter (\<lambda>s. st_analysis s = an_id a) (db_subtasks d);
          d1 = d\<lparr>db_subtasks := filter (\<lambda>s. st_analysis s \<noteq> an_id a) (db_subtasks d),
                 db_analyses := filter (\<lambda>b. an_id b \<noteq> an_id a) (db_analyses d)\<rparr> in
      delete_connected_files (fold (\<lambda>s e. delete_connected_task_logs e s) subs d1) a)"

definition get_groups :: "db \<Rightarrow> (pk \<Rightarrow> string) \<Rightarrow> analysis \<Rightarrow> string list" where
  "get_groups d group_name a =
     (case get_portfolio d (an_portfolio a) of None \<Rightarrow> [] | Some p \<Rightarrow> map group_name (po_groups p))"

text \<open>
  \<open>_update_ns\<close>: the version is split at the first dash; a version without a dash cannot be
  unpacked.
\<close>

definition update_ns :: "string \<Rightarrow> string option \<Rightarrow> string option result" where
  "update_ns view request =
     (case request of
        None \<Rightarrow> Inr None
      | Some version \<Rightarrow>
          (let ns_ver = takeWhile (\<lambda>c. c \<noteq> CHR ''-'') version in
           if length ns_ver = length version then Inl (ValueError ''not enough values to unpack'')
           else
             (let ns_view = drop (Suc (length ns_ver)) version in
              if ns_view \<noteq> view then Inr (Some (ns_ver @ ''-'' @ view)) else Inr (Some version))))"

section \<open>Combining analyses\<close>

definition append_error :: "string \<Rightarrow> string \<Rightarrow> errors \<Rightarrow> errors" where
  "append_error key msg errors =
     AList.update key ((case map_of errors key of None \<Rightarrow> [] | Some ms \<Rightarrow> ms) @ [msg]) errors"

fun combine_files ::
  "storage \<Rightarrow> db \<Rightarrow> analysis list \<Rightarrow> errors \<Rightarrow> (string option list \<times> string option list \<times> errors)" where
  "combine_files sg d [] errors = ([], [], errors)"
| "combine_files sg d (a # as) errors =
     (let inp = file_storage_link sg (related d (an_input_file a)) False;
          out = file_storage_link sg (related d (an_output_file a)) False;
          e1 = (if inp = None then append_error ''input_file''
                  (''Analysis ID '' @ str_nat (an_id a) @ '' does not have an input file'') errors else errors);
          e2 = (if out = None then append_error ''output_file''
                  (''Analysis ID '' @ str_nat (an_id a) @ '' does not have an output_file'') e1 else e1);
          (inps, outs, e3) = combine_files sg d as e2
      in (inp # inps, out # outs, e3))"

definition blank_portfolio :: portfolio where
  "blank_portfolio =
     \<lparr>po_id = 0, po_name = [], po_creator = 0, po_groups = [], po_accounts_file = None,
      po_location_file = None, po_reinsurance_info_file = None, po_reinsurance_scope_file = None,
      po_exposure_run_file = None, po_transform_file = None, po_mapping_file = None,
      po_run_errors_file = None, po_currency_conversion_json = None, po_reporting_currency = [],
      po_exposure_status = PS_NONE, po_validation_status = PS_NONE, po_exposure_transform_status = PS_NONE\<rparr>"

definition blank_analysis :: analysis where
  "blank_analysis =
     \<lparr>an_id = 0, an_creator = 0, an_portfolio = 0, an_model = None, an_name = [], an_status = NEW,
      an_run_mode = None, an_task_started = None, an_task_finished = None, an_run_task_id = [],
      an_generate_inputs_task_id = [], an_complex_model_data_files = [], an_settings_file = None,
      an_input_file = None, an_input_generation_traceback_file = None, an_output_file = None,
      an_run_traceback_file = None, an_run_log_file = None, an_analysis_chunks = None,
      an_lookup_chunks = None, an_priority = 4, an_lookup_errors_file = None,
      an_lookup_success_file = None, an_lookup_validation_file = None, an_summary_levels_file = None,
      an_chunking_options = None, an_num_events_total = 0, an_num_events_complete = 0\<rparr>"

definition run_combine ::
  "lifecycle_env \<Rightarrow> db \<Rightarrow> analysis list \<Rightarrow> pk \<Rightarrow> string \<Rightarrow> string \<Rightarrow> lifecycle" where
  "run_combine e d selected_analyses user name config =
     (let valid_analyses = filter (\<lambda>a. an_status a \<in> set [RUN_COMPLETED]) selected_analyses;
          e1 = (if length valid_analyses \<noteq> length selected_analyses
                then append_error ''status'' ''Analyses status must be [RUN_COMPLETED]'' [] else []);
          (inps, outs, errors) = combine_files (le_storage e) d valid_analyses e1 in
      if errors \<noteq> [] then (d, Inl (ValidationError errors))
      else
        (let p = blank_portfolio\<lparr>po_id := db_next_portfolio d, po_name := name @ ''-dummy-portfolio'', po_creator := user\<rparr>;
             d1 = d\<lparr>db_portfolios := db_portfolios d @ [p], db_next_portfolio := Suc (db_next_portfolio d)\<rparr>;
             a = blank_analysis\<lparr>an_id := db_next_analysis d, an_creator := user, an_name := name, an_portfolio := po_id p\<rparr>;
             d2 = insert_analysis d1 a;
             t = (task ''run_combine'' [A_Links inps, A_Links outs, A_Str config] ''oasis-internal-worker'')\<lparr>
                    ct_priority := Some 10, ct_link := Some (''record_combine_output'', an_id a, user)\<rparr>;
             a' = a\<lparr>an_status := RUN_STARTED, an_run_task_id := le_task_id e, an_task_started := Some (le_now e),
                    an_task_finished := None\<rparr>
         in (save_analysis d2 a', Inr (a', [Dispatch t]))))"

section \<open>Request handlers\<close>

text \<open>
  The actions of \<open>AnalysisViewSet\<close> (\<open>analyses/v2_api/viewsets.py\<close>). The object is the one the
  group filter let through; \<open>grp\<close> resolves group keys. The messages sent before an exception is
  raised are part of the outcome.
\<close>

definition verify_model_scaling :: "analysis_model \<Rightarrow> unit result" where
  "verify_model_scaling m =
     (if str_truthy (mo_run_mode m) \<and> lower (the (mo_run_mode m)) = ''v1'' \<and> mo_scaling_options m \<noteq> None \<and>
         so_scaling_strategy (the (mo_scaling_options m)) \<notin> set [''QUEUE_LOAD'', ''FIXED_WORKERS'']
      then Inl (ValidationError [(''non_field_errors'', [''Model has invalid scaling setting''])])
      else Inr ())"

definition verify_model_groups ::
  "(pk \<Rightarrow> group) \<Rightarrow> user \<Rightarrow> db \<Rightarrow> analysis \<Rightarrow> string \<Rightarrow> analysis_model result" where
  "verify_model_groups grp u d a msg =
     rbind (self_model d a) (\<lambda>m.
     rbind (verify_user_is_in_obj_groups u (Some (map grp (mo_groups m))) msg) (\<lambda>_. Inr m))"

definition start_analysis_task ::
  "(pk \<Rightarrow> group) \<Rightarrow> user \<Rightarrow> db \<Rightarrow> analysis \<Rightarrow> (db \<Rightarrow> analysis \<Rightarrow> pk \<Rightarrow> lifecycle) \<Rightarrow> lifecycle" where
  "start_analysis_task grp u d obj start_method =
     check d (validate_standard_analysis obj) (\<lambda>_.
     check d (verify_model_groups grp u d obj ''You are not allowed to run this model'') (\<lambda>m.
     check d (verify_model_scaling m) (\<lambda>_. start_method d obj (u_id u))))"

definition view_run ::
  "lifecycle_env \<Rightarrow> (pk \<Rightarrow> group) \<Rightarrow> user \<Rightarrow> db \<Rightarrow> analysis \<Rightarrow> string option \<Rightarrow> lifecycle" where
  "view_run e grp u d obj override = start_analysis_task grp u d obj (\<lambda>d a i. run e d a i override)"

definition view_generate_inputs ::
  "lifecycle_env \<Rightarrow> (pk \<Rightarrow> group) \<Rightarrow> user \<Rightarrow> db \<Rightarrow> analysis \<Rightarrow> string option \<Rightarrow> lifecycle" where
  "view_generate_inputs e grp u d obj override =
     start_analysis_task grp u d obj (\<lambda>d a i. generate_inputs e d a i override)"

definition view_generate_and_run ::
  "lifecycle_env \<Rightarrow> (pk \<Rightarrow> group) \<Rightarrow> user \<Rightarrow> db \<Rightarrow> analysis \<Rightarrow> lifecycle" where
  "view_generate_and_run e grp u d obj = start_analysis_task grp u d obj (generate_and_run e)"

definition after_cancel_subtasks ::
  "lifecycle_env \<Rightarrow> analysis \<Rightarrow> lifecycle \<Rightarrow> effect list \<times> db \<times> analysis result" where
  "after_cancel_subtasks e a r =
     (case r of
        (d', Inl ex) \<Rightarrow> (cancel_subtasks e a, d', Inl ex)
      | (d', Inr (a', effs)) \<Rightarrow> (cancel_subtasks e a @ effs, d', Inr a'))"

definition view_cancel ::
  "lifecycle_env \<Rightarrow> (pk \<Rightarrow> group) \<Rightarrow> user \<Rightarrow> db \<Rightarrow> analysis \<Rightarrow> effect list \<times> db \<times> analysis result" where
  "view_cancel e grp u d obj =
     (case (if an_model obj \<noteq> None
            then rbind (verify_model_groups grp u d obj ''You are not allowed to cancel this model'') (\<lambda>_. Inr ())
            else Inr ()) of
        Inl ex \<Rightarrow> ([], d, Inl ex)
      | Inr _ \<Rightarrow> after_cancel_subtasks e obj (cancel_any e d obj))"

definition cancel_checked ::
  "(pk \<Rightarrow> group) \<Rightarrow> user \<Rightarrow> db \<Rightarrow> analysis \<Rightarrow> unit result" where
  "cancel_checked grp u d obj =
     rbind (validate_standard_analysis obj) (\<lambda>_.
     rbind (verify_model_groups grp u d obj ''You are not allowed to cancel this model'') (\<lambda>_. Inr ()))"

definition view_cancel_analysis_run ::
  "lifecycle_env \<Rightarrow> (pk \<Rightarrow> group) \<Rightarrow> user \<Rightarrow> db \<Rightarrow> analysis \<Rightarrow> effect list \<times> db \<times> analysis result" where
  "view_cancel_analysis_run e grp u d obj =
     (case cancel_checked grp u d obj of
        Inl ex \<Rightarrow> ([], d, Inl ex)
      | Inr _ \<Rightarrow> after_cancel_subtasks e obj (cancel_analysis e d obj))"

definition view_cancel_generate_inputs ::
  "lifecycle_env \<Rightarrow> (pk \<Rightarrow> group) \<Rightarrow> user \<Rightarrow> db \<Rightarrow> analysis \<Rightarrow> effect list \<times> db \<times> analysis result" where
  "view_cancel_generate_inputs e grp u d obj =
     (case cancel_checked grp u d obj of
        Inl ex \<Rightarrow> ([], d, Inl ex)
      | Inr _ \<Rightarrow> after_cancel_subtasks e obj (cancel_generate_inputs e d obj))"

section \<open>Lemmas\<close>

lemmas status_lists [status_simps] = RUN_VALID_STATUSES_def INPUTS_GENERATION_VALID_STATUSES_def

lemma update_neq_Nil [simp]: "AList.update k v xs \<noteq> []"
  by (cases xs) (auto split: if_splits)

lemma add_error_eq_Nil [simp]: "add_error b k ms es = [] \<longleftrightarrow> \<not> b \<and> es = []"
  by (simp add: add_error_def)

lemma resolve_run_mode_ok:
  "resolve_run_mode m ov = Inr r \<Longrightarrow> r \<in> {''V1'', ''V2''} \<and> (str_truthy ov \<longrightarrow> ov = Some r) \<and>
     (\<not> str_truthy ov \<longrightarrow> mo_run_mode m = Some r)"
  by (auto simp: resolve_run_mode_def Let_def split: if_splits)

lemma event_set_errors_Nil:
  "event_set_errors sel opts matched es = Inr [] \<Longrightarrow>
     es = [] \<and> truthy sel \<and> truthy opts \<and>
     (\<exists>m ms n. matched = m # ms \<and> json_get m ''number_of_events'' JNull = Inr n \<and> truthy n)"
  by (cases matched) (auto simp: event_set_errors_def Let_def exn_simps split: if_splits)

lemma validate_loss_keeps_errors:
  "validate_loss_generation d a rm es = Inr [] \<Longrightarrow> es = []"
  by (auto simp: validate_loss_generation_def exn_simps split: if_splits dest!: event_set_errors_Nil)

lemma validate_v2_location_file_keeps_errors:
  assumes "validate_v2_location_file d a es = Inr (l, [])"
  shows "es = []"
proof -
  obtain c p where c: "get_chunking_options d a = Inr c" and p: "self_portfolio d a = Inr p"
    using assms by (auto simp: validate_v2_location_file_def exn_simps)
  show ?thesis
  proof (cases "related_file_row_count (related d (po_location_file p))")
    case (Inr v)
    with assms c p show ?thesis
      by (cases v) (auto simp: validate_v2_location_file_def split: if_splits)
  qed (use assms c p in \<open>auto simp: validate_v2_location_file_def split: if_splits\<close>)
qed

lemma validate_input_keeps_errors:
  "validate_input_generation d a rm es = Inr (l, []) \<Longrightarrow> es = []"
  by (auto simp: validate_input_generation_def exn_simps split: if_splits
      dest: validate_v2_location_file_keeps_errors)

lemma validate_standard_ok [simp]: "validate_standard_analysis a = Inr x \<longleftrightarrow> an_model a \<noteq> None"
  by (simp add: validate_standard_analysis_def)

lemma reset_frame [simp]:
  "an_id (reset_loss_progress a) = an_id a" "an_id (reset_input_generation a) = an_id a"
  "an_status (reset_loss_progress a) = an_status a"
  "an_status (reset_input_generation a) = INPUTS_GENERATION_QUEUED"
  "an_settings_file (reset_loss_progress a) = an_settings_file a"
  "an_settings_file (reset_input_generation a) = an_settings_file a"
  "an_num_events_total (reset_loss_progress a) = 0" "an_num_events_complete (reset_loss_progress a) = 0"
  by (simp_all add: reset_loss_progress_def reset_input_generation_def)

lemma save_save_analysis:
  "an_id a = an_id b \<Longrightarrow> save_analysis (save_analysis d a) b = save_analysis d b"
  by (simp add: save_analysis_def)

lemma dispatch_v1_ok:
  "dispatch_v1 e d a t u ok err = Inr (a', effs, i) \<Longrightarrow>
     a' = a\<lparr>an_run_mode := Some ''V1''\<rparr> \<and> i = le_task_id e \<and> (\<exists>t'. effs = [Dispatch t'] \<and> ct_name t' = ct_name t)"
  by (auto simp: dispatch_v1_def exn_simps)

lemma get_field_frame [simp]:
  "get_field f (a\<lparr>an_status := v1\<rparr>) = get_field f a"
  "get_field f (a\<lparr>an_run_mode := v2\<rparr>) = get_field f a"
  "get_field f (a\<lparr>an_task_started := v3\<rparr>) = get_field f a"
  "get_field f (a\<lparr>an_task_finished := v3\<rparr>) = get_field f a"
  "get_field f (a\<lparr>an_run_task_id := v4\<rparr>) = get_field f a"
  "get_field f (a\<lparr>an_generate_inputs_task_id := v4\<rparr>) = get_field f a"
  "get_field f (reset_loss_progress a) = get_field f a"
  by (cases f; simp add: reset_loss_progress_def)+

lemma record_dispatch_eq:
  "record_dispatch e d a fld i effs = (d', Inr (a', effs')) \<Longrightarrow>
     effs' = effs @ [SendDigest] \<and> d' = save_analysis d a' \<and> an_id a' = an_id a \<and>
     an_status a' = an_status a \<and> an_run_mode a' = an_run_mode a \<and>
     an_num_events_total a' = an_num_events_total a \<and> an_num_events_complete a' = an_num_events_complete a \<and>
     (\<forall>f. get_field f a' = get_field f a) \<and> an_task_started a' = Some (le_now e) \<and> an_task_finished a' = None \<and>
     (fld = run_task_id \<longrightarrow> an_run_task_id a' = i) \<and>
     (fld = generate_inputs_task_id \<longrightarrow> an_generate_inputs_task_id a' = i)"
  by (auto simp: record_dispatch_def Let_def split: task_id_field.splits)

text \<open>What a successful start has checked and done.\<close>

lemma run_checks_ok:
  assumes "run_checks d a ov = Inr (r, ev)"
  shows "an_status a \<in> set RUN_VALID_STATUSES \<and> an_settings_file a \<noteq> None \<and> an_input_file a \<noteq> None \<and>
    (\<exists>m. self_model d a = Inr m \<and> \<not> mo_deleted m \<and> resolve_run_mode m ov = Inr r) \<and>
    r \<in> {''V1'', ''V2''} \<and> (r = ''V2'' \<longrightarrow> get_num_events d a = Inr ev)"
  using assms
  by (auto simp: run_checks_def exn_simps Let_def split: if_splits
      dest: validate_loss_keeps_errors resolve_run_mode_ok)

lemma run_dispatch_ok:
  "run_dispatch e d a u r ev = Inr (a', effs, i) \<Longrightarrow> r \<in> {''V1'', ''V2''} \<Longrightarrow>
   a' = a\<lparr>an_run_mode := Some r\<rparr> \<and> i = le_task_id e \<and> (\<exists>t. effs = [Dispatch t])"
  by (auto simp: run_dispatch_def dispatch_v2_def exn_simps split: if_splits dest!: dispatch_v1_ok)

lemma run_ok:
  assumes "run e d a u ov = (d', Inr (a', effs))"
  shows "\<exists>r ev. run_checks d a ov = Inr (r, ev) \<and> an_run_mode a' = Some r \<and>
    an_status a' = RUN_QUEUED \<and> an_id a' = an_id a \<and> an_run_task_id a' = le_task_id e \<and>
    an_num_events_total a' = 0 \<and> an_num_events_complete a' = 0 \<and> (\<forall>f. get_field f a' = get_field f a) \<and>
    d' = save_analysis d a' \<and> (\<exists>t. effs = [Dispatch t, SendDigest])"
proof -
  define a1 where "a1 = reset_loss_progress (a\<lparr>an_status := RUN_QUEUED\<rparr>)"
  obtain r ev a2 effs1 i where c: "run_checks d a ov = Inr (r, ev)"
    and disp: "run_dispatch e (save_analysis d a1) a1 u r ev = Inr (a2, effs1, i)"
    and rec: "record_dispatch e (save_analysis d a1) a2 run_task_id i effs1 = (d', Inr (a', effs))"
    using assms by (auto simp: run_def exn_simps Let_def a1_def)
  have "a2 = a1\<lparr>an_run_mode := Some r\<rparr> \<and> i = le_task_id e \<and> (\<exists>t. effs1 = [Dispatch t])"
    using run_dispatch_ok [OF disp] run_checks_ok [OF c] by blast
  then show ?thesis
    using c record_dispatch_eq [OF rec] by (auto simp: save_save_analysis a1_def)
qed

lemma generate_inputs_checks_ok:
  assumes "generate_inputs_checks d a ov = Inr (r, ll)"
  shows "an_status a \<in> set INPUTS_GENERATION_VALID_STATUSES \<and>
    (\<exists>m. self_model d a = Inr m \<and> \<not> mo_deleted m \<and> resolve_run_mode m ov = Inr r) \<and> r \<in> {''V1'', ''V2''}"
  using assms
  by (auto simp: generate_inputs_checks_def exn_simps Let_def status_error_def split: if_splits
      dest!: validate_input_keeps_errors dest: resolve_run_mode_ok)

lemma generate_inputs_dispatch_ok:
  "generate_inputs_dispatch e d a u r ll = Inr (a', effs, i) \<Longrightarrow> r \<in> {''V1'', ''V2''} \<Longrightarrow>
   a' = a\<lparr>an_run_mode := Some r\<rparr> \<and> i = le_task_id e \<and> (\<exists>t. effs = [Dispatch t])"
  by (auto simp: generate_inputs_dispatch_def dispatch_v2_def exn_simps split: if_splits dest!: dispatch_v1_ok)

definition generated_fields :: "analysis_field list" where
  "generated_fields = [input_file, input_generation_traceback_file, lookup_errors_file,
     lookup_success_file, lookup_validation_file, summary_levels_file]"

lemma reset_input_fields:
  "get_field f (reset_input_generation a) = (if f \<in> set generated_fields then None else get_field f a)"
  by (cases f) (simp_all add: reset_input_generation_def generated_fields_def)

lemma generate_inputs_ok:
  assumes "generate_inputs e d a u ov = (d', Inr (a', effs))"
  shows "\<exists>r ll. generate_inputs_checks d a ov = Inr (r, ll) \<and> an_run_mode a' = Some r \<and>
    an_status a' = INPUTS_GENERATION_QUEUED \<and> an_id a' = an_id a \<and> an_generate_inputs_task_id a' = le_task_id e \<and>
    (\<forall>f. get_field f a' = (if f \<in> set generated_fields then None else get_field f a)) \<and>
    d' = save_analysis d a' \<and> (\<exists>t. effs = [Dispatch t, SendDigest])"
proof -
  define a1 where "a1 = reset_input_generation a"
  obtain r ll a2 effs1 i where c: "generate_inputs_checks d a ov = Inr (r, ll)"
    and disp: "generate_inputs_dispatch e (save_analysis d a1) a1 u r ll = Inr (a2, effs1, i)"
    and rec: "record_dispatch e (save_analysis d a1) a2 generate_inputs_task_id i effs1 = (d', Inr (a', effs))"
    using assms by (auto simp: generate_inputs_def exn_simps Let_def a1_def)
  have "a2 = a1\<lparr>an_run_mode := Some r\<rparr> \<and> i = le_task_id e \<and> (\<exists>t. effs1 = [Dispatch t])"
    using generate_inputs_dispatch_ok [OF disp] generate_inputs_checks_ok [OF c] by blast
  then show ?thesis
    using c record_dispatch_eq [OF rec] by (auto simp: save_save_analysis a1_def reset_input_fields)
qed

lemma generate_and_run_checks_ok:
  assumes "generate_and_run_checks d a = Inr (ll, ev)"
  shows "an_status a \<in> set INPUTS_GENERATION_VALID_STATUSES \<and> an_settings_file a \<noteq> None \<and>
    (\<exists>m. self_model d a = Inr m \<and> \<not> mo_deleted m \<and> mo_run_mode m = Some ''V2'') \<and> get_num_events d a = Inr ev"
  using assms
  by (auto simp: generate_and_run_checks_def exn_simps Let_def status_error_def split: if_splits
      dest!: validate_loss_keeps_errors validate_input_keeps_errors)

lemma generate_and_run_ok:
  assumes "generate_and_run e d a u = (d', Inr (a', effs))"
  shows "\<exists>ll ev. generate_and_run_checks d a = Inr (ll, ev) \<and> an_run_mode a' = Some ''V2'' \<and>
    an_status a' = INPUTS_GENERATION_QUEUED \<and> an_id a' = an_id a \<and> an_generate_inputs_task_id a' = le_task_id e \<and>
    an_num_events_total a' = 0 \<and> an_num_events_complete a' = 0 \<and>
    (\<forall>f. get_field f a' = (if f \<in> set generated_fields then None else get_field f a)) \<and>
    d' = save_analysis d a' \<and> (\<exists>t. effs = [Dispatch t, SendDigest])"
proof -
  define a1 where "a1 = reset_loss_progress (reset_input_generation a)"
  obtain ll ev effs1 where c: "generate_and_run_checks d a = Inr (ll, ev)" and t: "\<exists>t. effs1 = [Dispatch t]"
    and rec: "record_dispatch e (save_analysis d a1) (a1\<lparr>an_run_mode := Some ''V2''\<rparr>) generate_inputs_task_id
      (le_task_id e) effs1 = (d', Inr (a', effs))"
    using assms by (auto simp: generate_and_run_def exn_simps Let_def a1_def dispatch_v2_def)
  then show ?thesis
    using c record_dispatch_eq [OF rec] by (auto simp: save_save_analysis a1_def reset_input_fields)
qed

subsection \<open>The number of events\<close>

text \<open>An option of an event set as the model settings schema has it: an object with a plain identifier.\<close>

definition wf_option :: "json \<Rightarrow> bool" where
  "wf_option opt \<longleftrightarrow> (\<exists>kvs k. opt = JObj kvs \<and> map_of kvs ''id'' = Some k \<and> hashable k)"

lemma hashable_json_num [simp]: "hashable (json_num j) = hashable j"
  by (cases j) auto

lemma event_set_sizes_total:
  assumes "\<forall>opt \<in> set ol. wf_option opt"
  shows "\<exists>sizes. event_set_sizes ol acc = Inr sizes \<and>
    (\<forall>k. map_of acc k \<noteq> None \<longrightarrow> map_of sizes k \<noteq> None) \<and>
    (\<forall>kvs k. JObj kvs \<in> set ol \<and> map_of kvs ''id'' = Some k \<and> map_of kvs ''number_of_events'' \<noteq> None \<longrightarrow>
       map_of sizes (json_num k) \<noteq> None)"
  using assms
proof (induction ol arbitrary: acc)
  case (Cons opt ol)
  then obtain kvs k where opt: "opt = JObj kvs" "map_of kvs ''id'' = Some k" "hashable k"
    by (auto simp: wf_option_def)
  have IH: "\<And>acc. \<exists>sizes. event_set_sizes ol acc = Inr sizes \<and>
    (\<forall>k. map_of acc k \<noteq> None \<longrightarrow> map_of sizes k \<noteq> None) \<and>
    (\<forall>kvs k. JObj kvs \<in> set ol \<and> map_of kvs ''id'' = Some k \<and> map_of kvs ''number_of_events'' \<noteq> None \<longrightarrow>
       map_of sizes (json_num k) \<noteq> None)"
    using Cons by simp
  show ?case
  proof (cases "map_of kvs ''number_of_events''")
    case None
    with IH [of acc] opt show ?thesis by fastforce
  next
    case (Some n)
    obtain sizes where sz: "event_set_sizes ol (AList.update (json_num k) n acc) = Inr sizes"
      "\<forall>k'. map_of (AList.update (json_num k) n acc) k' \<noteq> None \<longrightarrow> map_of sizes k' \<noteq> None"
      "\<forall>kvs k. JObj kvs \<in> set ol \<and> map_of kvs ''id'' = Some k \<and> map_of kvs ''number_of_events'' \<noteq> None \<longrightarrow>
         map_of sizes (json_num k) \<noteq> None"
      using IH [of "AList.update (json_num k) n acc"] by blast
    have "event_set_sizes (opt # ol) acc = Inr sizes" using Some opt sz(1) by simp
    moreover have "map_of sizes (json_num k) \<noteq> None" "\<forall>k'. map_of acc k' \<noteq> None \<longrightarrow> map_of sizes k' \<noteq> None"
      using sz(2) by (auto simp del: not_None_eq)
    moreover have "map_of sizes (json_num k') \<noteq> None"
      if "JObj kvs' \<in> set (opt # ol)" "map_of kvs' ''id'' = Some k'" "map_of kvs' ''number_of_events'' \<noteq> None"
      for kvs' k'
      using that opt(1, 2) sz(3) calculation(2) by (cases "JObj kvs' = opt") (simp, metis set_ConsD)
    ultimately show ?thesis by blast
  qed
qed simp

lemma events_matched_mem:
  assumes "events_matched opts sel = Inr (m # ms)"
  shows "m \<in> set opts \<and> (\<exists>i. json_get m ''id'' JNull = Inr i \<and> py_eq i sel)"
proof -
  obtain ids where ids: "mapR (\<lambda>opt. json_get opt ''id'' JNull) opts = Inr ids"
    and f: "map fst (filter (\<lambda>(opt, i). py_eq i sel) (zip opts ids)) = m # ms"
    using assms by (auto simp: events_matched_def exn_simps)
  then have "m \<in> fst ` set (filter (\<lambda>(opt, i). py_eq i sel) (zip opts ids))"
    by (metis list.set_intros(1) list.set_map)
  then obtain i where "(m, i) \<in> set (zip opts ids)" "py_eq i sel" by auto
  with mapR_Inr_nth [OF ids] mapR_Inr_length [OF ids] show ?thesis
    by (auto simp: set_zip)
qed

lemma event_set_options_default:
  "event_set_options ms (JObj []) = Inr opts \<Longrightarrow> truthy opts \<Longrightarrow> event_set_options ms JNull = Inr opts"
  by (cases ms) (auto simp: event_set_options_def exn_simps split: option.splits elim!: json_get.elims)

text \<open>When the settings name no events, the checks of \<open>validate_loss_generation\<close> are enough.\<close>

lemma num_events_from_event_set:
  assumes opts: "event_set_options ms (JObj []) = Inr opts" "json_iter opts = Inr ol"
    and matched: "events_matched ol sel = Inr matched" "event_set_errors sel opts matched [] = Inr []"
    and wf: "\<forall>opt \<in> set ol. wf_option opt"
  shows "event_set_options ms JNull = Inr opts \<and>
    (\<exists>sizes n. event_set_sizes ol [] = Inr sizes \<and> hashable sel \<and> map_of sizes (json_num sel) = Some n)"
proof -
  obtain m mt n where m: "matched = m # mt" "json_get m ''number_of_events'' JNull = Inr n" "truthy n"
    and t: "truthy opts" using event_set_errors_Nil [OF matched(2)] by blast
  obtain i where i: "m \<in> set ol" "json_get m ''id'' JNull = Inr i" "py_eq i sel"
    using events_matched_mem matched(1) m(1) by blast
  obtain kvs k where kvs: "m = JObj kvs" "map_of kvs ''id'' = Some k" "hashable k"
    using wf i(1) by (auto simp: wf_option_def)
  have k: "i = k" "json_num k = json_num sel" "hashable sel"
    using i kvs by (auto simp: py_eq_def) (metis hashable_json_num)
  have "map_of kvs ''number_of_events'' \<noteq> None"
    using m kvs by (auto split: option.splits)
  with event_set_sizes_total [OF wf, of "[]"] i(1) kvs k
  have "\<exists>sizes n. event_set_sizes ol [] = Inr sizes \<and> map_of sizes (json_num sel) = Some n"
    by (metis not_None_eq)
  with k(3) event_set_options_default [OF opts(1) t] show ?thesis by blast
qed

subsection \<open>Deleting and copying\<close>

definition field_files :: "analysis \<Rightarrow> pk list" where
  "field_files a = List.map_filter (\<lambda>f. get_field f a) all_fields"

definition log_files :: "subtask \<Rightarrow> pk list" where
  "log_files st = List.map_filter (\<lambda>f. f st) [st_output_log, st_error_log, st_retry_log]"

lemma fold_delete_option:
  "fold (\<lambda>ref e. case g ref of None \<Rightarrow> e | Some i \<Rightarrow> delete_file e i) refs d =
   fold (\<lambda>i e. delete_file e i) (List.map_filter g refs) d"
  by (induction refs arbitrary: d) (auto simp: map_filter_simps split: option.splits)

lemma delete_connected_eq:
  "delete_connected_task_logs d st = fold (\<lambda>i e. delete_file e i) (log_files st) d"
  "delete_connected_files d a = fold (\<lambda>i e. delete_file e i) (field_files a) d"
  unfolding delete_connected_task_logs_def log_files_def delete_connected_files_def field_files_def
    all_fields_def
  by (rule fold_delete_option)+

lemma delete_analysis_fold:
  "delete_analysis d a =
     fold (\<lambda>i e. delete_file e i)
       (concat (map log_files (filter (\<lambda>s. st_analysis s = an_id a) (db_subtasks d))) @ field_files a)
       (d\<lparr>db_subtasks := filter (\<lambda>s. st_analysis s \<noteq> an_id a) (db_subtasks d),
          db_analyses := filter (\<lambda>b. an_id b \<noteq> an_id a) (db_analyses d)\<rparr>)"
proof -
  have logs: "fold (\<lambda>s e. delete_connected_task_logs e s) subs e0 =
      fold (\<lambda>i e. delete_file e i) (concat (map log_files subs)) e0" for subs e0
    by (induction subs arbitrary: e0) (simp_all add: delete_connected_eq)
  show ?thesis by (simp add: delete_analysis_def Let_def logs delete_connected_eq(2))
qed

lemma field_files_set: "set (field_files a) = {i. \<exists>f. get_field f a = Some i}"
proof -
  have "f \<in> set all_fields" for f by (cases f) (simp_all add: all_fields_def)
  then show ?thesis by (force simp: field_files_def map_filter_def)
qed

lemma copy_file_related:
  assumes "db_ok d" "copy_file e d i = (d', j)"
  shows "db_analyses d' = db_analyses d \<and>
    (case related d i of
       None \<Rightarrow> j = None \<and> d' = d
     | Some f \<Rightarrow> j = Some (db_next_file d) \<and> (\<exists>g. related d' j = Some g \<and> rf_content g = rf_content f))"
proof (cases "related d i")
  case (Some f)
  let ?g = "blank_file\<lparr>rf_file := random_file_name (le_uuid e) False (rf_file f), rf_filename := rf_filename f,
      rf_content_type := rf_content_type f, rf_creator := rf_creator f, rf_content := rf_content f\<rparr>"
  have "d' = fst (create_file d ?g)" "j = Some (snd (create_file d ?g))"
    using assms(2) Some by (simp_all add: copy_file_def Let_def split_beta)
  with Some get_create_file [OF assms(1), of ?g] show ?thesis
    by (simp add: related_def frame_simps) (simp add: create_file_def)
qed (use assms in \<open>simp add: copy_file_def\<close>)

section \<open>Properties\<close>

definition demo_env :: lifecycle_env where
  "demo_env = \<lparr>le_storage = \<lparr>sg_type = SHARED_FS, sg_aws_shared_bucket = False, sg_azure_shared_container = False,
      sg_location = [], sg_url = (\<lambda>s. s), sg_bucket = None, sg_container = None, sg_header = (\<lambda>_. []),
      sg_available = (\<lambda>s. s), sg_valid_path = (\<lambda>s. s), sg_copy_status = (\<lambda>_. ''success''),
      sg_object = (\<lambda>_. Opaque [])\<rparr>,
    le_now = 100, le_task_id = ''task-1'', le_controller_queue = ''celery-v2'', le_uuid = ''abc''\<rparr>"

definition demo_model :: analysis_model where
  "demo_model = \<lparr>mo_id = 1, mo_supplier_id = ''OasisLMF'', mo_model_id = ''PiWind'', mo_version_id = ''v1'',
     mo_resource_file = Some 4, mo_creator = 1, mo_groups = [], mo_data_files = [], mo_ver_ktools = None,
     mo_ver_oasislmf = None, mo_ver_platform = None, mo_ver_ods = None, mo_ver_oed = None,
     mo_oasislmf_config = [], mo_deleted = False, mo_run_mode = Some ''V2'', mo_scaling_options = None,
     mo_chunking_options = Some \<lparr>lookup_strategy = DYNAMIC_CHUNKS, loss_strategy = DYNAMIC_CHUNKS,
       dynamic_locations_per_lookup = 10000, dynamic_events_per_analysis = 1, dynamic_chunks_max = 200,
       fixed_analysis_chunks = Some 1, fixed_lookup_chunks = Some 1\<rparr>\<rparr>"

definition demo_settings :: json where
  "demo_settings = JObj [(''model_settings'', JObj [(''event_set'', JStr ''p'')])]"

definition demo_resource :: json where
  "demo_resource = JObj [(''model_settings'', JObj [(''event_set'', JObj [(''options'',
     JArr [JObj [(''id'', JStr ''p''), (''number_of_events'', JInt 1447)]])])])]"

definition lc_db :: db where
  "lc_db = demo_db\<lparr>db_files := [blank_file\<lparr>rf_id := 1, rf_content := JsonDoc demo_settings []\<rparr>,
       blank_file\<lparr>rf_id := 2\<rparr>, blank_file\<lparr>rf_id := 3\<rparr>,
       blank_file\<lparr>rf_id := 4, rf_content := JsonDoc demo_resource []\<rparr>,
       blank_file\<lparr>rf_id := 5, rf_content := CsvRows [[''id''], [''1''], [''2'']]\<rparr>],
     db_models := [demo_model],
     db_portfolios := [blank_portfolio\<lparr>po_id := 1, po_location_file := Some 5\<rparr>], db_next_file := 6\<rparr>"

text \<open>
  C1: Loss generation starts only for an analysis that is ready or has finished a run, with a
  model that is not deleted and with settings and inputs in place. A start sets the status to
  \<open>RUN_QUEUED\<close>, resets the event counters, keeps every file, records the run mode and the task
  identifier, saves exactly this row, and queues exactly one task followed by the digest.
\<close>

theorem run_accepted:
  assumes "run e d a u ov = (d', Inr (a', effs))"
  shows "an_status a \<in> {READY, RUN_COMPLETED, RUN_ERROR, RUN_CANCELLED} \<and>
    an_settings_file a \<noteq> None \<and> an_input_file a \<noteq> None \<and>
    (\<exists>m r. self_model d a = Inr m \<and> \<not> mo_deleted m \<and> r \<in> {''V1'', ''V2''} \<and>
       resolve_run_mode m ov = Inr r \<and> an_run_mode a' = Some r) \<and>
    an_status a' = RUN_QUEUED \<and> an_run_task_id a' = le_task_id e \<and>
    an_num_events_total a' = 0 \<and> an_num_events_complete a' = 0 \<and>
    (\<forall>f. get_field f a' = get_field f a) \<and>
    d' = save_analysis d a' \<and> (\<exists>t. effs = [Dispatch t, SendDigest])"
proof -
  obtain r ev where c: "run_checks d a ov = Inr (r, ev)"
    and rest: "an_run_mode a' = Some r" "an_status a' = RUN_QUEUED" "an_run_task_id a' = le_task_id e"
      "an_num_events_total a' = 0" "an_num_events_complete a' = 0" "\<forall>f. get_field f a' = get_field f a"
      "d' = save_analysis d a'" "\<exists>t. effs = [Dispatch t, SendDigest]"
    using run_ok [OF assms] by blast
  show ?thesis using run_checks_ok [OF c] rest by (simp add: status_simps)
qed

lemma demo_run_ok: "is_ok (snd (run demo_env lc_db demo_analysis 1 None))"
  by code_simp

lemma is_ok_obtain: "is_ok (snd r) \<Longrightarrow> \<exists>d' a' effs. r = (d', Inr (a', effs))"
  by (cases r) (auto simp: is_ok_def split: sum.splits)

theorem run_accepted_witness:
  "\<exists>d' a' effs. run demo_env lc_db demo_analysis 1 None = (d', Inr (a', effs)) \<and> an_status a' = RUN_QUEUED"
proof -
  obtain d' a' effs where r: "run demo_env lc_db demo_analysis 1 None = (d', Inr (a', effs))"
    using is_ok_obtain [OF demo_run_ok] by blast
  from run_accepted [OF r] r show ?thesis by blast
qed

text \<open>
  C34: A refused start leaves the database alone, except that in run mode V1 the row is already
  saved as \<open>RUN_QUEUED\<close> when building the task fails (a complex-model data file without content).
\<close>

theorem run_refused:
  assumes "run e d a u ov = (d', Inl ex)"
  shows "d' = d \<or> (\<exists>ev. run_checks d a ov = Inr (''V1'', ev) \<and>
    d' = save_analysis d (reset_loss_progress (a\<lparr>an_status := RUN_QUEUED\<rparr>)))"
proof (cases "run_checks d a ov")
  case (Inr p)
  obtain r ev where p: "p = (r, ev)" by fastforce
  define a1 where "a1 = reset_loss_progress (a\<lparr>an_status := RUN_QUEUED\<rparr>)"
  have run: "run e d a u ov = check (save_analysis d a1) (run_dispatch e (save_analysis d a1) a1 u r ev)
      (\<lambda>(a2, effs, i). record_dispatch e (save_analysis d a1) a2 run_task_id i effs)"
    using Inr p by (simp add: run_def Let_def a1_def)
  show ?thesis
  proof (cases "run_dispatch e (save_analysis d a1) a1 u r ev")
    case (Inl ex')
    then have "r = ''V1''" by (auto simp: run_dispatch_def split: if_splits)
    with run Inl Inr p assms show ?thesis by (auto simp: a1_def)
  next
    case (Inr q)
    with run assms show ?thesis by (cases q) (auto simp: record_dispatch_def Let_def)
  qed
qed (use assms in \<open>simp add: run_def\<close>)

theorem run_refused_witness:
  "fst (run demo_env lc_db (demo_analysis\<lparr>an_complex_model_data_files := [9]\<rparr>) 1 (Some ''V1'')) =
     save_analysis lc_db (reset_loss_progress (demo_analysis\<lparr>an_complex_model_data_files := [9], an_status := RUN_QUEUED\<rparr>))"
proof -
  let ?a = "demo_analysis\<lparr>an_complex_model_data_files := [9]\<rparr>"
  have "\<not> is_ok (snd (run demo_env lc_db ?a 1 (Some ''V1'')))" by code_simp
  then obtain ex where r: "run demo_env lc_db ?a 1 (Some ''V1'') = (fst (run demo_env lc_db ?a 1 (Some ''V1'')), Inl ex)"
    by (cases "run demo_env lc_db ?a 1 (Some ''V1'')") (auto simp: is_ok_def split: sum.splits)
  have "map an_status (db_analyses (fst (run demo_env lc_db ?a 1 (Some ''V1'')))) = [RUN_QUEUED]" by code_simp
  moreover have "map an_status (db_analyses lc_db) = [READY]" by code_simp
  ultimately have "fst (run demo_env lc_db ?a 1 (Some ''V1'')) \<noteq> lc_db" by fastforce
  with run_refused [OF r] show ?thesis by auto
qed

text \<open>
  C2: Input generation starts only from a status in which nothing is queued or running, with a
  model that is not deleted. It sets \<open>INPUTS_GENERATION_QUEUED\<close>, detaches the files of an earlier
  input generation and no other file, and queues exactly one task followed by the digest.
\<close>

theorem generate_inputs_accepted:
  assumes "generate_inputs e d a u ov = (d', Inr (a', effs))"
  shows "an_status a \<notin> {INPUTS_GENERATION_QUEUED, INPUTS_GENERATION_STARTED, RUN_QUEUED, RUN_STARTED} \<and>
    (\<exists>m r. self_model d a = Inr m \<and> \<not> mo_deleted m \<and> r \<in> {''V1'', ''V2''} \<and>
       resolve_run_mode m ov = Inr r \<and> an_run_mode a' = Some r) \<and>
    an_status a' = INPUTS_GENERATION_QUEUED \<and> an_generate_inputs_task_id a' = le_task_id e \<and>
    (\<forall>f. get_field f a' = (if f \<in> {input_file, input_generation_traceback_file, lookup_errors_file,
        lookup_success_file, lookup_validation_file, summary_levels_file} then None else get_field f a)) \<and>
    d' = save_analysis d a' \<and> (\<exists>t. effs = [Dispatch t, SendDigest])"
proof -
  obtain r ll where c: "generate_inputs_checks d a ov = Inr (r, ll)"
    and rest: "an_run_mode a' = Some r" "an_status a' = INPUTS_GENERATION_QUEUED"
      "an_generate_inputs_task_id a' = le_task_id e"
      "\<forall>f. get_field f a' = (if f \<in> set generated_fields then None else get_field f a)"
      "d' = save_analysis d a'" "\<exists>t. effs = [Dispatch t, SendDigest]"
    using generate_inputs_ok [OF assms] by blast
  have "an_status a \<notin> {INPUTS_GENERATION_QUEUED, INPUTS_GENERATION_STARTED, RUN_QUEUED, RUN_STARTED}"
    using generate_inputs_checks_ok [OF c] by (auto simp: status_simps)
  with generate_inputs_checks_ok [OF c] rest show ?thesis by (simp add: generated_fields_def)
qed

theorem generate_inputs_accepted_witness:
  "\<exists>d' a' effs. generate_inputs demo_env lc_db demo_analysis 1 None = (d', Inr (a', effs)) \<and>
     an_status a' = INPUTS_GENERATION_QUEUED \<and> an_input_file a' = None"
proof -
  have "is_ok (snd (generate_inputs demo_env lc_db demo_analysis 1 None))" by code_simp
  then obtain d' a' effs where r: "generate_inputs demo_env lc_db demo_analysis 1 None = (d', Inr (a', effs))"
    using is_ok_obtain by blast
  have "get_field input_file a' = None" using generate_inputs_accepted [OF r] by simp
  then have "an_input_file a' = None" by simp
  with generate_inputs_accepted [OF r] r show ?thesis by blast
qed

text \<open>
  For dynamic loss chunks, settings that pass \<open>validate_loss_generation\<close> have a size: the
  number of events exists whenever the settings select no event or more than one, the options of
  the model settings are objects with a plain identifier, and an event set can be read from the
  settings. (With exactly one selected event the check and the computation disagree.)
\<close>

theorem validated_settings_have_num_events:
  assumes v: "validate_loss_generation d a ''V2'' [] = Inr []"
    and c: "get_chunking_options d a = Inr c" "loss_strategy c = DYNAMIC_CHUNKS"
    and s: "related_json d (an_settings_file a) = Inr settings"
    and ids: "json_get settings ''event_ids'' (JArr []) = Inr (JArr ids)" "length ids \<noteq> 1"
    and sel: "is_ok (event_set_selected settings)"
    and wf: "\<And>m ms opts ol. \<lbrakk>self_model d a = Inr m; related_json d (mo_resource_file m) = Inr ms;
      event_set_options ms (JObj []) = Inr opts; json_iter opts = Inr ol\<rbrakk> \<Longrightarrow> \<forall>opt \<in> set ol. wf_option opt"
  shows "\<exists>n. get_num_events d a = Inr n"
proof -
  have sf: "an_settings_file a \<noteq> None" using s by (cases "an_settings_file a") (auto simp: related_json_def related_def)
  obtain m where m: "self_model d a = Inr m" and rf: "mo_resource_file m \<noteq> None"
    using v c by (auto simp: validate_loss_generation_def exn_simps split: if_splits)
  obtain ms where ms: "related_json d (mo_resource_file m) = Inr ms"
    using v c m rf sf by (auto simp: validate_loss_generation_def exn_simps)
  obtain sl where sl: "event_set_selected settings = Inr sl"
    using sel by (auto simp: is_ok_def split: sum.splits)
  show ?thesis
  proof (cases ids)
    case Nil
    obtain kvs where kvs: "settings = JObj kvs" using ids(1) by (cases settings) auto
    then have "\<exists>ev. json_get settings ''event_ids'' JNull = Inr ev \<and> \<not> truthy ev"
      using ids(1) Nil by (auto split: option.splits)
    then obtain opts ol matched where o: "event_set_options ms (JObj []) = Inr opts" "json_iter opts = Inr ol"
      "events_matched ol sl = Inr matched" "event_set_errors sl opts matched [] = Inr []"
      using v c m rf sf s ms sl by (auto simp: validate_loss_generation_def exn_simps)
    from num_events_from_event_set [OF o wf [OF m ms o(1, 2)]]
    obtain sizes n where "event_set_options ms JNull = Inr opts" "event_set_sizes ol [] = Inr sizes"
      "hashable sl" "map_of sizes (json_num sl) = Some n" by blast
    with c s m ms ids Nil sl o(2) show ?thesis by (simp add: get_num_events_def)
  next
    case (Cons x xs)
    with ids(2) have "int (length ids) > 1" by (cases xs) auto
    with c s m ms ids(1) sl show ?thesis by (simp add: get_num_events_def)
  qed
qed

theorem validated_settings_have_num_events_witness:
  "\<exists>n. get_num_events lc_db demo_analysis = Inr n"
proof (rule validated_settings_have_num_events)
  show "validate_loss_generation lc_db demo_analysis ''V2'' [] = Inr []" by code_simp
  show "get_chunking_options lc_db demo_analysis = Inr (the (mo_chunking_options demo_model))"
    by (simp add: get_chunking_options_def self_model_def get_model_def lc_db_def demo_analysis_def)
       (simp add: demo_model_def)
  show "loss_strategy (the (mo_chunking_options demo_model)) = DYNAMIC_CHUNKS" by (simp add: demo_model_def)
  show "related_json lc_db (an_settings_file demo_analysis) = Inr demo_settings" by code_simp
  show "json_get demo_settings ''event_ids'' (JArr []) = Inr (JArr [])" by code_simp
  show "is_ok (event_set_selected demo_settings)" by code_simp
  fix m ms opts ol
  assume m: "self_model lc_db demo_analysis = Inr m" and ms: "related_json lc_db (mo_resource_file m) = Inr ms"
    and o: "event_set_options ms (JObj []) = Inr opts" "json_iter opts = Inr ol"
  have "m = demo_model"
    using m by (simp add: self_model_def get_model_def lc_db_def demo_analysis_def demo_model_def)
  moreover have "related_json lc_db (mo_resource_file demo_model) = Inr demo_resource" by code_simp
  ultimately have "ol = [JObj [(''id'', JStr ''p''), (''number_of_events'', JInt 1447)]]"
    using ms o by (auto simp: event_set_options_def demo_resource_def)
  then show "\<forall>opt \<in> set ol. wf_option opt" by (simp add: wf_option_def)
qed simp

text \<open>
  Exactly one selected event defeats the checks: the settings below pass
  \<open>validate_loss_generation\<close>, since they name an event, but \<open>get_num_events\<close> ignores a single
  event and raises, so the start fails with an unhandled exception instead of a validation error.
\<close>

theorem single_event_not_validated:
  "validate_loss_generation
     (lc_db\<lparr>db_files := [blank_file\<lparr>rf_id := 1, rf_content := JsonDoc (JObj [(''event_ids'', JArr [JInt 7])]) []\<rparr>,
        blank_file\<lparr>rf_id := 4, rf_content := JsonDoc (JObj []) []\<rparr>]\<rparr>) demo_analysis ''V2'' [] = Inr [] \<and>
   get_num_events
     (lc_db\<lparr>db_files := [blank_file\<lparr>rf_id := 1, rf_content := JsonDoc (JObj [(''event_ids'', JArr [JInt 7])]) []\<rparr>,
        blank_file\<lparr>rf_id := 4, rf_content := JsonDoc (JObj []) []\<rparr>]\<rparr>) demo_analysis =
     Inl (AttributeError ''get'')"
  by code_simp

text \<open>
  C3: Cancelling follows the status: queued or started input generation is revoked by its own task
  identifier and becomes \<open>INPUTS_GENERATION_CANCELLED\<close>, a queued or started run is revoked by the
  run's identifier and becomes \<open>RUN_CANCELLED\<close>, and in any other status nothing is revoked or
  saved and the request is refused.
\<close>

theorem cancel_any_spec:
  "cancel_any e d a =
     (if an_status a \<in> {INPUTS_GENERATION_QUEUED, INPUTS_GENERATION_STARTED} then
        (save_analysis d (a\<lparr>an_status := INPUTS_GENERATION_CANCELLED, an_run_mode := None, an_task_finished := Some (le_now e)\<rparr>),
         Inr (a\<lparr>an_status := INPUTS_GENERATION_CANCELLED, an_run_mode := None, an_task_finished := Some (le_now e)\<rparr>,
              [Revoke (an_generate_inputs_task_id a)]))
      else if an_status a \<in> {RUN_QUEUED, RUN_STARTED} then
        (save_analysis d (a\<lparr>an_status := RUN_CANCELLED, an_run_mode := None, an_task_finished := Some (le_now e)\<rparr>),
         Inr (a\<lparr>an_status := RUN_CANCELLED, an_run_mode := None, an_task_finished := Some (le_now e)\<rparr>,
              [Revoke (an_run_task_id a)]))
      else (d, Inl (ValidationError [(''status'', [''Analysis is not running or queued''])])))"
  by (cases "an_status a") (simp_all add: cancel_any_def cancel_generate_inputs_def cancel_analysis_def Let_def)

text \<open>
  The cancel request asks for the sub-tasks to be cancelled before it looks at the status: for
  a finished distributed analysis the message is sent although the request itself is refused.
\<close>

theorem view_cancel_inactive:
  assumes "an_status a \<notin> {INPUTS_GENERATION_QUEUED, INPUTS_GENERATION_STARTED, RUN_QUEUED, RUN_STARTED}"
    and "an_run_mode a = Some ''V2''" "self_model d a = Inr m"
    and "validate_user_is_owner u (Some (map grp (mo_groups m)))"
  shows "view_cancel e grp u d a =
    ([Dispatch ((v2_cancel_subtasks_signature e)\<lparr>ct_args := [A_Int (int (an_id a))], ct_priority := Some 1\<rparr>)],
     d, Inl (ValidationError [(''status'', [''Analysis is not running or queued''])]))"
proof -
  have "cancel_any e d a = (d, Inl (ValidationError [(''status'', [''Analysis is not running or queued''])]))"
    using assms(1) by (cases "an_status a") (simp_all add: cancel_any_def Let_def)
  moreover have "an_model a \<noteq> None" using assms(3) by (cases "an_model a") (simp_all add: self_model_def)
  ultimately show ?thesis
    using assms by (simp add: view_cancel_def verify_model_groups_def verify_user_is_in_obj_groups_def
        after_cancel_subtasks_def cancel_subtasks_def)
qed

theorem view_cancel_inactive_witness:
  "view_cancel demo_env (\<lambda>_. \<lparr>g_id = 1, g_name = ''uw''\<rparr>) alice lc_db
     (demo_analysis\<lparr>an_status := RUN_COMPLETED, an_run_mode := Some ''V2''\<rparr>) =
    ([Dispatch ((v2_cancel_subtasks_signature demo_env)\<lparr>
        ct_args := [A_Int (int (an_id (demo_analysis\<lparr>an_status := RUN_COMPLETED, an_run_mode := Some ''V2''\<rparr>)))],
        ct_priority := Some 1\<rparr>)],
     lc_db, Inl (ValidationError [(''status'', [''Analysis is not running or queued''])]))"
  by (rule view_cancel_inactive [where m = demo_model])
     (simp_all add: self_model_def get_model_def lc_db_def demo_analysis_def demo_model_def
       validate_user_is_owner_def)

text \<open>
  A copy is a new analysis that shares no file with any stored one: it has status \<open>NEW\<close>, no
  result files, a name that fits the column, and its settings are a new file row with the
  content of the original's.
\<close>

theorem copy_shares_nothing:
  assumes "db_ok d" "\<forall>b \<in> set (db_analyses d). \<forall>i \<in> analysis_cascade_files b. i < db_next_file d"
    and "copy e d a = (d', c)"
  shows "an_status c = NEW \<and> an_id c = db_next_analysis d \<and> length (an_name c) \<le> 255 \<and>
    db_analyses d' = db_analyses d \<and>
    (\<forall>b \<in> set (db_analyses d'). analysis_cascade_files b \<inter> analysis_cascade_files c = {}) \<and>
    (\<forall>f. related d (an_settings_file a) = Some f \<longrightarrow>
       (\<exists>g. related d' (an_settings_file c) = Some g \<and> rf_content g = rf_content f))"
proof -
  obtain st where cf: "copy_file e d (an_settings_file a) = (d', st)"
    using assms(3) by (auto simp: copy_def split: prod.splits)
  have c: "an_settings_file c = st" "an_status c = NEW" "an_id c = db_next_analysis d"
    "an_name c = take 248 (an_name a) @ '' - Copy''" "analysis_cascade_files c = set_option st"
    using assms(3) cf by (auto simp: copy_def analysis_cascade_files_def)
  note rel = copy_file_related [OF assms(1) cf]
  have "set_option st \<subseteq> {db_next_file d}" using rel by (auto split: option.splits)
  then have "\<forall>b \<in> set (db_analyses d). analysis_cascade_files b \<inter> set_option st = {}"
    using assms(2) by fastforce
  then show ?thesis using rel c by (auto split: option.splits)
qed

theorem copy_shares_nothing_witness:
  "an_status (snd (copy demo_env lc_db demo_analysis)) = NEW \<and>
   (\<exists>g. related (fst (copy demo_env lc_db demo_analysis)) (an_settings_file (snd (copy demo_env lc_db demo_analysis))) = Some g \<and>
      rf_content g = JsonDoc demo_settings [])"
proof -
  have ok: "db_ok lc_db" by (simp add: db_ok_def lc_db_def demo_db_def blank_file_def)
  have refs: "\<forall>b \<in> set (db_analyses lc_db). \<forall>i \<in> analysis_cascade_files b. i < db_next_file lc_db"
    by (simp add: lc_db_def demo_db_def analysis_cascade_files_def demo_analysis_def)
  have "related lc_db (an_settings_file demo_analysis) = Some (blank_file\<lparr>rf_id := 1, rf_content := JsonDoc demo_settings []\<rparr>)"
    by (simp add: related_def get_file_def lc_db_def demo_analysis_def blank_file_def)
  with copy_shares_nothing [OF ok refs prod.collapse [symmetric], of demo_env demo_analysis]
  show ?thesis by fastforce
qed

text \<open>
  Deleting an analysis whose files no other row shares removes that analysis, its sub-tasks and
  their files, and nothing else: the other analyses and sub-tasks, the portfolios and the models
  stay, so no cascade reaches them.
\<close>

theorem delete_analysis_is_local:
  assumes files: "\<forall>i \<in> set (field_files a). \<forall>b \<in> set (db_analyses d). an_id b \<noteq> an_id a \<longrightarrow> i \<notin> analysis_cascade_files b"
    and logs: "\<forall>s \<in> set (db_subtasks d). st_analysis s = an_id a \<longrightarrow>
      (\<forall>i \<in> set (log_files s). \<forall>b \<in> set (db_analyses d). i \<notin> analysis_cascade_files b)"
    and other: "\<forall>i. i \<in> set (field_files a) \<or> (\<exists>s \<in> set (db_subtasks d). st_analysis s = an_id a \<and> i \<in> set (log_files s)) \<longrightarrow>
      (\<forall>p \<in> set (db_portfolios d). i \<notin> portfolio_files p) \<and> (\<forall>m \<in> set (db_models d). mo_resource_file m \<noteq> Some i)"
  shows "map an_id (db_analyses (delete_analysis d a)) = filter (\<lambda>i. i \<noteq> an_id a) (map an_id (db_analyses d)) \<and>
    db_portfolios (delete_analysis d a) = db_portfolios d \<and> db_models (delete_analysis d a) = db_models d \<and>
    length (db_subtasks (delete_analysis d a)) = length (filter (\<lambda>s. st_analysis s \<noteq> an_id a) (db_subtasks d)) \<and>
    (\<forall>f. get_field f a \<noteq> None \<longrightarrow> the (get_field f a) \<notin> rf_id ` set (db_files (delete_analysis d a)))"
proof -
  define rem where "rem = concat (map log_files (filter (\<lambda>s. st_analysis s = an_id a) (db_subtasks d))) @ field_files a"
  define d1 where "d1 = d\<lparr>db_subtasks := filter (\<lambda>s. st_analysis s \<noteq> an_id a) (db_subtasks d),
    db_analyses := filter (\<lambda>b. an_id b \<noteq> an_id a) (db_analyses d)\<rparr>"
  have "\<forall>i \<in> set rem. file_unreferenced d1 i"
    using assms unfolding rem_def d1_def file_unreferenced_def by fastforce
  from delete_files_unreferenced [OF this]
  have del: "delete_analysis d a = d1\<lparr>db_files := filter (\<lambda>f. rf_id f \<notin> set rem) (db_files d1),
      db_analyses := map (fold analysis_set_null rem) (db_analyses d1),
      db_subtasks := map (fold subtask_set_null rem) (db_subtasks d1)\<rparr>"
    by (simp add: delete_analysis_fold rem_def d1_def)
  have "set (field_files a) \<subseteq> set rem" by (simp add: rem_def)
  then show ?thesis
    by (auto simp: del d1_def field_files_set filter_map comp_def)
qed

theorem delete_analysis_is_local_witness:
  "map an_id (db_analyses (delete_analysis lc_db demo_analysis)) = [] \<and>
   db_portfolios (delete_analysis lc_db demo_analysis) = db_portfolios lc_db"
proof -
  have ff: "field_files demo_analysis = [1, 2, 3]" by code_simp
  have rows: "db_analyses lc_db = [demo_analysis]" "db_subtasks lc_db = []"
    "db_portfolios lc_db = [blank_portfolio\<lparr>po_id := 1, po_location_file := Some 5\<rparr>]" "db_models lc_db = [demo_model]"
    by (simp_all add: lc_db_def demo_db_def)
  have "\<forall>i \<in> set (field_files demo_analysis). i \<notin> portfolio_files (blank_portfolio\<lparr>po_id := 1, po_location_file := Some 5\<rparr>) \<and>
      mo_resource_file demo_model \<noteq> Some i"
    by (simp add: ff portfolio_files_def blank_portfolio_def demo_model_def)
  with delete_analysis_is_local [of demo_analysis lc_db] show ?thesis by (simp add: rows)
qed

end
