(* ===== verification/Queue_Status.thy ===== *)
theory Queue_Status
  imports Autoscaler Analysis_Lifecycle
begin

text \<open>
  The queue status messages of the server (\<open>queues/utils.py\<close>, \<open>queues/consumers.py\<close>): the counts of
  every queue, the analyses that a message lists under a queue, the requests of the status socket,
  and the progress that workers report (socket and \<open>queues/views.py\<close>). The content of a message is
  that of the worker controller, which reads it.
\<close>

section \<open>Queues\<close>

record queue_info =
  qi_name :: string
  qi_pending_count :: int
  qi_queued_count :: int
  qi_running_count :: int
  qi_queue_message_count :: int
  qi_worker_count :: int

text \<open>
  The broker: its address, the names it reports, the name of the default queue, and
  \<open>queue_declare\<close> with the numbers of messages and consumers.
\<close>

record broker =
  br_url :: string
  br_names :: "string list result"
  br_default_queue :: string
  br_declare :: "string \<Rightarrow> (int \<times> int) result"

definition has_infix :: "string \<Rightarrow> string \<Rightarrow> bool" where
  "has_infix s t \<longleftrightarrow> list_ex (\<lambda>i. starts_with (drop i s) t) [0 ..< Suc (length s)]"

definition get_broker_queue_names :: "broker \<Rightarrow> string list result" where
  "get_broker_queue_names br =
     (if starts_with (br_url br) ''amqp://'' \<or> starts_with (br_url br) ''amqps://'' \<or> starts_with (br_url br) ''redis://''
      then rbind (br_names br) (\<lambda>qs. Inr (filter (\<lambda>q. \<not> has_infix q ''pidbox'' \<and> \<not> has_infix q ''celeryev'') qs))
      else if starts_with (br_url br) ''memory://'' then Inr [br_default_queue br]
      else Inl NotImplementedError)"

definition add_to_dict :: "(string, int) dict \<Rightarrow> string \<times> int \<Rightarrow> (string, int) dict" where
  "add_to_dict d kv = AList.update (fst kv) (case map_of d (fst kv) of None \<Rightarrow> snd kv | Some v \<Rightarrow> v + snd kv) d"

text \<open>The number of sub-tasks with a status, by queue name (\<open>values(\<dots>).annotate(Count)\<close>).\<close>

definition status_groups :: "db \<Rightarrow> task_status \<Rightarrow> (string \<times> int) list" where
  "status_groups d s =
     (let names = map st_queue_name (filter (\<lambda>t. st_status t = s) (db_subtasks d))
      in map (\<lambda>n. (n, int (count_list names n))) (remdups names))"

definition status_counts :: "db \<Rightarrow> task_status \<Rightarrow> (string, int) dict" where
  "status_counts d s = foldl add_to_dict [] (status_groups d s)"

fun queue_entries :: "broker \<Rightarrow> string list \<Rightarrow> queue_info list result" where
  "queue_entries br [] = Inr []"
| "queue_entries br (q # qs) =
     rbind (br_declare br q) (\<lambda>mc. rbind (queue_entries br qs) (\<lambda>rest.
       Inr (\<lparr>qi_name = q, qi_pending_count = 0, qi_queued_count = 0, qi_running_count = 0,
             qi_queue_message_count = fst mc, qi_worker_count = snd mc\<rparr> # rest)))"

definition get_queues_info :: "broker \<Rightarrow> db \<Rightarrow> queue_info list result" where
  "get_queues_info br d =
     rbind (get_broker_queue_names br) (\<lambda>names. rbind (queue_entries br names) (\<lambda>res.
       Inr (map (\<lambda>e. e\<lparr>qi_pending_count := default 0 (map_of (status_counts d PENDING) (qi_name e)),
                       qi_queued_count := default 0 (map_of (status_counts d QUEUED) (qi_name e)),
                       qi_running_count := default 0 (map_of (status_counts d STARTED) (qi_name e))\<rparr>) res)))"

text \<open>The names asked for: all, a collection, or one text, of which \<open>in\<close> finds every part.\<close>

datatype name_filter = All_Names | Names "string list" | One_Name string

definition wanted :: "name_filter \<Rightarrow> string \<Rightarrow> bool" where
  "wanted f q = (case f of All_Names \<Rightarrow> True | Names ns \<Rightarrow> q \<in> set ns | One_Name n \<Rightarrow> has_infix n q)"

definition filter_queues_info :: "broker \<Rightarrow> db \<Rightarrow> name_filter \<Rightarrow> queue_info list result" where
  "filter_queues_info br d f = rbind (get_queues_info br d) (\<lambda>info. Inr (filter (\<lambda>q. wanted f (qi_name q)) info))"

section \<open>Messages\<close>

definition find_model_from_queue_name :: "db \<Rightarrow> string \<Rightarrow> pk option" where
  "find_model_from_queue_name d q =
     map_option mo_id (find (\<lambda>m. queue_name m = q) (filter (\<lambda>m. \<not> mo_deleted m) (db_models d)))"

definition subtasks_of :: "db \<Rightarrow> analysis \<Rightarrow> subtask list" where
  "subtasks_of d a = filter (\<lambda>t. st_analysis t = an_id a) (db_subtasks d)"

definition unfinished :: "subtask \<Rightarrow> bool" where
  "unfinished t \<longleftrightarrow> st_status t \<in> set [PENDING, QUEUED, STARTED]"

text \<open>What the controller reads of a serialized analysis.\<close>

definition analysis_entry_of :: "db \<Rightarrow> analysis \<Rightarrow> analysis_entry" where
  "analysis_entry_of d a =
     \<lparr>ae_id = int (an_id a), ae_sub_task_count = Some (int (length (subtasks_of d a))), ae_priority = Some (an_priority a),
      ae_total_in_queue = Some (int (length (filter unfinished (subtasks_of d a)))),
      ae_queue_names = Some (remdups (map st_queue_name (filter unfinished (subtasks_of d a))))\<rparr>"

definition live_statuses :: "analysis_status list" where
  "live_statuses = [NEW, INPUTS_GENERATION_QUEUED, INPUTS_GENERATION_STARTED, READY, RUN_QUEUED, RUN_STARTED]"

definition is_active :: "queue_info \<Rightarrow> bool" where
  "is_active q \<longleftrightarrow> qi_worker_count q \<noteq> 0 \<or> qi_pending_count q \<noteq> 0 \<or> qi_running_count q \<noteq> 0 \<or> qi_queued_count q \<noteq> 0 \<or>
     qi_queue_message_count q \<noteq> 0"

text \<open>The analyses under a queue: those of the model the queue belongs to, or those with a sub-task on it.\<close>

definition queue_analyses :: "db \<Rightarrow> analysis list \<Rightarrow> string \<Rightarrow> analysis list" where
  "queue_analyses d as q =
     (case find_model_from_queue_name d q of
        Some i \<Rightarrow> if i \<noteq> 0 then filter (\<lambda>a. an_model a = Some i) as
                  else filter (\<lambda>a. q \<in> set (map st_queue_name (subtasks_of d a))) as
      | None \<Rightarrow> filter (\<lambda>a. q \<in> set (map st_queue_name (subtasks_of d a))) as)"

definition content_of :: "db \<Rightarrow> analysis list \<Rightarrow> queue_info \<Rightarrow> content_entry" where
  "content_of d as q =
     \<lparr>ce_queue = \<lparr>qe_name = qi_name q, qe_queued_count = Some (qi_queued_count q), qe_message_count = Some (qi_queue_message_count q)\<rparr>,
      ce_analyses = map (analysis_entry_of d) (queue_analyses d as (qi_name q))\<rparr>"

definition build_all_queue_status_message :: "broker \<Rightarrow> db \<Rightarrow> int list option \<Rightarrow> content_entry list result" where
  "build_all_queue_status_message br d analysis_filter =
     (let as = (case analysis_filter of
                  None \<Rightarrow> filter (\<lambda>a. an_status a \<in> set live_statuses) (db_analyses d)
                | Some ids \<Rightarrow> filter (\<lambda>a. int (an_id a) \<in> set ids) (db_analyses d));
          names = (case analysis_filter of
                     None \<Rightarrow> All_Names
                   | Some _ \<Rightarrow> Names (concat (map (\<lambda>a. map st_queue_name (subtasks_of d a)) as)))
      in rbind (filter_queues_info br d names) (\<lambda>qs. Inr (map (content_of d as) (filter is_active qs))))"

section \<open>The status socket\<close>

datatype ws_message = Ws_Error "json" string | Ws_Status string "content_entry list"

text \<open>\<open>to_id\<close> is the conversion of a primary key by the database layer.\<close>

fun convert_ids :: "(json \<Rightarrow> int result) \<Rightarrow> json list \<Rightarrow> int list result" where
  "convert_ids to_id [] = Inr []"
| "convert_ids to_id (x # xs) = rbind (to_id x) (\<lambda>i. rbind (convert_ids to_id xs) (\<lambda>is. Inr (i # is)))"

definition process_queue_status_filter :: "broker \<Rightarrow> (json \<Rightarrow> int result) \<Rightarrow> db \<Rightarrow> json \<Rightarrow> ws_message result" where
  "process_queue_status_filter br to_id d filters =
     (case filters of
        JObj kvs \<Rightarrow>
          rbind (case map_of kvs ''analyses'' of
                   None \<Rightarrow> Inr None
                 | Some v \<Rightarrow> rbind (json_iter v) (\<lambda>xs. rbind (convert_ids to_id (filter (\<lambda>x. x \<noteq> JNull) xs)) (\<lambda>is. Inr (Some is))))
            (\<lambda>f. rbind (build_all_queue_status_message br d f) (\<lambda>c. Inr (Ws_Status ''queue_status.filter'' c)))
      | _ \<Rightarrow> Inr (Ws_Error JNull ''queue_status.filter \"content\" should be a dictionary.''))"

definition message_type_text :: "json \<Rightarrow> string" where
  "message_type_text t = (case t of JNull \<Rightarrow> ''None'' | JBool b \<Rightarrow> (if b then ''True'' else ''False'') | JInt n \<Rightarrow> str_int n | JStr s \<Rightarrow> s | _ \<Rightarrow> [])"

text \<open>A type that is a list or a dictionary cannot be a key of the table of processors.\<close>

definition receive_json :: "broker \<Rightarrow> (json \<Rightarrow> int result) \<Rightarrow> db \<Rightarrow> json \<Rightarrow> ws_message result" where
  "receive_json br to_id d content =
     (case content of
        JObj kvs \<Rightarrow>
          (case default JNull (map_of kvs ''type'') of
             JArr _ \<Rightarrow> Inl (TypeError ''unhashable type'')
           | JObj _ \<Rightarrow> Inl (TypeError ''unhashable type'')
           | t \<Rightarrow>
               if t = JStr ''queue_status.filter'' then
                 (let data = default JNull (map_of kvs ''content'') in
                  if \<not> truthy data then Inr (Ws_Error t ''Payload \"content\" was not set.'')
                  else process_queue_status_filter br to_id d data)
               else Inr (Ws_Error JNull (''type \"'' @ message_type_text t @ ''\" is not valid.'')))
      | _ \<Rightarrow> Inr (Ws_Error JNull ''Payload should be a dictionary.''))"

section \<open>Progress\<close>

text \<open>A report of a worker: the analysis, and the numbers of events if given.\<close>

record progress =
  pg_analysis :: pk
  pg_events_total :: "int option"
  pg_events_complete :: "int option"

definition set_total :: "progress \<Rightarrow> analysis \<Rightarrow> analysis" where
  "set_total m a = (case pg_events_total m of None \<Rightarrow> a | Some n \<Rightarrow> a\<lparr>an_num_events_total := n\<rparr>)"

definition add_complete :: "progress \<Rightarrow> analysis \<Rightarrow> analysis" where
  "add_complete m a = (case pg_events_complete m of None \<Rightarrow> a | Some n \<Rightarrow> a\<lparr>an_num_events_complete := an_num_events_complete a + n\<rparr>)"

text \<open>The request: one update of the two columns.\<close>

definition http_post :: "db \<Rightarrow> progress \<Rightarrow> db" where
  "http_post d m =
     (if pg_events_total m \<noteq> None \<or> pg_events_complete m \<noteq> None
      then save_analysis_fields d (pg_analysis m) (\<lambda>b. add_complete m (set_total m b)) else d)"

text \<open>
  The socket: the analysis is read, and later saved with all of its columns; only the number of
  completed events, if given, is added to what the row has at that time.
\<close>

definition ws_read :: "db \<Rightarrow> progress \<Rightarrow> analysis result" where
  "ws_read d m = (case get_analysis d (pg_analysis m) of None \<Rightarrow> Inl (ObjectDoesNotExist ''Analysis'') | Some a \<Rightarrow> Inr a)"

definition ws_save :: "db \<Rightarrow> progress \<Rightarrow> analysis \<Rightarrow> db" where
  "ws_save d m a =
     save_analysis_fields d (an_id a)
       (\<lambda>b. (set_total m a)\<lparr>an_num_events_complete :=
           (case pg_events_complete m of None \<Rightarrow> an_num_events_complete a | Some n \<Rightarrow> an_num_events_complete b + n)\<rparr>)"

definition handle_content :: "db \<Rightarrow> progress \<Rightarrow> db result" where
  "handle_content d m = rbind (ws_read d m) (\<lambda>a. Inr (ws_save d m a))"

section \<open>Counts\<close>

lemma add_to_dict_sum:
  "default 0 (map_of (foldl add_to_dict acc xs) k) = default 0 (map_of acc k) + sum_list (map snd (filter (\<lambda>kv. fst kv = k) xs))"
proof (induction xs arbitrary: acc)
  case (Cons kv xs)
  have "default 0 (map_of (add_to_dict acc kv) k) = default 0 (map_of acc k) + (if fst kv = k then snd kv else 0)"
    by (simp add: add_to_dict_def update_conv' split: option.split)
  with Cons [of "add_to_dict acc kv"] show ?case by simp
qed simp

lemma filter_remdups_one: "filter (\<lambda>x. x = k) (remdups xs) = (if k \<in> set xs then [k] else [])"
  by (induction xs) auto

lemma status_counts_exact:
  "default 0 (map_of (status_counts d s) q) = int (length (filter (\<lambda>t. st_status t = s \<and> st_queue_name t = q) (db_subtasks d)))"
proof -
  let ?names = "map st_queue_name (filter (\<lambda>t. st_status t = s) (db_subtasks d))"
  have "filter (\<lambda>kv. fst kv = q) (status_groups d s) = map (\<lambda>n. (n, int (count_list ?names n))) (filter (\<lambda>n. n = q) (remdups ?names))"
    by (simp add: status_groups_def Let_def filter_map comp_def)
  then have "sum_list (map snd (filter (\<lambda>kv. fst kv = q) (status_groups d s))) = int (count_list ?names q)"
    by (simp add: filter_remdups_one count_list_0_iff del: filter_filter)
  moreover have "count_list (map st_queue_name (filter (\<lambda>t. st_status t = s) ts)) q =
      length (filter (\<lambda>t. st_status t = s \<and> st_queue_name t = q) ts)" for ts
    by (induction ts) auto
  ultimately show ?thesis by (simp only: status_counts_def add_to_dict_sum) simp
qed

text \<open>The numbers of a queue are those of the rows and of the broker.\<close>

definition true_count :: "db \<Rightarrow> task_status \<Rightarrow> string \<Rightarrow> int" where
  "true_count d s q = int (length (filter (\<lambda>t. st_status t = s \<and> st_queue_name t = q) (db_subtasks d)))"

lemma queue_entries_names: "queue_entries br qs = Inr res \<Longrightarrow> map qi_name res = qs"
  by (induction qs arbitrary: res) (auto simp: exn_simps)

lemma queue_entries_declared:
  "queue_entries br qs = Inr res \<Longrightarrow> e \<in> set res \<Longrightarrow> br_declare br (qi_name e) = Inr (qi_queue_message_count e, qi_worker_count e)"
  by (induction qs arbitrary: res) (auto simp: exn_simps)

lemma queue_counts_lemma:
  assumes "get_queues_info br d = Inr info"
  shows "get_broker_queue_names br = Inr (map qi_name info) \<and>
    list_all (\<lambda>e. qi_pending_count e = true_count d PENDING (qi_name e) \<and> qi_queued_count e = true_count d QUEUED (qi_name e) \<and>
      qi_running_count e = true_count d STARTED (qi_name e) \<and>
      br_declare br (qi_name e) = Inr (qi_queue_message_count e, qi_worker_count e)) info"
proof -
  let ?f = "\<lambda>e. e\<lparr>qi_pending_count := default 0 (map_of (status_counts d PENDING) (qi_name e)),
     qi_queued_count := default 0 (map_of (status_counts d QUEUED) (qi_name e)),
     qi_running_count := default 0 (map_of (status_counts d STARTED) (qi_name e))\<rparr>"
  from assms obtain names res where res: "get_broker_queue_names br = Inr names" "queue_entries br names = Inr res" "info = map ?f res"
    by (auto simp: get_queues_info_def exn_simps)
  have "map qi_name info = names" using queue_entries_names [OF res(2)] by (simp add: res(3) comp_def)
  then show ?thesis using res(1) queue_entries_declared [OF res(2)]
    by (simp add: res(3) list_all_iff status_counts_exact true_count_def)
qed

text \<open>
  The queue information lists the queues of the broker, and for every queue the numbers of
  pending, queued and running sub-tasks are those of the rows with that queue name and status.
\<close>

theorem queue_counts_exact:
  assumes "get_queues_info br d = Inr info"
  shows "get_broker_queue_names br = Inr (map qi_name info) \<and>
    list_all (\<lambda>e. qi_pending_count e = true_count d PENDING (qi_name e) \<and> qi_queued_count e = true_count d QUEUED (qi_name e) \<and>
      qi_running_count e = true_count d STARTED (qi_name e) \<and>
      br_declare br (qi_name e) = Inr (qi_queue_message_count e, qi_worker_count e)) info"
  by (rule queue_counts_lemma [OF assms])

definition demo_broker :: broker where
  "demo_broker = \<lparr>br_url = ''amqp://broker'', br_names = Inr [''o-p-1-v2'', ''reply.pidbox''], br_default_queue = ''celery'',
     br_declare = (\<lambda>q. Inr (3, 1))\<rparr>"

theorem queue_counts_exact_witness:
  "\<exists>info. get_queues_info demo_broker lc_db = Inr info \<and> map qi_name info = [''o-p-1-v2''] \<and> qi_pending_count (hd info) = true_count lc_db PENDING ''o-p-1-v2''"
proof -
  have names: "get_broker_queue_names demo_broker = Inr [''o-p-1-v2'']" by code_simp
  then obtain info where info: "get_queues_info demo_broker lc_db = Inr info"
    by (simp add: get_queues_info_def demo_broker_def)
  from queue_counts_exact [OF this] names have "map qi_name info = [''o-p-1-v2'']"
    "list_all (\<lambda>e. qi_pending_count e = true_count lc_db PENDING (qi_name e)) info" by (simp_all add: list_all_iff)
  then show ?thesis using info by (cases info) auto
qed

text \<open>Asking for one queue by its name also gives the queues whose name is a part of it.\<close>

lemma one_name_finds_parts: "wanted (One_Name ''o-p-1-v2'') ''o-p-1''"
  by code_simp

section \<open>What the worker controller sees\<close>

definition running_of :: "analysis_entry \<Rightarrow> running_analysis" where
  "running_of a = \<lparr>ra_id = Some (ae_id a), ra_tasks = default 0 (ae_sub_task_count a), ra_queue_names = default [] (ae_queue_names a),
     ra_priority = default 1 (ae_priority a)\<rparr>"

definition busy :: "analysis_entry \<Rightarrow> bool" where
  "busy a \<longleftrightarrow> 0 < default 0 (ae_sub_task_count a) \<and> 0 < default 0 (ae_total_in_queue a) \<and> default [] (ae_queue_names a) \<noteq> []"

definition entry_pairs :: "content_entry list \<Rightarrow> (content_entry \<times> analysis_entry) list" where
  "entry_pairs content = concat (map (\<lambda>e. map (Pair e) (ce_analyses e)) content)"

lemma parse_running_pairs:
  "parse_running_analyses content = fold (\<lambda>(e, a). running_of_analysis e a) (entry_pairs content) []"
proof -
  have "fold (\<lambda>e acc. fold (running_of_analysis e) (ce_analyses e) acc) content acc =
      fold (\<lambda>(e, a). running_of_analysis e a) (entry_pairs content) acc" for acc
    by (induction content arbitrary: acc) (simp_all add: entry_pairs_def fold_map comp_def)
  then show ?thesis by (simp add: parse_running_analyses_def)
qed

lemma running_other: "k \<noteq> AnalysisId (ae_id a) \<Longrightarrow> map_of (running_of_analysis e a acc) k = map_of acc k"
  by (simp add: running_of_analysis_def update_conv' Let_def)

lemma running_busy:
  "busy a \<Longrightarrow> map_of (running_of_analysis e a acc) (AnalysisId (ae_id a)) =
     (case map_of acc (AnalysisId (ae_id a)) of None \<Rightarrow> Some (running_of a) | Some r \<Rightarrow> Some r)"
  by (auto simp: running_of_analysis_def update_conv' Let_def busy_def running_of_def split: option.split)

lemma running_fold:
  assumes "busy a" "\<And>e b. (e, b) \<in> set ps \<Longrightarrow> ae_id b = ae_id a \<Longrightarrow> b = a"
  shows "map_of (fold (\<lambda>(e, a). running_of_analysis e a) ps acc) (AnalysisId (ae_id a)) =
    (case map_of acc (AnalysisId (ae_id a)) of
       Some r \<Rightarrow> Some r
     | None \<Rightarrow> if a \<in> snd ` set ps then Some (running_of a) else None)"
  using assms(2)
proof (induction ps arbitrary: acc)
  case (Cons p ps)
  obtain e b where p: "p = (e, b)" by (cases p)
  have IH: "map_of (fold (\<lambda>(e, a). running_of_analysis e a) ps (running_of_analysis e b acc)) (AnalysisId (ae_id a)) =
    (case map_of (running_of_analysis e b acc) (AnalysisId (ae_id a)) of
       Some r \<Rightarrow> Some r | None \<Rightarrow> if a \<in> snd ` set ps then Some (running_of a) else None)"
    using Cons.prems by (intro Cons.IH) auto
  show ?case
  proof (cases "b = a")
    case True
    then show ?thesis using IH running_busy [OF assms(1), of e acc] by (simp add: p split: option.splits)
  next
    case False
    then have "AnalysisId (ae_id a) \<noteq> AnalysisId (ae_id b)" using Cons.prems [of e b] by (auto simp: p)
    from IH running_other [OF this] False show ?thesis by (auto simp: p)
  qed
qed (simp split: option.split)

lemma running_keys:
  "map_of (fold (\<lambda>(e, a). running_of_analysis e a) ps acc) (AnalysisId i) \<noteq> None \<Longrightarrow> map_of acc (AnalysisId i) = None \<Longrightarrow>
     \<exists>e b. (e, b) \<in> set ps \<and> ae_id b = i"
proof (induction ps arbitrary: acc)
  case (Cons p ps)
  obtain e b where p: "p = (e, b)" by (cases p)
  show ?case
  proof (cases "ae_id b = i")
    case False
    then have "map_of (running_of_analysis e b acc) (AnalysisId i) = None" using Cons.prems(2) running_other [of "AnalysisId i" b e acc] by simp
    then show ?thesis using Cons.IH [of "running_of_analysis e b acc"] Cons.prems(1) by (auto simp: p)
  qed (use p in auto)
qed simp

lemma message_content:
  assumes "build_all_queue_status_message br d None = Inr content" "get_queues_info br d = Inr info"
  shows "content = map (content_of d (filter (\<lambda>a. an_status a \<in> set live_statuses) (db_analyses d))) (filter is_active info)"
  using assms by (simp add: build_all_queue_status_message_def filter_queues_info_def wanted_def)

lemma queue_analyses_subset: "set (queue_analyses d as q) \<subseteq> set as"
  by (auto simp: queue_analyses_def split: option.splits)

lemma message_pairs:
  "(e, b) \<in> set (entry_pairs (map (content_of d as) qs)) \<longleftrightarrow>
     (\<exists>q a. q \<in> set qs \<and> a \<in> set (queue_analyses d as (qi_name q)) \<and> e = content_of d as q \<and> b = analysis_entry_of d a)"
  by (auto simp: entry_pairs_def content_of_def)

lemma unfinished_busy: "t \<in> set (subtasks_of d a) \<Longrightarrow> unfinished t \<Longrightarrow> busy (analysis_entry_of d a)"
  by (auto simp: busy_def analysis_entry_of_def length_pos_if_in_set filter_empty_conv)

lemma unfinished_queue_active:
  assumes "get_queues_info br d = Inr info" "q \<in> set info" "t \<in> set (db_subtasks d)" "unfinished t" "st_queue_name t = qi_name q"
  shows "is_active q"
proof -
  have "true_count d (st_status t) (qi_name q) \<noteq> 0"
    using assms(3,5) by (auto simp: true_count_def filter_empty_conv)
  with queue_counts_lemma [OF assms(1)] assms(2,4) show ?thesis by (auto simp: is_active_def unfinished_def list_all_iff)
qed

text \<open>
  C11: From the rows of the server to the worker controller: a live analysis with an unfinished
  sub-task on a queue of the broker, where that queue is not the queue of another model, is seen as
  running, with the number of all of its sub-tasks and its priority, on exactly the queues of its
  unfinished sub-tasks; and no analysis is seen that is not live.
\<close>

theorem controller_sees_running_analyses:
  assumes "get_queues_info br d = Inr info" "build_all_queue_status_message br d None = Inr content"
    and "distinct (map an_id (db_analyses d))" "a \<in> set (db_analyses d)" "an_status a \<in> set live_statuses"
    and "t \<in> set (subtasks_of d a)" "unfinished t" "st_queue_name t \<in> set (map qi_name info)"
    and "find_model_from_queue_name d (st_queue_name t) \<in> {None, an_model a}"
  shows "\<exists>r. map_of (parse_running_analyses content) (AnalysisId (int (an_id a))) = Some r \<and>
    ra_tasks r = int (length (subtasks_of d a)) \<and> ra_priority r = an_priority a \<and>
    set (ra_queue_names r) = st_queue_name ` {t \<in> set (subtasks_of d a). unfinished t} \<and>
    (\<forall>i. map_of (parse_running_analyses content) (AnalysisId i) \<noteq> None \<longrightarrow>
       (\<exists>b \<in> set (db_analyses d). int (an_id b) = i \<and> an_status b \<in> set live_statuses))"
proof -
  let ?as = "filter (\<lambda>a. an_status a \<in> set live_statuses) (db_analyses d)"
  have content: "content = map (content_of d ?as) (filter is_active info)" by (rule message_content [OF assms(2,1)])
  from assms(8) obtain q where q: "q \<in> set info" "qi_name q = st_queue_name t" by auto
  have t: "t \<in> set (db_subtasks d)" using assms(6) by (simp add: subtasks_of_def)
  have "is_active q" using unfinished_queue_active [OF assms(1) q(1) t assms(7)] q(2) by simp
  moreover have "a \<in> set (queue_analyses d ?as (qi_name q))"
    using assms(4-6,9) q(2) by (auto simp: queue_analyses_def split: option.split)
  ultimately have "(content_of d ?as q, analysis_entry_of d a) \<in> set (entry_pairs content)"
    using q(1) unfolding content message_pairs by auto
  then have seen: "analysis_entry_of d a \<in> snd ` set (entry_pairs content)" by (metis image_eqI snd_conv)
  have same: "b = analysis_entry_of d a" if "(e, b) \<in> set (entry_pairs content)" "ae_id b = ae_id (analysis_entry_of d a)" for e b
  proof -
    from that(1) obtain a' where "a' \<in> set (db_analyses d)" "b = analysis_entry_of d a'"
      using queue_analyses_subset by (fastforce simp: content message_pairs)
    with that(2) assms(3,4) show ?thesis by (auto simp: analysis_entry_of_def distinct_map inj_on_def)
  qed
  have "map_of (parse_running_analyses content) (AnalysisId (ae_id (analysis_entry_of d a))) = Some (running_of (analysis_entry_of d a))"
    using running_fold [OF unfinished_busy [OF assms(6,7)] same, where acc = "[]"] seen by (simp add: parse_running_pairs)
  moreover have "\<exists>b \<in> set (db_analyses d). int (an_id b) = i \<and> an_status b \<in> set live_statuses"
    if "map_of (parse_running_analyses content) (AnalysisId i) \<noteq> None" for i
    using running_keys [of "entry_pairs content" "[]" i] that queue_analyses_subset
    by (fastforce simp: parse_running_pairs content message_pairs analysis_entry_of_def)
  ultimately show ?thesis by (auto simp: running_of_def analysis_entry_of_def)
qed

definition demo_subtask :: subtask where
  "demo_subtask = \<lparr>st_queue_name = ''o-p-1-v2'', st_task_id = [], st_analysis = 1, st_status = QUEUED, st_pending_time = None,
     st_queue_time = None, st_start_time = None, st_end_time = None, st_name = [], st_slug = [], st_retry_count = 0,
     st_output_log = None, st_error_log = None, st_retry_log = None\<rparr>"

definition status_db :: db where
  "status_db = lc_db\<lparr>db_analyses := [demo_analysis\<lparr>an_status := RUN_STARTED\<rparr>],
     db_subtasks := [demo_subtask, demo_subtask\<lparr>st_status := COMPLETED\<rparr>]\<rparr>"

theorem controller_sees_running_analyses_witness:
  "\<exists>content r. build_all_queue_status_message demo_broker status_db None = Inr content \<and>
     map_of (parse_running_analyses content) (AnalysisId 1) = Some r \<and> ra_tasks r = 2"
proof -
  let ?a = "demo_analysis\<lparr>an_status := RUN_STARTED\<rparr>"
  have names: "get_broker_queue_names demo_broker = Inr [''o-p-1-v2'']" by code_simp
  then obtain info where info: "get_queues_info demo_broker status_db = Inr info" "map qi_name info = [''o-p-1-v2'']"
    by (auto simp: get_queues_info_def demo_broker_def)
  then obtain content where content: "build_all_queue_status_message demo_broker status_db None = Inr content"
    by (simp add: build_all_queue_status_message_def filter_queues_info_def)
  have rows: "db_analyses status_db = [?a]" "db_subtasks status_db = [demo_subtask, demo_subtask\<lparr>st_status := COMPLETED\<rparr>]"
    by (simp_all add: status_db_def)
  have subs: "subtasks_of status_db ?a = [demo_subtask, demo_subtask\<lparr>st_status := COMPLETED\<rparr>]"
    by (simp add: subtasks_of_def rows demo_subtask_def demo_analysis_def)
  have "find_model_from_queue_name status_db ''o-p-1-v2'' = None" by code_simp
  then have "\<exists>r. map_of (parse_running_analyses content) (AnalysisId (int (an_id ?a))) = Some r \<and>
      ra_tasks r = int (length (subtasks_of status_db ?a))"
    using controller_sees_running_analyses [OF info(1) content, of ?a demo_subtask] info(2)
    by (auto simp: rows subs live_statuses_def unfinished_def demo_subtask_def)
  then have "\<exists>r. map_of (parse_running_analyses content) (AnalysisId (int (an_id ?a))) = Some r \<and> ra_tasks r = 2"
    by (simp add: subs)
  moreover have "int (an_id ?a) = 1" by (simp add: demo_analysis_def)
  ultimately show ?thesis using content by (simp only:) blast
qed

text \<open>
  An analysis without sub-tasks that stands under an active queue is seen as running too, whatever
  its live status is: a new analysis of a model keeps the workers of the queue named after the model.
\<close>

lemma running_idle:
  assumes "ae_sub_task_count a = Some 0" "\<And>e b. (e, b) \<in> set ps \<Longrightarrow> ae_id b = ae_id a \<Longrightarrow> b = a"
  shows "(\<exists>r. map_of acc (AnalysisId (ae_id a)) = Some r \<and> ra_tasks r = 1) \<or> map_of acc (AnalysisId (ae_id a)) = None \<and> a \<in> snd ` set ps \<Longrightarrow>
    \<exists>r. map_of (fold (\<lambda>(e, a). running_of_analysis e a) ps acc) (AnalysisId (ae_id a)) = Some r \<and> ra_tasks r = 1"
  using assms(2)
proof (induction ps arbitrary: acc)
  case (Cons p ps)
  obtain e b where p: "p = (e, b)" by (cases p)
  let ?k = "AnalysisId (ae_id a)" and ?acc = "running_of_analysis e b acc"
  have "(\<exists>r. map_of ?acc ?k = Some r \<and> ra_tasks r = 1) \<or> map_of ?acc ?k = None \<and> a \<in> snd ` set ps"
  proof (cases "b = a")
    case True
    then show ?thesis using Cons.prems(1) assms(1)
      by (cases "map_of acc ?k") (auto simp: running_of_analysis_def update_conv' Let_def)
  next
    case False
    then have "?k \<noteq> AnalysisId (ae_id b)" using Cons.prems(2) [of e b] by (auto simp: p)
    from running_other [OF this, of e acc] show ?thesis using Cons.prems(1) False by (auto simp: p)
  qed
  from Cons.IH [OF this] Cons.prems(2) show ?case by (auto simp: p)
qed auto

lemma new_analysis_seen_as_running:
  assumes "get_queues_info br d = Inr info" "build_all_queue_status_message br d None = Inr content"
    and "distinct (map an_id (db_analyses d))" "a \<in> set (db_analyses d)" "an_status a \<in> set live_statuses" "subtasks_of d a = []"
    and "q \<in> set info" "is_active q" "an_model a \<noteq> None" "an_model a \<noteq> Some 0" "find_model_from_queue_name d (qi_name q) = an_model a"
  shows "\<exists>r. map_of (parse_running_analyses content) (AnalysisId (int (an_id a))) = Some r \<and> ra_tasks r = 1"
proof -
  let ?as = "filter (\<lambda>a. an_status a \<in> set live_statuses) (db_analyses d)"
  have content: "content = map (content_of d ?as) (filter is_active info)" by (rule message_content [OF assms(2,1)])
  have "a \<in> set (queue_analyses d ?as (qi_name q))" using assms(4,5,9-11) by (auto simp: queue_analyses_def)
  then have "(content_of d ?as q, analysis_entry_of d a) \<in> set (entry_pairs content)"
    using assms(7,8) unfolding content message_pairs by auto
  then have "analysis_entry_of d a \<in> snd ` set (entry_pairs content)" by (metis image_eqI snd_conv)
  moreover have "b = analysis_entry_of d a" if "(e, b) \<in> set (entry_pairs content)" "ae_id b = ae_id (analysis_entry_of d a)" for e b
    using that assms(3,4) queue_analyses_subset
    by (fastforce simp: content message_pairs analysis_entry_of_def distinct_map inj_on_def)
  ultimately have "\<exists>r. map_of (parse_running_analyses content) (AnalysisId (ae_id (analysis_entry_of d a))) = Some r \<and> ra_tasks r = 1"
    unfolding parse_running_pairs using assms(6) by (intro running_idle) (auto simp: analysis_entry_of_def)
  then show ?thesis by (simp add: analysis_entry_of_def)
qed

section \<open>Progress reports\<close>

text \<open>The row of an analysis without the numbers of events.\<close>

definition without_progress :: "analysis \<Rightarrow> analysis" where
  "without_progress a = a\<lparr>an_num_events_total := 0, an_num_events_complete := 0\<rparr>"

lemma find_map_id:
  assumes "\<And>b. an_id (f b) = an_id b"
  shows "find (\<lambda>b. an_id b = i) (map f xs) = map_option f (find (\<lambda>b. an_id b = i) xs)"
  by (induction xs) (simp_all add: assms)

lemma progress_id: "an_id (add_complete m (set_total m b)) = an_id b"
  by (simp add: add_complete_def set_total_def split: option.split)

lemma get_http_post:
  "get_analysis (http_post d m) i =
     map_option (\<lambda>b. if i = pg_analysis m then add_complete m (set_total m b) else b) (get_analysis d i)"
proof -
  let ?f = "\<lambda>b. if an_id b = pg_analysis m then add_complete m (set_total m b) else b"
  have "find (\<lambda>b. an_id b = i) (map ?f xs) = map_option ?f (find (\<lambda>b. an_id b = i) xs)" for xs
    by (rule find_map_id) (simp add: progress_id)
  moreover have "find (\<lambda>b. an_id b = i) xs = Some b \<Longrightarrow> an_id b = i" for xs b by (induction xs) (auto split: if_splits)
  ultimately have "get_analysis (save_analysis_fields d (pg_analysis m) (\<lambda>b. add_complete m (set_total m b))) i =
      map_option (\<lambda>b. if i = pg_analysis m then add_complete m (set_total m b) else b) (get_analysis d i)"
    by (cases "find (\<lambda>b. an_id b = i) (db_analyses d)") (auto simp: get_analysis_def save_analysis_fields_def)
  moreover have "pg_events_total m = None \<Longrightarrow> pg_events_complete m = None \<Longrightarrow> add_complete m (set_total m b) = b" for b
    by (simp add: add_complete_def set_total_def)
  ultimately show ?thesis by (cases "get_analysis d i") (auto simp: http_post_def)
qed

definition complete_of :: "pk \<Rightarrow> progress \<Rightarrow> int" where
  "complete_of i m = (if pg_analysis m = i then default 0 (pg_events_complete m) else 0)"

text \<open>The total that was reported last for an analysis, if any was.\<close>

definition last_total :: "pk \<Rightarrow> int \<Rightarrow> progress list \<Rightarrow> int" where
  "last_total i n ms =
     (case filter (\<lambda>m. pg_analysis m = i \<and> pg_events_total m \<noteq> None) (rev ms) of
        [] \<Rightarrow> n | m # _ \<Rightarrow> the (pg_events_total m))"

lemma last_total_Cons:
  "last_total i n (m # ms) = last_total i (if pg_analysis m = i then default n (pg_events_total m) else n) ms"
  by (auto simp: last_total_def split: list.split)

text \<open>
  C12: However the requests of workers are ordered, the number of completed events of an analysis is
  what it was plus all the events that were reported for it, its total is the one that was reported
  last for it, or what it was when none was, no other column changes, and no analysis disappears.
\<close>

theorem http_progress_adds_up:
  assumes "get_analysis d i = Some a"
  shows "\<exists>b. get_analysis (foldl http_post d ms) i = Some b \<and>
    an_num_events_complete b = an_num_events_complete a + sum_list (map (complete_of i) ms) \<and>
    an_num_events_total b = last_total i (an_num_events_total a) ms \<and>
    without_progress b = without_progress a"
  using assms
proof (induction ms arbitrary: d a)
  case (Cons m ms)
  let ?a = "if i = pg_analysis m then add_complete m (set_total m a) else a"
  have "get_analysis (http_post d m) i = Some ?a" using Cons.prems by (simp add: get_http_post)
  from Cons.IH [OF this] obtain b where "get_analysis (foldl http_post (http_post d m) ms) i = Some b"
    "an_num_events_complete b = an_num_events_complete ?a + sum_list (map (complete_of i) ms)"
    "an_num_events_total b = last_total i (an_num_events_total ?a) ms" "without_progress b = without_progress ?a" by blast
  moreover have "an_num_events_complete ?a = an_num_events_complete a + complete_of i m" "without_progress ?a = without_progress a"
    "an_num_events_total ?a = (if pg_analysis m = i then default (an_num_events_total a) (pg_events_total m) else an_num_events_total a)"
    by (auto simp: add_complete_def set_total_def complete_of_def without_progress_def split: option.split)
  ultimately show ?case by (auto simp: last_total_Cons)
qed (simp add: last_total_def)

theorem http_progress_adds_up_witness:
  "\<exists>b. get_analysis (foldl http_post lc_db [\<lparr>pg_analysis = 1, pg_events_total = Some 9, pg_events_complete = None\<rparr>,
      \<lparr>pg_analysis = 1, pg_events_total = None, pg_events_complete = Some 4\<rparr>, \<lparr>pg_analysis = 1, pg_events_total = None, pg_events_complete = Some 5\<rparr>]) 1 = Some b \<and>
     an_num_events_complete b = 9 \<and> an_num_events_total b = 9"
proof -
  have a: "get_analysis lc_db 1 = Some demo_analysis" by (simp add: get_analysis_def lc_db_def demo_db_def demo_analysis_def)
  show ?thesis
    using http_progress_adds_up [OF a, of "[\<lparr>pg_analysis = 1, pg_events_total = Some 9, pg_events_complete = None\<rparr>,
      \<lparr>pg_analysis = 1, pg_events_total = None, pg_events_complete = Some 4\<rparr>, \<lparr>pg_analysis = 1, pg_events_total = None, pg_events_complete = Some 5\<rparr>]"]
    by (auto simp: complete_of_def last_total_def demo_analysis_def)
qed

text \<open>
  A report over the socket that is read and saved without anything in between does what the
  request does; but whatever happened to the row in between is undone: every column but the number
  of completed events, and that too if the report has none, is as it was read.
\<close>

theorem socket_report_alone:
  assumes "get_analysis d (pg_analysis m) = Some a" "pg_events_total m \<noteq> None \<or> pg_events_complete m \<noteq> None"
    and "distinct (map an_id (db_analyses d))"
  shows "handle_content d m = Inr (http_post d m) \<and>
    (\<forall>d' b. get_analysis d' (pg_analysis m) = Some b \<longrightarrow>
       (\<exists>c. get_analysis (ws_save d' m a) (pg_analysis m) = Some c \<and> without_progress c = without_progress a \<and>
          (pg_events_complete m = None \<longrightarrow> an_num_events_complete c = an_num_events_complete a)))"
proof (intro conjI allI impI)
  have id: "an_id a = pg_analysis m" using assms(1) by (auto simp: get_analysis_def find_Some_iff)
  have "b = a" if "b \<in> set (db_analyses d)" "an_id b = pg_analysis m" for b
  proof -
    have "a \<in> set (db_analyses d)" using assms(1) by (auto simp: get_analysis_def find_Some_iff)
    with that id assms(3) show ?thesis by (auto simp: distinct_map inj_on_def)
  qed
  then show "handle_content d m = Inr (http_post d m)"
    using assms(1,2) id
    by (auto simp: handle_content_def ws_read_def ws_save_def http_post_def save_analysis_fields_def add_complete_def set_total_def split: option.splits)
  fix d' b assume "get_analysis d' (pg_analysis m) = Some b"
  let ?c = "\<lambda>b. (set_total m a)\<lparr>an_num_events_complete :=
      (case pg_events_complete m of None \<Rightarrow> an_num_events_complete a | Some n \<Rightarrow> an_num_events_complete b + n)\<rparr>"
  have "find (\<lambda>b. an_id b = pg_analysis m) (map (\<lambda>b. if an_id b = an_id a then ?c b else b) xs) =
      map_option ?c (find (\<lambda>b. an_id b = pg_analysis m) xs)" for xs
    using id by (induction xs) (auto simp: set_total_def split: option.split)
  then have "get_analysis (ws_save d' m a) (pg_analysis m) = Some (?c b)"
    using \<open>get_analysis d' (pg_analysis m) = Some b\<close> by (simp add: get_analysis_def ws_save_def save_analysis_fields_def)
  moreover have "without_progress (?c b) = without_progress a" by (simp add: without_progress_def set_total_def split: option.split)
  ultimately show "\<exists>c. get_analysis (ws_save d' m a) (pg_analysis m) = Some c \<and> without_progress c = without_progress a \<and>
      (pg_events_complete m = None \<longrightarrow> an_num_events_complete c = an_num_events_complete a)" by auto
qed

definition demo_report :: progress where
  "demo_report = \<lparr>pg_analysis = 1, pg_events_total = Some 9, pg_events_complete = None\<rparr>"

theorem socket_report_alone_witness:
  "handle_content lc_db demo_report = Inr (http_post lc_db demo_report) \<and>
   (\<exists>c. get_analysis (ws_save (lc_db\<lparr>db_analyses := [demo_analysis\<lparr>an_status := RUN_COMPLETED, an_num_events_complete := 5\<rparr>]\<rparr>)
      demo_report demo_analysis) 1 = Some c \<and> an_num_events_complete c = 0)"
proof -
  have a: "get_analysis lc_db (pg_analysis demo_report) = Some demo_analysis"
    by (simp add: get_analysis_def lc_db_def demo_db_def demo_analysis_def demo_report_def)
  have b: "get_analysis (lc_db\<lparr>db_analyses := [demo_analysis\<lparr>an_status := RUN_COMPLETED, an_num_events_complete := 5\<rparr>]\<rparr>) (pg_analysis demo_report) =
      Some (demo_analysis\<lparr>an_status := RUN_COMPLETED, an_num_events_complete := 5\<rparr>)"
    by (simp add: get_analysis_def demo_analysis_def demo_report_def)
  have "distinct (map an_id (db_analyses lc_db))" by (simp add: lc_db_def demo_db_def)
  from socket_report_alone [OF a _ this] b show ?thesis by (fastforce simp: demo_report_def demo_analysis_def)
qed

end
