(* ===== verification/File_Conversion.thy ===== *)
theory File_Conversion
  imports Related_Files Group_Auth
begin

text \<open>
  Converting a stored file with a mapping file: the view \<open>convert\<close> and \<open>start_conversion\<close>
  (\<open>files/v2_api/viewsets.py\<close>, \<open>files/models.py\<close>) set the file to pending and queue a task, and
  the task \<open>run_file_conversion\<close> (\<open>files/v2_api/tasks.py\<close>, the same text in \<open>v1_api\<close>) runs the
  converter package. The file store and the converter are not part of the repository: what the
  code asks of them is a record. The step relation interleaves requests and tasks, with the automatic
  retries of \<open>celeryconf_v2.py\<close> and the broker's late acknowledgement: the message of a running task
  may be delivered again.
\<close>

section \<open>Mapping files and surroundings\<close>

text \<open>The content of a mapping file is what \<open>yaml.load\<close> makes of it, or its error.\<close>

record mapping_file =
  mf_id :: pk
  mf_file :: string
  mf_input_validation_file :: "string option"
  mf_output_validation_file :: "string option"
  mf_groups :: "group list"
  mf_content :: "json result"

text \<open>The part of the converter's configuration that differs between calls.\<close>

record convert_config =
  cc_file_type :: string
  cc_extractor :: "(string, json) dict"
  cc_input_format :: json
  cc_output_format :: json
  cc_loader :: "(string, json) dict"
  cc_mapping_override :: string
  cc_validation :: "(json, string) dict"

text \<open>
  The groups by key, the mapping files, the file store (\<open>get_storage_url\<close> yields a name and a
  signed URL), the connector options of the settings and the run of the converter.
\<close>

record conv_env =
  ce_group :: "pk \<Rightarrow> group"
  ce_mappings :: "mapping_file list"
  ce_storage_url :: "string \<Rightarrow> (string \<times> string) result"
  ce_connector_options :: "(string, json) dict"
  ce_run :: "convert_config \<Rightarrow> unit result"

definition get_mapping :: "conv_env \<Rightarrow> pk \<Rightarrow> mapping_file option" where
  "get_mapping env m = find (\<lambda>f. mf_id f = m) (ce_mappings env)"

section \<open>Names\<close>

text \<open>
  \<open>str(Path(s))\<close>: empty and \<open>.\<close> components disappear, one leading slash (or exactly two) stays,
  and nothing is the current directory. \<open>suffixes\<close> ignores leading dots of the last component
  and is empty when that component ends with a dot.
\<close>

definition path_root :: "string \<Rightarrow> string" where
  "path_root s =
     (if starts_with s ''//'' \<and> \<not> starts_with s ''///'' then ''//''
      else if starts_with s ''/'' then ''/'' else [])"

definition path_parts :: "string \<Rightarrow> string list" where
  "path_parts s = filter (\<lambda>p. p \<noteq> [] \<and> p \<noteq> ''.'') (split_on CHR ''/'' s)"

definition path_str :: "string \<Rightarrow> string" where
  "path_str s =
     (let t = path_root s @ join_with CHR ''/'' (path_parts s) in if t = [] then ''.'' else t)"

definition path_name :: "string \<Rightarrow> string" where
  "path_name s = (if path_parts s = [] then [] else last (path_parts s))"

definition name_suffixes :: "string \<Rightarrow> string list" where
  "name_suffixes n =
     (if ends_with n ''.'' then []
      else map (\<lambda>x. CHR ''.'' # x) (tl (split_on CHR ''.'' (dropWhile (\<lambda>c. c = CHR ''.'') n))))"

definition input_suffixes :: "string \<Rightarrow> string" where
  "input_suffixes s = concat (name_suffixes (path_name s))"

definition converted_name :: "string \<Rightarrow> string" where
  "converted_name s =
     slice_to (path_str s) (- int (length (input_suffixes s))) @ ''-converted'' @ input_suffixes s"

section \<open>The task\<close>

text \<open>
  \<open>run_file_conversion\<close> up to the first save. Nothing is returned when the guard refuses; otherwise
  the task keeps the row it has read and changed.
\<close>

definition begin_conversion :: "time \<Rightarrow> db \<Rightarrow> pk \<Rightarrow> (db \<times> related_file option) result" where
  "begin_conversion now d i =
     (case get_file d i of
        None \<Rightarrow> Inl (ObjectDoesNotExist ''RelatedFile'')
      | Some f \<Rightarrow>
          if \<not> (is_ready (rf_conversion_state f) \<or> rf_conversion_state f = CONV_PENDING)
          then Inr (d, None)
          else (let f' = f\<lparr>rf_conversion_time := Some now, rf_conversion_state := CONV_IN_PROGRESS\<rparr>
                in Inr (save_file d f', Some f')))"

record prepared =
  pr_mapping :: mapping_file
  pr_content :: json
  pr_input_url :: string
  pr_output_name :: string
  pr_output_url :: string
  pr_mapping_url :: string

text \<open>Between the first save and the \<open>try\<close>: an error here leaves the row as it was saved.\<close>

definition prepare_conversion :: "conv_env \<Rightarrow> related_file \<Rightarrow> prepared result" where
  "prepare_conversion env f =
     (case rf_mapping_file f of
        None \<Rightarrow> Inl (AttributeError ''file'')
      | Some m \<Rightarrow>
          (case get_mapping env m of
             None \<Rightarrow> Inl (ObjectDoesNotExist ''MappingFile'')
           | Some mf \<Rightarrow>
               rbind (mf_content mf) (\<lambda>content.
               rbind (ce_storage_url env (rf_file f)) (\<lambda>(_, signed_input_url).
               rbind (ce_storage_url env (converted_name (rf_file f))) (\<lambda>(output_filename, signed_output_url).
               rbind (ce_storage_url env (mf_file mf)) (\<lambda>(_, signed_mapping_url).
                 Inr \<lparr>pr_mapping = mf, pr_content = content, pr_input_url = signed_input_url,
                      pr_output_name = output_filename, pr_output_url = signed_output_url,
                      pr_mapping_url = signed_mapping_url\<rparr>))))))"

text \<open>\<open>d[k] = v\<close> with a JSON key: it must be hashable, and equal keys share an entry.\<close>

fun json_assign :: "json \<Rightarrow> string \<Rightarrow> (json, string) dict \<Rightarrow> (json, string) dict" where
  "json_assign k v [] = [(k, v)]"
| "json_assign k v (kv # d) = (if py_eq (fst kv) k then (fst kv, v) # d else kv # json_assign k v d)"

definition set_validation ::
  "conv_env \<Rightarrow> json \<Rightarrow> string \<Rightarrow> string option \<Rightarrow> (json, string) dict \<Rightarrow> (json, string) dict result" where
  "set_validation env content key file d =
     (if str_truthy file
      then rbind (ce_storage_url env (the file)) (\<lambda>(_, url).
           rbind (json_index content key) (\<lambda>fmt. rbind (json_index fmt ''name'') (\<lambda>nm.
             if hashable nm then Inr (json_assign nm url d) else Inl (TypeError ''unhashable type''))))
      else Inr d)"

fun json_lower :: "json \<Rightarrow> string result" where
  "json_lower (JStr s) = Inr (lower s)"
| "json_lower _ = Inl (AttributeError ''lower'')"

text \<open>The body of the \<open>try\<close>: the configuration and the run.\<close>

definition connector_options :: "conv_env \<Rightarrow> string \<Rightarrow> (string, json) dict" where
  "connector_options env url = dict_merge [(''path'', JStr url)] (ce_connector_options env)"

definition conversion_config :: "conv_env \<Rightarrow> prepared \<Rightarrow> convert_config result" where
  "conversion_config env p =
     rbind (set_validation env (pr_content p) ''input_format'' (mf_input_validation_file (pr_mapping p)) []) (\<lambda>v1.
     rbind (set_validation env (pr_content p) ''output_format'' (mf_output_validation_file (pr_mapping p)) v1) (\<lambda>v2.
     rbind (rbind (json_index (pr_content p) ''file_type'') json_lower) (\<lambda>ft.
     rbind (json_index (pr_content p) ''input_format'') (\<lambda>inf.
     rbind (json_index (pr_content p) ''output_format'') (\<lambda>outf.
       Inr \<lparr>cc_file_type = ft, cc_extractor = connector_options env (pr_input_url p),
            cc_input_format = inf, cc_output_format = outf,
            cc_loader = connector_options env (pr_output_url p),
            cc_mapping_override = pr_mapping_url p, cc_validation = v2\<rparr>)))))"

definition convert_body :: "conv_env \<Rightarrow> prepared \<Rightarrow> unit result" where
  "convert_body env p = rbind (conversion_config env p) (ce_run env)"

text \<open>The rest of the task: \<open>except\<close> and \<open>finally\<close>, with the name of the stored log.\<close>

definition finish_conversion ::
  "conv_env \<Rightarrow> string \<Rightarrow> prepared \<Rightarrow> related_file \<Rightarrow> db \<Rightarrow> db \<times> unit result" where
  "finish_conversion env log_name p f d =
     (let r = convert_body env p;
          f' = (case r of
                  Inr _ \<Rightarrow> f\<lparr>rf_converted_file := Some (pr_output_name p), rf_conversion_state := CONV_DONE\<rparr>
                | Inl _ \<Rightarrow> f\<lparr>rf_conversion_state := CONV_ERROR\<rparr>)
      in (save_file d (f'\<lparr>rf_conversion_log_file := Some log_name\<rparr>), r))"

definition run_file_conversion :: "conv_env \<Rightarrow> time \<Rightarrow> string \<Rightarrow> db \<Rightarrow> pk \<Rightarrow> db \<times> unit result" where
  "run_file_conversion env now log_name d i =
     (case begin_conversion now d i of
        Inl e \<Rightarrow> (d, Inl e)
      | Inr (d1, None) \<Rightarrow> (d1, Inr ())
      | Inr (d1, Some f) \<Rightarrow>
          (case prepare_conversion env f of
             Inl e \<Rightarrow> (d1, Inl e)
           | Inr p \<Rightarrow> finish_conversion env log_name p f d1))"

section \<open>The view\<close>

text \<open>
  The task is declared with \<open>worker_task_kwargs\<close> (\<open>celeryconf_v2.py\<close>): any error queues it again,
  until it has run \<open>max_retries + 1\<close> times. The queue holds the messages that wait for a worker or
  for the delay of a retry, each with the file and the number of retries so far; \<open>cw_running\<close> the
  rows that tasks past their first save hold in memory, with that number.
\<close>

definition worker_max_retries :: nat where
  "worker_max_retries = 2"

definition retry_task :: "pk \<Rightarrow> nat \<Rightarrow> (pk \<times> nat) list" where
  "retry_task i n = (if n < worker_max_retries then [(i, n + 1)] else [])"

record conv_world =
  cw_db :: db
  cw_queue :: "(pk \<times> nat) list"
  cw_running :: "(related_file \<times> nat) list"

definition start_conversion :: "related_file \<Rightarrow> pk \<Rightarrow> conv_world \<Rightarrow> conv_world" where
  "start_conversion f m w =
     (let f' = f\<lparr>rf_mapping_file := Some m, rf_conversion_state := CONV_PENDING\<rparr>
      in w\<lparr>cw_db := save_file (cw_db w) f', cw_queue := cw_queue w @ [(rf_id f, 0)]\<rparr>)"

fun state_name :: "conversion_state \<Rightarrow> string" where
  "state_name CONV_NONE = ''NONE''"
| "state_name CONV_PENDING = ''PENDING''"
| "state_name CONV_IN_PROGRESS = ''IN_PROGRESS''"
| "state_name CONV_DONE = ''DONE''"
| "state_name CONV_ERROR = ''ERROR''"

definition share_no_group :: "user \<Rightarrow> group list \<Rightarrow> group list \<Rightarrow> bool" where
  "share_no_group u fg mg \<longleftrightarrow> fg \<noteq> [] \<and> mg \<noteq> [] \<and> set fg \<inter> set mg \<inter> set (u_groups u) = {}"

definition convert :: "conv_env \<Rightarrow> user \<Rightarrow> pk \<Rightarrow> pk \<Rightarrow> conv_world \<Rightarrow> conv_world result" where
  "convert env u i m w =
     (case get_file (cw_db w) i of
        None \<Rightarrow> Inl Http404
      | Some f \<Rightarrow>
          (case get_mapping env m of
             None \<Rightarrow> Inl (ValidationError [([], [''Mapping file does not exist.''])])
           | Some mf \<Rightarrow>
               let fg = map (ce_group env) (rf_groups f) in
               rbind (verify_user_is_in_obj_groups u (Some fg)
                        ''You dont have permission to run a conversion on the file'') (\<lambda>_.
               rbind (verify_user_is_in_obj_groups u (Some (mf_groups mf))
                        ''You dont have permission to use the mapping file'') (\<lambda>_.
                 if share_no_group u fg (mf_groups mf)
                 then Inl (PermissionDenied ''The file and mapping do not share a group you are part of'')
                 else if \<not> is_ready (rf_conversion_state f)
                 then Inl (ValidationError [(''detail'',
                   [''File is not in a convertable state. Current conversion state is '' @
                    state_name (rf_conversion_state f)])])
                 else Inr (start_conversion f m w)))))"

section \<open>Requests and tasks interleaved\<close>

text \<open>
  A request and the start of a task, from reading the row to saving it, are single steps. A task that
  fails before it has read the row, before the converter is called or in the converter is retried.
  Messages are acknowledged late (\<open>CELERY_ACKS_LATE\<close>): the broker may deliver the one of a running
  task again, and a worker may be lost with or without that (\<open>CELERY_REJECT_ON_WORKER_LOST\<close>).
\<close>

inductive conv_step :: "conv_env \<Rightarrow> conv_world \<Rightarrow> conv_world \<Rightarrow> bool" for env where
  request: "convert env u i m w = Inr w' \<Longrightarrow> conv_step env w w'"
| start: "cw_queue w = qs @ (i, n) # qs' \<Longrightarrow> begin_conversion now (cw_db w) i = Inr (d, r) \<Longrightarrow>
    conv_step env w (w\<lparr>cw_db := d, cw_queue := qs @ qs',
      cw_running := (case r of None \<Rightarrow> cw_running w | Some f \<Rightarrow> cw_running w @ [(f, n)])\<rparr>)"
| drop: "cw_queue w = qs @ (i, n) # qs' \<Longrightarrow> begin_conversion now (cw_db w) i = Inl e \<Longrightarrow>
    conv_step env w (w\<lparr>cw_queue := qs @ qs' @ retry_task i n\<rparr>)"
| fail: "cw_running w = fs @ (f, n) # fs' \<Longrightarrow> prepare_conversion env f = Inl e \<Longrightarrow>
    conv_step env w (w\<lparr>cw_running := fs @ fs', cw_queue := cw_queue w @ retry_task (rf_id f) n\<rparr>)"
| finish: "cw_running w = fs @ (f, n) # fs' \<Longrightarrow> prepare_conversion env f = Inr p \<Longrightarrow>
    finish_conversion env log_name p f (cw_db w) = (d, r) \<Longrightarrow>
    conv_step env w (w\<lparr>cw_db := d, cw_running := fs @ fs',
      cw_queue := cw_queue w @ (if is_ok r then [] else retry_task (rf_id f) n)\<rparr>)"
| redeliver: "(f, n) \<in> set (cw_running w) \<Longrightarrow>
    conv_step env w (w\<lparr>cw_queue := cw_queue w @ [(rf_id f, n)]\<rparr>)"
| lost: "cw_running w = fs @ (f, n) # fs' \<Longrightarrow> conv_step env w (w\<lparr>cw_running := fs @ fs'\<rparr>)"

definition queued :: "conv_world \<Rightarrow> pk \<Rightarrow> nat" where
  "queued w i = count_list (map fst (cw_queue w)) i"






section \<open>Lemmas\<close>

lemma get_file_id: "get_file d i = Some f \<Longrightarrow> rf_id f = i"
  by (auto simp: get_file_def find_Some_iff)


lemma get_save_file:
  "get_file (save_file d f) i =
     (if i = rf_id f then map_option (\<lambda>_. f) (get_file d i) else get_file d i)"
proof -
  have "find (\<lambda>b. rf_id b = i) (map (\<lambda>b. if rf_id b = rf_id f then f else b) xs) =
      (if i = rf_id f then map_option (\<lambda>_. f) (find (\<lambda>b. rf_id b = i) xs)
       else find (\<lambda>b. rf_id b = i) xs)" for xs
    by (induction xs) auto
  then show ?thesis by (simp add: get_file_def save_file_def)
qed


lemma is_ready_simps [simp]:
  "is_ready CONV_NONE" "is_ready CONV_ERROR" "is_ready CONV_DONE"
  "\<not> is_ready CONV_PENDING" "\<not> is_ready CONV_IN_PROGRESS"
  by (simp_all add: is_ready_def)

lemma not_ready_cases: "\<not> is_ready s \<longleftrightarrow> s = CONV_PENDING \<or> s = CONV_IN_PROGRESS"
  by (cases s) simp_all

























subsection \<open>Names\<close>

lemma concat_split_on: "concat (map ((#) c) (split_on c s)) = c # s"
proof (induction s)
  case (Cons a s)
  then show ?case by (cases "split_on c s") auto
qed simp

lemma split_on_dot_concat:
  "split_on c s = x # xs \<Longrightarrow> s = x @ concat (map (\<lambda>y. c # y) xs)"
  using concat_split_on [of c s] by simp

lemma split_on_hd: "split_on c s = x # xs \<Longrightarrow> c \<notin> set x"
  by (induction s arbitrary: x xs) (auto split: if_splits list.splits)

text \<open>A name with suffixes: leading dots, a stem without dots, the suffixes.\<close>

lemma name_split:
  assumes "concat (name_suffixes n) \<noteq> []"
  obtains dots stem where "n = dots @ stem @ concat (name_suffixes n)" "set dots \<subseteq> {CHR ''.''}"
    "stem \<noteq> []" "CHR ''.'' \<notin> set stem" "hd (concat (name_suffixes n)) = CHR ''.''" "\<not> ends_with n ''.''"
proof -
  let ?b = "dropWhile (\<lambda>c. c = CHR ''.'') n"
  have e: "\<not> ends_with n ''.''" using assms by (auto simp: name_suffixes_def)
  then have ns: "name_suffixes n = map (\<lambda>x. CHR ''.'' # x) (tl (split_on CHR ''.'' ?b))"
    by (simp add: name_suffixes_def)
  obtain x xs where x: "split_on CHR ''.'' ?b = x # xs" by (cases "split_on CHR ''.'' ?b") auto
  have b: "?b = x @ concat (name_suffixes n)" using split_on_dot_concat [OF x] ns x by simp
  obtain y ys where xs: "xs = y # ys" using assms ns x by (cases xs) auto
  have hd: "hd (concat (name_suffixes n)) = CHR ''.''" using ns x xs by simp
  have "x \<noteq> []"
  proof
    assume "x = []"
    then have "?b \<noteq> []" "hd ?b = CHR ''.''" using b hd assms by simp_all
    then show False using hd_dropWhile [of "\<lambda>c. c = CHR ''.''" n] by simp
  qed
  moreover have "n = takeWhile (\<lambda>c. c = CHR ''.'') n @ x @ concat (name_suffixes n)"
    using b by (metis takeWhile_dropWhile_id)
  moreover have "set (takeWhile (\<lambda>c. c = CHR ''.'') n) \<subseteq> {CHR ''.''}" by (auto dest: set_takeWhileD)
  ultimately show ?thesis using that split_on_hd [OF x] hd e by blast
qed

lemma suffixes_of_split:
  assumes "set dots \<subseteq> {CHR ''.''}" "stem \<noteq> []" "CHR ''.'' \<notin> set stem"
    "\<not> ends_with (dots @ stem @ suf) ''.''" "suf = [] \<or> hd suf = CHR ''.''"
  shows "concat (name_suffixes (dots @ stem @ suf)) = suf"
proof -
  have d: "dropWhile (\<lambda>c. c = CHR ''.'') (dots @ stem @ suf) = stem @ suf"
    using assms(1-3) by (cases stem) (auto simp: dropWhile_append2 subset_iff)
  show ?thesis
  proof (cases suf)
    case Nil
    then show ?thesis using assms d by (simp add: name_suffixes_def split_on_no_sep)
  next
    case (Cons c r)
    then have c: "suf = CHR ''.'' # r" using assms(5) by simp
    obtain x xs where x: "split_on CHR ''.'' r = x # xs" by (cases "split_on CHR ''.'' r") auto
    show ?thesis
      using assms(3,4) d x split_on_dot_concat [OF x] by (simp add: name_suffixes_def c split_on_append_sep)
  qed
qed


lemma split_on_parts: "p \<in> set (split_on c s) \<Longrightarrow> c \<notin> set p"
  by (induction s arbitrary: p) (auto split: if_splits list.splits)

lemma split_on_append: "split_on c (x @ c # n) = split_on c x @ split_on c n"
proof (induction x)
  case (Cons a x)
  then show ?case by (cases "split_on c x") auto
qed simp

lemma last_split_on_sep: "last (split_on c (x @ c # n)) = last (split_on c n)"
  by (simp add: split_on_append)

lemma join_with_snoc: "join_with c (xs @ [x]) = concat (map (\<lambda>w. w @ [c]) xs) @ x"
proof (induction xs)
  case (Cons w ws)
  then show ?case by (cases "ws @ [x]") auto
qed simp

text \<open>A path is its directory, which is empty or ends with a slash, and its name.\<close>

lemma path_split:
  assumes "path_name s \<noteq> []"
  obtains dir where "path_str s = dir @ path_name s" "dir = [] \<or> last dir = CHR ''/''"
    "CHR ''/'' \<notin> set (path_name s)"
proof -
  have ne: "path_parts s \<noteq> []" and nm: "path_name s = last (path_parts s)"
    using assms by (auto simp: path_name_def split: if_splits)
  define dir where "dir = path_root s @ concat (map (\<lambda>w. w @ [CHR ''/'']) (butlast (path_parts s)))"
  have j: "path_root s @ join_with CHR ''/'' (path_parts s) = dir @ path_name s"
    using join_with_snoc [of "CHR ''/''" "butlast (path_parts s)" "last (path_parts s)"] ne nm
    by (simp add: dir_def)
  have "last (path_parts s) \<in> set (split_on CHR ''/'' s)"
    using last_in_set [OF ne] by (simp add: path_parts_def)
  then have "CHR ''/'' \<notin> set (path_name s)" using split_on_parts nm by metis
  moreover have "dir = [] \<or> last dir = CHR ''/''"
    by (cases "butlast (path_parts s)" rule: rev_cases) (auto simp: dir_def path_root_def)
  moreover have "path_str s = dir @ path_name s" using j assms by (simp add: path_str_def Let_def)
  ultimately show ?thesis using that by blast
qed

lemma basename_dir: "dir = [] \<or> last dir = CHR ''/'' \<Longrightarrow> CHR ''/'' \<notin> set n \<Longrightarrow> basename (dir @ n) = n"
  by (cases dir rule: rev_cases) (auto simp: basename_def split_on_no_sep last_split_on_sep)

lemma ends_with_dot: "ends_with s ''.'' \<longleftrightarrow> s \<noteq> [] \<and> last s = CHR ''.''"
  by (cases s rule: rev_cases) (auto simp: ends_with_iff)

text \<open>The converted name keeps the suffixes, and the path can be read off it.\<close>

lemma converted_name_split:
  assumes "input_suffixes s \<noteq> []"
  shows "\<exists>dir base. path_str s = dir @ base @ input_suffixes s \<and>
    converted_name s = dir @ (base @ ''-converted'') @ input_suffixes s \<and>
    basename (converted_name s) = (base @ ''-converted'') @ input_suffixes s \<and>
    concat (name_suffixes (basename (converted_name s))) = input_suffixes s"
proof -
  let ?n = "path_name s" and ?suf = "input_suffixes s"
  have suf: "concat (name_suffixes ?n) = ?suf" by (simp add: input_suffixes_def)
  obtain dots stem where n: "?n = dots @ stem @ ?suf" and dots: "set dots \<subseteq> {CHR ''.''}"
    and stem: "stem \<noteq> []" "CHR ''.'' \<notin> set stem" and hd: "hd ?suf = CHR ''.''" and e: "\<not> ends_with ?n ''.''"
    using name_split [of ?n] assms suf by metis
  obtain dir where dir: "path_str s = dir @ ?n" "dir = [] \<or> last dir = CHR ''/''" "CHR ''/'' \<notin> set ?n"
    using path_split [of s] n stem(1) by auto
  have p: "path_str s = (dir @ dots @ stem) @ ?suf" using dir(1) n by simp
  have c: "converted_name s = dir @ ((dots @ stem) @ ''-converted'') @ ?suf"
    using assms by (simp add: converted_name_def p slice_to_def)
  have "CHR ''/'' \<notin> set (((dots @ stem) @ ''-converted'') @ ?suf)" using dir(3) by (subst (asm) n) simp
  then have b: "basename (converted_name s) = ((dots @ stem) @ ''-converted'') @ ?suf"
    unfolding c by (rule basename_dir [OF dir(2)])
  have "last ?suf \<noteq> CHR ''.''" using e assms n by (auto simp: ends_with_dot)
  then have "concat (name_suffixes (dots @ (stem @ ''-converted'') @ ?suf)) = ?suf"
    using dots stem hd assms by (intro suffixes_of_split) (auto simp: ends_with_dot)
  then show ?thesis
    using p c b by (intro exI [of _ dir] exI [of _ "dots @ stem"]) simp
qed


subsection \<open>One run of the task\<close>

lemma prepare_fields:
  "prepare_conversion env (f\<lparr>rf_conversion_time := t, rf_conversion_state := s\<rparr>) = prepare_conversion env f"
  by (simp add: prepare_conversion_def split: option.split)

text \<open>The link that is handed to a worker for a stored name.\<close>

definition link_to :: "storage \<Rightarrow> bool \<Rightarrow> string \<Rightarrow> string option" where
  "link_to sg full nm = file_storage_link sg (Some (blank_file\<lparr>rf_file := nm\<rparr>)) full"

lemma link_unconverted: "rf_conversion_state f \<noteq> CONV_DONE \<Longrightarrow> file_storage_link sg (Some f) full = link_to sg full (rf_file f)"
  by (simp add: link_to_def file_storage_link_def blank_file_def str_truthy_def)

lemma link_converted:
  "rf_conversion_state f = CONV_DONE \<Longrightarrow> rf_converted_file f = Some out \<Longrightarrow> out \<noteq> [] \<Longrightarrow> rf_file f \<noteq> [] \<Longrightarrow>
   file_storage_link sg (Some f) full = link_to sg full out"
  by (simp add: link_to_def file_storage_link_def blank_file_def str_truthy_def)

lemma run_skip:
  "get_file d i = Some f \<Longrightarrow> rf_conversion_state f = CONV_IN_PROGRESS \<Longrightarrow>
   run_file_conversion env now lg d i = (d, Inr ())"
  by (simp add: run_file_conversion_def begin_conversion_def)

lemma run_go:
  assumes "get_file d i = Some f" "rf_conversion_state f \<noteq> CONV_IN_PROGRESS"
  shows "run_file_conversion env now lg d i =
    (let f1 = f\<lparr>rf_conversion_time := Some now, rf_conversion_state := CONV_IN_PROGRESS\<rparr>
     in case prepare_conversion env f of
          Inl e \<Rightarrow> (save_file d f1, Inl e)
        | Inr p \<Rightarrow> finish_conversion env lg p f1 (save_file d f1))"
  using assms not_ready_cases [of "rf_conversion_state f"]
  by (auto simp: run_file_conversion_def begin_conversion_def Let_def prepare_fields)

section \<open>Properties\<close>

definition sample_mapping :: "json result \<Rightarrow> mapping_file" where
  "sample_mapping c = \<lparr>mf_id = 5, mf_file = ''air.yaml'', mf_input_validation_file = Some ''in.csv'',
     mf_output_validation_file = None, mf_groups = [], mf_content = c\<rparr>"

definition sample_yaml :: json where
  "sample_yaml = JObj [(''file_type'', JStr ''LOC''), (''input_format'', JObj [(''name'', JStr ''AIR'')]),
     (''output_format'', JObj [(''name'', JStr ''OED'')])]"

definition sample_env :: "json result \<Rightarrow> conv_env" where
  "sample_env c = \<lparr>ce_group = (\<lambda>g. \<lparr>g_id = g, g_name = str_nat g\<rparr>), ce_mappings = [sample_mapping c],
     ce_storage_url = (\<lambda>s. Inr (s, ''https://store/'' @ s)), ce_connector_options = [],
     ce_run = (\<lambda>c. if cc_file_type c = ''loc'' then Inr () else Inl (ValueError ''file type''))\<rparr>"

definition sample_file :: "conversion_state \<Rightarrow> related_file" where
  "sample_file s = blank_file\<lparr>rf_id := 3, rf_file := ''3f.csv'', rf_conversion_state := s\<rparr>"

definition sample_world :: "conv_world" where
  "sample_world = \<lparr>cw_db = \<lparr>db_files = [sample_file CONV_NONE], db_models = [], db_portfolios = [],
     db_analyses = [], db_subtasks = [], db_data_files = [], db_next_file = 4, db_next_model = 1,
     db_next_analysis = 1, db_next_portfolio = 1\<rparr>, cw_queue = [], cw_running = []\<rparr>"

definition sample_user :: user where
  "sample_user = \<lparr>u_id = 1, u_groups = [], u_is_superuser = False, u_is_staff = False\<rparr>"

definition sample_running :: related_file where
  "sample_running = (sample_file CONV_IN_PROGRESS)\<lparr>rf_mapping_file := Some 5, rf_conversion_time := Some 12\<rparr>"

definition sample_started :: conv_world where
  "sample_started = sample_world\<lparr>cw_db := save_file (cw_db sample_world) sample_running, cw_running := [(sample_running, 0)]\<rparr>"

lemmas sample_defs = sample_mapping_def sample_env_def sample_file_def sample_world_def sample_user_def
  sample_running_def sample_started_def sample_yaml_def blank_file_def










text \<open>A retry waits while the file, in error, accepts a request: two tasks wait for it then.\<close>

lemma retry_and_request:
  assumes "cw_running w = fs @ (f, 0) # fs'" "prepare_conversion env f = Inr p" "convert_body env p = Inl e"
    and "cw_queue w = []" "get_file (cw_db w) (rf_id f) \<noteq> None"
  shows "\<exists>w' g. conv_step env w w' \<and> get_file (cw_db w') (rf_id f) = Some g \<and>
    is_ready (rf_conversion_state g) \<and> cw_queue (start_conversion g m w') = [(rf_id f, 1), (rf_id f, 0)]"
proof -
  let ?g = "f\<lparr>rf_conversion_state := CONV_ERROR, rf_conversion_log_file := Some lg\<rparr>"
  let ?w = "w\<lparr>cw_db := save_file (cw_db w) ?g, cw_running := fs @ fs', cw_queue := [(rf_id f, 1)]\<rparr>"
  have "conv_step env w ?w"
    using conv_step.finish [OF assms(1,2), of lg "save_file (cw_db w) ?g" "Inl e"] assms(3,4)
    by (simp add: finish_conversion_def Let_def retry_task_def worker_max_retries_def)
  then show ?thesis
    using assms(5) by (intro exI [of _ ?w] exI [of _ ?g]) (auto simp: get_save_file start_conversion_def Let_def)
qed

text \<open>
  C13: What one run of the task does to the database, on every branch. A file in progress is left
  alone. Otherwise the start time is recorded; an error before the converter leaves the state in
  progress; an error of the configuration or of the converter is recorded as such, with the log, and
  is raised again; success records the converted file. No other file changes, and a worker that asks
  for the file is given the converted one exactly after a success.
\<close>

theorem conversion_outcome:
  assumes "get_file d i = Some f" "run_file_conversion env now lg d i = (d', r)"
  shows "(\<forall>j. j \<noteq> i \<longrightarrow> get_file d' j = get_file d j) \<and>
    (if rf_conversion_state f = CONV_IN_PROGRESS then d' = d \<and> r = Inr ()
     else \<exists>g. get_file d' i = Some g \<and> rf_conversion_time g = Some now \<and>
       (case prepare_conversion env f of
          Inl e \<Rightarrow> r = Inl e \<and> rf_conversion_state g = CONV_IN_PROGRESS \<and>
            (\<forall>sg full. file_storage_link sg (Some g) full = link_to sg full (rf_file f))
        | Inr p \<Rightarrow> r = convert_body env p \<and> rf_conversion_log_file g = Some lg \<and>
            rf_conversion_state g = (if is_ok r then CONV_DONE else CONV_ERROR) \<and>
            (pr_output_name p \<noteq> [] \<and> rf_file f \<noteq> [] \<longrightarrow> (\<forall>sg full. file_storage_link sg (Some g) full =
               link_to sg full (if is_ok r then pr_output_name p else rf_file f)))))"
proof (cases "rf_conversion_state f = CONV_IN_PROGRESS")
  case True
  then show ?thesis using assms run_skip [OF assms(1) True] by simp
next
  case False
  note run = run_go [OF assms(1) False, of env now lg] and id = get_file_id [OF assms(1)]
  show ?thesis
  proof (cases "prepare_conversion env f")
    case (Inl e)
    then show ?thesis
      using assms run False id by (auto simp: Let_def get_save_file link_unconverted)
  next
    case (Inr p)
    show ?thesis
    proof (cases "convert_body env p")
      case e: (Inl e)
      then have "r = Inl e" using assms(2) run Inr by (simp add: finish_conversion_def Let_def)
      with e assms run False id Inr show ?thesis
        by (auto simp: Let_def get_save_file finish_conversion_def link_unconverted)
    next
      case u: (Inr u)
      then have "r = Inr ()" using assms(2) run Inr by (simp add: finish_conversion_def Let_def)
      with u assms run False id Inr show ?thesis
        by (auto simp: Let_def get_save_file finish_conversion_def link_converted)
    qed
  qed
qed

theorem conversion_outcome_witness:
  "\<exists>g. get_file (fst (run_file_conversion (sample_env (Inr sample_yaml)) 12 ''l.log'' (cw_db sample_world) 3)) 3 = Some g \<and>
     rf_conversion_time g = Some 12"
proof -
  have g: "get_file (cw_db sample_world) 3 = Some (sample_file CONV_NONE)"
    by (simp add: get_file_def sample_defs)
  show ?thesis
    using conversion_outcome [OF g surjective_pairing [of "run_file_conversion (sample_env (Inr sample_yaml)) 12 ''l.log'' (cw_db sample_world) 3"]]
    by (auto simp: sample_file_def)
qed

text \<open>
  C14: Names of converted files. Files with a suffix get different converted names unless their paths
  are the same, whatever directories, leading dots and number of suffixes they have; a file without
  a suffix loses its name, so that all such files share one converted file.
\<close>

theorem converted_names:
  "(input_suffixes s \<noteq> [] \<and> input_suffixes t \<noteq> [] \<and> converted_name s = converted_name t \<longrightarrow> path_str s = path_str t) \<and>
   (input_suffixes s = [] \<longrightarrow> converted_name s = ''-converted'')"
proof (intro conjI impI)
  assume st: "input_suffixes s \<noteq> [] \<and> input_suffixes t \<noteq> [] \<and> converted_name s = converted_name t"
  obtain dir base where s: "path_str s = dir @ base @ input_suffixes s"
    "converted_name s = dir @ (base @ ''-converted'') @ input_suffixes s"
    "concat (name_suffixes (basename (converted_name s))) = input_suffixes s"
    using converted_name_split st by blast
  obtain dir' base' where t: "path_str t = dir' @ base' @ input_suffixes t"
    "converted_name t = dir' @ (base' @ ''-converted'') @ input_suffixes t"
    "concat (name_suffixes (basename (converted_name t))) = input_suffixes t"
    using converted_name_split st by blast
  have suf: "input_suffixes s = input_suffixes t" using s(3) t(3) st by simp
  have "dir @ base @ ''-converted'' = dir' @ base' @ ''-converted''" using s(2) t(2) st suf by simp
  then have "(dir @ base) @ ''-converted'' = (dir' @ base') @ ''-converted''" by simp
  then have "dir @ base = dir' @ base'" by (simp only: append_same_eq)
  then show "path_str s = path_str t" using s(1) t(1) suf by (metis append.assoc)
qed (simp add: converted_name_def slice_to_def)

theorem converted_names_witness:
  "converted_name ''a/.loc.csv.gz'' = ''a/.loc-converted.csv.gz'' \<and> converted_name ''loc'' = ''-converted'' \<and>
   converted_name ''a/.loc.csv.gz'' \<noteq> converted_name ''b/.loc.csv.gz''"
proof -
  have c: "converted_name ''a/.loc.csv.gz'' = ''a/.loc-converted.csv.gz''" "input_suffixes ''loc'' = []"
    "input_suffixes ''a/.loc.csv.gz'' = ''.csv.gz''" "input_suffixes ''b/.loc.csv.gz'' = ''.csv.gz''"
    "path_str ''a/.loc.csv.gz'' \<noteq> path_str ''b/.loc.csv.gz''"
    by code_simp+
  have "converted_name ''a/.loc.csv.gz'' \<noteq> converted_name ''b/.loc.csv.gz''"
    using converted_names [of "''a/.loc.csv.gz''" "''b/.loc.csv.gz''"] c(3-5) by auto
  moreover have "converted_name ''loc'' = ''-converted''"
    using converted_names [of "''loc''" "''loc''"] c(2) by (elim conjE) (rule mp)
  ultimately show ?thesis using c(1) by blast
qed

text \<open>
  Two requests that read the row before either saves it are both accepted, and two more tasks wait
  for the file.
\<close>

lemma interleaved_requests:
  assumes "get_file (cw_db w) i = Some f" "is_ready (rf_conversion_state f)"
  shows "queued (start_conversion f m' (start_conversion f m w)) i = queued w i + 2"
  using get_file_id [OF assms(1)] by (simp add: queued_def start_conversion_def Let_def)

end
