(* ===== verification/Redoc_Css.thy ===== *)
theory Redoc_Css
  imports Oasis_Json
begin

text \<open>
  The API documentation page of the repository is rendered by the ReDoc bundle
  \<open>docs/source/_static/redoc/redoc.standalone.js\<close>. Its look is a set of styled components: template
  literals whose interpolations read the theme and the properties of the component. This theory
  has what all of them use: the tokens of a style sheet, the context of an interpolation, the
  media query helpers, and the block structure that the style sheet processor reads from the
  tokens.

  Interpolated texts are the content of tokens: the tokens are those of the style sheet processor
  where the texts have no braces, semicolons or quotes that would change them. Runs of white space
  are written as one blank, strings are UTF-8 bytes, and numbers of the theme
  are exact decimals with two places (\<open>unit: 5\<close> is 500, \<open>.2\<close> is 20).
\<close>

named_theorems css_nested

section \<open>Tokens\<close>

datatype css_tok =
    Decl string string
  | Open string
  | Close
  | Semi
  | Comment string

type_synonym css = "css_tok list"

definition quoted :: "string \<Rightarrow> string" where
  "quoted s = [CHR 0x27] @ s @ [CHR 0x27]"

section \<open>The context of an interpolation\<close>

datatype tval = T_Str string | T_Num int | T_Bool bool | T_Obj "(string \<times> tval) list"

text \<open>
  The colour functions of the library \<open>polished\<close> (darken, lighten, fade, desaturate, readable
  contrast, luminance in thousandths), which raise for a text that is not a colour, are parameters, as are the class and key frame names that
  styled-components generates.
\<close>

record polished =
  darken :: "int \<Rightarrow> string \<Rightarrow> string"
  lighten :: "int \<Rightarrow> string \<Rightarrow> string"
  transparentize :: "int \<Rightarrow> string \<Rightarrow> string"
  desaturate :: "int \<Rightarrow> string \<Rightarrow> string"
  readableColor :: "string \<Rightarrow> string"
  luminance :: "string \<Rightarrow> int"
  is_colour :: "string \<Rightarrow> bool"

record ctx =
  theme :: tval
  colour_functions :: polished
  class_of_component :: "string \<Rightarrow> string"
  keyframes_of :: "string \<Rightarrow> string"
  extensionsHook :: "(string \<Rightarrow> css) option"
  attrs :: "(string \<times> tval) list"

definition Ur :: "ctx \<Rightarrow> int \<Rightarrow> string \<Rightarrow> string" where
  "Ur e = darken (colour_functions e)"

definition Hr :: "ctx \<Rightarrow> int \<Rightarrow> string \<Rightarrow> string" where
  "Hr e = lighten (colour_functions e)"

definition Kr :: "ctx \<Rightarrow> int \<Rightarrow> string \<Rightarrow> string" where
  "Kr e = transparentize (colour_functions e)"

definition Vr :: "ctx \<Rightarrow> string \<Rightarrow> int" where
  "Vr e = luminance (colour_functions e)"

text \<open>A component in a selector stands for its class, with the leading dot.\<close>

definition class_of :: "ctx \<Rightarrow> string \<Rightarrow> string" where
  "class_of e c = ''.'' @ class_of_component e c"

definition keyframes_name :: "ctx \<Rightarrow> string \<Rightarrow> string" where
  "keyframes_name e k = keyframes_of e k"

subsection \<open>Values\<close>

text \<open>A number with two decimal places, as JavaScript prints it.\<close>

definition str_num :: "int \<Rightarrow> string" where
  "str_num n =
     (let k = nat \<bar>n\<bar>; w = k div 100; f = k mod 100 in
      (if n < 0 then ''-'' else []) @ str_nat w @
      (if f = 0 then [] else if f mod 10 = 0 then ''.'' @ str_nat (f div 10)
       else if f < 10 then ''.0'' @ str_nat f else ''.'' @ str_nat f))"

fun tget :: "tval \<Rightarrow> string list \<Rightarrow> tval option" where
  "tget v [] = Some v"
| "tget (T_Obj kvs) (k # ks) = (case map_of kvs k of None \<Rightarrow> None | Some v \<Rightarrow> tget v ks)"
| "tget _ (k # ks) = None"

text \<open>
  What \<open>flatten\<close> makes of an interpolated value: \<open>undefined\<close>, \<open>null\<close> and \<open>false\<close> vanish, any other
  value is converted to text. No component interpolates an object.
\<close>

fun flatten :: "tval option \<Rightarrow> string" where
  "flatten None = []"
| "flatten (Some (T_Str s)) = s"
| "flatten (Some (T_Num n)) = str_num n"
| "flatten (Some (T_Bool b)) = (if b then ''true'' else [])"
| "flatten (Some (T_Obj _)) = []"

fun js_truthy :: "tval option \<Rightarrow> bool" where
  "js_truthy None = False"
| "js_truthy (Some (T_Str s)) = (s \<noteq> [])"
| "js_truthy (Some (T_Num n)) = (n \<noteq> 0)"
| "js_truthy (Some (T_Bool b)) = b"
| "js_truthy (Some (T_Obj _)) = True"

fun js_num :: "tval option \<Rightarrow> int" where
  "js_num (Some (T_Num n)) = n"
| "js_num _ = 0"

definition th :: "ctx \<Rightarrow> string list \<Rightarrow> string" where
  "th e path = flatten (tget (theme e) path)"

definition theme_flag :: "ctx \<Rightarrow> string list \<Rightarrow> bool" where
  "theme_flag e path = js_truthy (tget (theme e) path)"

definition theme_num :: "ctx \<Rightarrow> string list \<Rightarrow> int" where
  "theme_num e path = js_num (tget (theme e) path)"

definition unit_px :: "ctx \<Rightarrow> int \<Rightarrow> string" where
  "unit_px e n = str_num (n * theme_num e [''spacing'', ''unit'']) @ ''px''"

definition flag :: "ctx \<Rightarrow> string \<Rightarrow> bool" where
  "flag e k = js_truthy (map_of (attrs e) k)"

definition attr :: "ctx \<Rightarrow> string \<Rightarrow> string option" where
  "attr e k = (case map_of (attrs e) k of Some (T_Str s) \<Rightarrow> Some s | _ \<Rightarrow> None)"

text \<open>A property used as a key: a missing one is the key \<open>undefined\<close>.\<close>

definition attr_key :: "ctx \<Rightarrow> string \<Rightarrow> string" where
  "attr_key e k = (case attr e k of None \<Rightarrow> ''undefined'' | Some s \<Rightarrow> s)"

definition attr_num :: "ctx \<Rightarrow> string \<Rightarrow> int option" where
  "attr_num e k = (case map_of (attrs e) k of Some (T_Num n) \<Rightarrow> Some (n div 100) | _ \<Rightarrow> None)"

definition num :: "ctx \<Rightarrow> string \<Rightarrow> int" where
  "num e k = (case attr_num e k of None \<Rightarrow> 0 | Some n \<Rightarrow> n)"

section \<open>Helpers of the components\<close>

definition lessThan :: "ctx \<Rightarrow> string \<Rightarrow> bool \<Rightarrow> string \<Rightarrow> css \<Rightarrow> css" where
  "lessThan e bp print extra inner =
     [Open (''@media '' @ (if print then ''print, '' else []) @ ''screen and (max-width: '' @
        th e [''breakpoints'', bp] @ '')'' @ extra)] @ inner @ [Semi, Close]"

definition greaterThan :: "ctx \<Rightarrow> string \<Rightarrow> css \<Rightarrow> css" where
  "greaterThan e bp inner =
     [Open (''@media (min-width: '' @ th e [''breakpoints'', bp] @ '')'')] @ inner @ [Semi, Close]"

definition between :: "ctx \<Rightarrow> string \<Rightarrow> string \<Rightarrow> css \<Rightarrow> css" where
  "between e lo hi inner =
     [Open (''@media (min-width: '' @ th e [''breakpoints'', lo] @ '') and (max-width: '' @
        th e [''breakpoints'', hi] @ '')'')] @ inner @ [Semi, Close]"

definition wa :: "ctx \<Rightarrow> string \<Rightarrow> css" where
  "wa e name = (case extensionsHook e of None \<Rightarrow> [] | Some hook \<Rightarrow> hook name)"

definition Du :: "nat \<Rightarrow> string" where
  "Du level = (if level = 1 then ''1.85714em'' else if level = 2 then ''1.57143em''
     else if level = 3 then ''1.27em'' else [])"

definition Ku :: "string \<Rightarrow> string" where
  "Ku direction = (case map_of [(''left'', ''90deg''), (''right'', ''-90deg''), (''up'', ''-180deg''), (''down'', ''0'')] direction of
     None \<Rightarrow> [] | Some s \<Rightarrow> s)"

definition response_color :: "ctx \<Rightarrow> string option \<Rightarrow> string" where
  "response_color e color =
     (if str_truthy color \<and> th e [''colors'', ''responses'', the color, ''color''] \<noteq> []
      then th e [''colors'', ''responses'', the color, ''color'']
      else str_or color [])"

definition yy :: "int \<Rightarrow> ctx \<Rightarrow> string \<Rightarrow> string" where
  "yy depth e key =
     (if 1 < depth then th e [''sidebar'', ''level1Items'', key]
      else if depth = 1 then th e [''sidebar'', ''groupItems'', key]
      else [])"

text \<open>\<open>parseInt(s, 10)\<close>: the leading digits after an optional sign; \<open>None\<close> is \<open>NaN\<close>.\<close>

definition is_digit :: "char \<Rightarrow> bool" where
  "is_digit c \<longleftrightarrow> (48::nat) \<le> of_char c \<and> of_char c \<le> (57::nat)"

definition digits_value :: "string \<Rightarrow> int" where
  "digits_value ds = foldl (\<lambda>n c. 10 * n + (of_char c - 48)) 0 ds"

definition is_space :: "char \<Rightarrow> bool" where
  "is_space c \<longleftrightarrow> c \<in> set [CHR 0x20, CHR 0x09, CHR 0x0A, CHR 0x0B, CHR 0x0C, CHR 0x0D]"

definition parse_int :: "string \<Rightarrow> int option" where
  "parse_int s0 =
     (let s = dropWhile is_space s0;
          neg = starts_with s ''-'';
          body = (if neg \<or> starts_with s ''+'' then tl s else s);
          ds = takeWhile is_digit body in
      if ds = [] then None else Some (if neg then - digits_value ds else digits_value ds))"

definition right_background_width :: "ctx \<Rightarrow> string" where
  "right_background_width e =
     (let w = th e [''rightPanel'', ''width''] in
      if ends_with w ''%''
      then ''calc((100% - '' @ th e [''sidebar'', ''width''] @ '') * '' @
           (case parse_int w of None \<Rightarrow> ''NaN'' | Some t \<Rightarrow> str_num t) @ '')''
      else w)"

section \<open>Nesting\<close>

text \<open>The block depth after reading tokens at a given depth; closing what is not open has none.\<close>

fun nest :: "nat \<Rightarrow> css \<Rightarrow> nat option" where
  "nest n [] = Some n"
| "nest n (Open s # ts) = nest (Suc n) ts"
| "nest n (Close # ts) = (case n of 0 \<Rightarrow> None | Suc m \<Rightarrow> nest m ts)"
| "nest n (Decl p v # ts) = nest n ts"
| "nest n (Semi # ts) = nest n ts"
| "nest n (Comment c # ts) = nest n ts"

definition well_nested :: "css \<Rightarrow> bool" where
  "well_nested ts \<longleftrightarrow> nest 0 ts = Some 0"

lemma nest_append: "nest n (xs @ ys) = (case nest n xs of None \<Rightarrow> None | Some m \<Rightarrow> nest m ys)"
  by (induction n xs rule: nest.induct) (auto split: nat.splits)

lemma nest_shift: "nest n ts = Some m \<Longrightarrow> nest (n + k) ts = Some (m + k)"
  by (induction n ts rule: nest.induct) (auto split: nat.splits)

lemma well_nested_at: "well_nested ts \<Longrightarrow> nest n ts = Some n"
  using nest_shift [of 0 ts 0 n] by (simp add: well_nested_def)

lemma nest_if: "nest n (if b then xs else ys) = (if b then nest n xs else nest n ys)"
  by simp

lemma well_nested_lessThan: "well_nested inner \<Longrightarrow> nest n (lessThan e bp p x inner) = Some n"
  by (simp add: lessThan_def nest_append well_nested_at)

lemma well_nested_media:
  "well_nested inner \<Longrightarrow> well_nested (lessThan e bp p x inner)"
  "well_nested inner \<Longrightarrow> well_nested (greaterThan e bp inner)"
  "well_nested inner \<Longrightarrow> well_nested (between e lo hi inner)"
  by (simp_all add: well_nested_def lessThan_def greaterThan_def between_def nest_append well_nested_at [unfolded well_nested_def])

text \<open>An extension hook is user code; the style sheet is well nested if what it returns is.\<close>

definition hook_ok :: "ctx \<Rightarrow> bool" where
  "hook_ok e \<longleftrightarrow> (\<forall>hook name. extensionsHook e = Some hook \<longrightarrow> well_nested (hook name))"

lemma wa_nested: "hook_ok e \<Longrightarrow> nest n (wa e name) = Some n"
  by (auto simp: hook_ok_def wa_def intro: well_nested_at split: option.splits)

lemmas nest_simps = nest_append nest_if well_nested_lessThan wa_nested well_nested_def

end
