(* ===== verification/Redoc_Util.thy ===== *)
theory Redoc_Util
  imports Redoc_Css "HOL-Library.Multiset"
begin

text \<open>
  Functions of the ReDoc bundle that interpret an OpenAPI document: JSON pointers, the class of a
  response code, the order of fields, and the texts shown for the limits of a schema. Numbers are
  integers.
\<close>

section \<open>JSON pointers\<close>

text \<open>\<open>s.replace(/pat/g, rep)\<close> for a literal pattern.\<close>

function replace_all :: "string \<Rightarrow> string \<Rightarrow> string \<Rightarrow> string" where
  "replace_all pat rep s =
     (case s of
        [] \<Rightarrow> []
      | c # cs \<Rightarrow>
          if pat \<noteq> [] \<and> starts_with s pat then rep @ replace_all pat rep (drop (length pat) s)
          else c # replace_all pat rep cs)"
  by pat_completeness auto
termination by (relation "measure (\<lambda>(_, _, s). length s)") auto

declare replace_all.simps [simp del]

datatype pointer_error = Invalid_Pointer string

definition escape :: "string \<Rightarrow> string" where
  "escape e = replace_all ''/'' ''~1'' (replace_all ''~'' ''~0'' e)"

definition unescape :: "string \<Rightarrow> string" where
  "unescape e = replace_all ''~0'' ''~'' (replace_all ''~1'' ''/'' e)"

definition pointer_parse :: "string \<Rightarrow> pointer_error + string list" where
  "pointer_parse e =
     (if e = [] then Inr []
      else if \<not> starts_with e ''/'' then Inl (Invalid_Pointer e)
      else Inr (map unescape (split_on (CHR ''/'') (tl e))))"

definition pointer_compile :: "string list \<Rightarrow> string" where
  "pointer_compile e = (if e = [] then [] else ''/'' @ join_with (CHR ''/'') (map escape e))"

text \<open>The class \<open>Ua\<close> of ReDoc also takes pointers that start with a hash sign.\<close>

definition Ua_parse :: "string \<Rightarrow> pointer_error + string list" where
  "Ua_parse e = pointer_parse (if starts_with e ''#'' then tl e else e)"

definition Ua_baseName :: "string \<Rightarrow> nat \<Rightarrow> pointer_error + string option" where
  "Ua_baseName e t =
     (case Ua_parse e of
        Inl er \<Rightarrow> Inl er
      | Inr n \<Rightarrow> Inr (if t \<le> length n \<and> 0 < t then Some (n ! (length n - t)) else None))"

definition Ua_dirName :: "string \<Rightarrow> nat \<Rightarrow> pointer_error + string" where
  "Ua_dirName e t =
     (case Ua_parse e of Inl er \<Rightarrow> Inl er | Inr n \<Rightarrow> Inr (pointer_compile (slice_to n (int (length n) - int t))))"

definition Ua_relative :: "string \<Rightarrow> string \<Rightarrow> pointer_error + string list" where
  "Ua_relative e t =
     (case Ua_parse e of
        Inl er \<Rightarrow> Inl er
      | Inr n \<Rightarrow> (case Ua_parse t of Inl er \<Rightarrow> Inl er | Inr m \<Rightarrow> Inr (drop (length n) m)))"

definition Ua_join :: "string \<Rightarrow> string list \<Rightarrow> pointer_error + string" where
  "Ua_join e t = (case Ua_parse e of Inl er \<Rightarrow> Inl er | Inr n \<Rightarrow> Inr (pointer_compile (n @ t)))"

lemma replace_all_Nil [simp]: "replace_all pat rep [] = []"
  by (simp add: replace_all.simps)

lemma replace_all_char:
  "replace_all [x] rep s = concat (map (\<lambda>c. if c = x then rep else [c]) s)"
  by (induction s) (auto simp: replace_all.simps starts_with_def)

text \<open>A two-character pattern that starts with a tilde.\<close>

lemma replace_tilde:
  "replace_all [CHR ''~'', x] rep (CHR ''~'' # x # s) = rep @ replace_all [CHR ''~'', x] rep s"
  "y \<noteq> x \<Longrightarrow> replace_all [CHR ''~'', x] rep (CHR ''~'' # y # s) =
     CHR ''~'' # replace_all [CHR ''~'', x] rep (y # s)"
  "c \<noteq> CHR ''~'' \<Longrightarrow> replace_all [CHR ''~'', x] rep (c # s) = c # replace_all [CHR ''~'', x] rep s"
  by (subst replace_all.simps, simp add: starts_with_def)+

definition esc_char :: "char \<Rightarrow> string" where
  "esc_char c = (if c = CHR ''~'' then ''~0'' else if c = CHR ''/'' then ''~1'' else [c])"

lemma escape_concat: "escape s = concat (map esc_char s)"
  by (induction s) (auto simp: escape_def replace_all_char esc_char_def)

lemma unescape_escape: "unescape (escape s) = s"
proof -
  let ?h = "\<lambda>c. if c = CHR ''~'' then ''~0'' else [c]"
  have 1: "replace_all ''~1'' ''/'' (concat (map esc_char s)) = concat (map ?h s)"
    by (induction s) (auto simp: esc_char_def replace_tilde)
  have 2: "replace_all ''~0'' ''~'' (concat (map ?h s)) = s"
    by (induction s) (auto simp: replace_tilde)
  show ?thesis by (simp add: unescape_def escape_concat 1 2)
qed

lemma escape_no_slash: "CHR ''/'' \<notin> set (escape s)"
  by (auto simp: escape_concat esc_char_def split: if_splits)

lemma parse_compile: "pointer_parse (pointer_compile ts) = Inr ts"
proof (cases ts)
  case (Cons t us)
  have "split_on (CHR ''/'') (join_with (CHR ''/'') (map escape ts)) = map escape ts"
    by (rule split_join) (use Cons in \<open>auto simp: escape_no_slash\<close>)
  with Cons show ?thesis
    by (simp add: pointer_parse_def pointer_compile_def starts_with_def unescape_escape comp_def)
qed (simp add: pointer_parse_def pointer_compile_def)

lemma Ua_parse_compile: "Ua_parse (pointer_compile ts) = Inr ts" "Ua_parse (CHR ''#'' # pointer_compile ts) = Inr ts"
proof -
  have "\<not> starts_with (pointer_compile ts) ''#''" by (simp add: pointer_compile_def starts_with_def)
  then show "Ua_parse (pointer_compile ts) = Inr ts" "Ua_parse (CHR ''#'' # pointer_compile ts) = Inr ts"
    by (simp_all add: Ua_parse_def parse_compile starts_with_def)
qed

text \<open>
  C39: JSON pointers round trip: parsing the compiled pointer, with or without a hash sign, gives the
  reference tokens back, whatever slashes and tildes they contain, and the last token, the parent
  and the join of a pointer are those of its tokens.
\<close>

theorem json_pointer_roundtrip:
  "Ua_parse (pointer_compile ts) = Inr ts \<and> Ua_parse (''#'' @ pointer_compile ts) = Inr ts \<and>
   Ua_baseName (pointer_compile (ts @ [t])) 1 = Inr (Some t) \<and>
   Ua_dirName (pointer_compile (ts @ [t])) 1 = Inr (pointer_compile ts) \<and>
   Ua_join (pointer_compile ts) us = Inr (pointer_compile (ts @ us)) \<and>
   Ua_relative (pointer_compile ts) (pointer_compile (ts @ us)) = Inr us"
  by (simp add: Ua_parse_compile Ua_baseName_def Ua_dirName_def Ua_join_def Ua_relative_def slice_to_def)

section \<open>Response codes\<close>

datatype status_code = Code_Num int | Code_Txt string

datatype code_type = Success | Redirect | Error_Type | Info

datatype code_error = Invalid_Http_Code

text \<open>\<open>/\dxx/i.test(e)\<close>, anywhere in the text.\<close>

fun has_dxx :: "string \<Rightarrow> bool" where
  "has_dxx (a # b # c # s) = (is_digit a \<and> lower_char b = CHR ''x'' \<and> lower_char c = CHR ''x'' \<or> has_dxx (b # c # s))"
| "has_dxx _ = False"

definition Ja :: "status_code \<Rightarrow> bool" where
  "Ja e = (case e of Code_Txt s \<Rightarrow> has_dxx s | Code_Num _ \<Rightarrow> False)"

text \<open>\<open>NaN\<close> is \<open>None\<close>; every comparison with it is false.\<close>

definition es :: "status_code \<Rightarrow> bool \<Rightarrow> code_error + code_type" where
  "es e default_is_error =
     (if e = Code_Txt ''default'' then Inr (if default_is_error then Error_Type else Success)
      else
        (case (case e of Code_Txt s \<Rightarrow> map_option (\<lambda>n. if Ja e then n * 100 else n) (parse_int s) | Code_Num n \<Rightarrow> Some n) of
           None \<Rightarrow> Inr Success
         | Some n \<Rightarrow>
             if n < 100 \<or> 599 < n then Inl Invalid_Http_Code
             else Inr (if 300 \<le> n \<and> n < 400 then Redirect else if 400 \<le> n then Error_Type
                       else if n < 200 then Info else Success)))"

section \<open>Limits of a schema\<close>

datatype exclusive = Ex_Bool bool | Ex_Num int

record limits =
  minLength :: "int option"
  maxLength :: "int option"
  minItems :: "int option"
  maxItems :: "int option"
  minProperties :: "int option"
  maxProperties :: "int option"
  multipleOf :: "string option"
  minimum :: "int option"
  maximum :: "int option"
  exclusiveMinimum :: "exclusive option"
  exclusiveMaximum :: "exclusive option"
  uniqueItems :: bool

definition hs :: "string \<Rightarrow> int option \<Rightarrow> int option \<Rightarrow> string option" where
  "hs e t n =
     (case (t, n) of
        (Some lo, Some hi) \<Rightarrow>
          Some (if lo = hi then ''= '' @ str_int lo @ '' '' @ e
                else ''[ '' @ str_int lo @ '' .. '' @ str_int hi @ '' ] '' @ e)
      | (None, Some hi) \<Rightarrow> Some (''<= '' @ str_int hi @ '' '' @ e)
      | (Some lo, None) \<Rightarrow> Some (if lo = 1 then ''non-empty'' else ''>= '' @ str_int lo @ '' '' @ e)
      | (None, None) \<Rightarrow> None)"

text \<open>The number is given as it prints; \<open>/^0\.0*1$/\<close> is a power of a tenth.\<close>

definition is_tenth :: "string \<Rightarrow> bool" where
  "is_tenth s \<longleftrightarrow> starts_with s ''0.'' \<and> dropWhile (\<lambda>c. c = CHR ''0'') (drop 2 s) = ''1''"

definition multiple_of_label :: "string option \<Rightarrow> string option" where
  "multiple_of_label e =
     (case e of
        None \<Rightarrow> None
      | Some t \<Rightarrow> Some (if is_tenth t then ''decimal places <= '' @ str_nat (length (drop 2 t)) else ''multiple of '' @ t))"

text \<open>The bounds shown, and whether they are shown as open.\<close>

definition shown_minimum :: "limits \<Rightarrow> int option" where
  "shown_minimum e =
     (case exclusiveMinimum e of
        Some (Ex_Num x) \<Rightarrow> Some (case minimum e of None \<Rightarrow> x | Some m \<Rightarrow> min x m)
      | _ \<Rightarrow> minimum e)"

definition shown_maximum :: "limits \<Rightarrow> int option" where
  "shown_maximum e =
     (case exclusiveMaximum e of
        Some (Ex_Num x) \<Rightarrow> Some (case maximum e of None \<Rightarrow> x | Some m \<Rightarrow> max x m)
      | _ \<Rightarrow> maximum e)"

definition shown_open :: "exclusive option \<Rightarrow> bool" where
  "shown_open ex = (case ex of Some (Ex_Num _) \<Rightarrow> True | Some (Ex_Bool b) \<Rightarrow> b | None \<Rightarrow> False)"

definition range_label :: "limits \<Rightarrow> string option" where
  "range_label e =
     (let r = shown_minimum e; i = shown_maximum e;
          lo_open = shown_open (exclusiveMinimum e); hi_open = shown_open (exclusiveMaximum e) in
      case (r, i) of
        (Some lo, Some hi) \<Rightarrow>
          Some ((if lo_open then ''( '' else ''[ '') @ str_int lo @ '' .. '' @ str_int hi @ (if hi_open then '' )'' else '' ]''))
      | (None, Some hi) \<Rightarrow> Some ((if hi_open then ''< '' else ''<= '') @ str_int hi)
      | (Some lo, None) \<Rightarrow> Some ((if lo_open then ''> '' else ''>= '') @ str_int lo)
      | (None, None) \<Rightarrow> None)"

definition ms :: "limits \<Rightarrow> string list" where
  "ms e =
     List.map_filter id
       [hs ''characters'' (minLength e) (maxLength e), hs ''items'' (minItems e) (maxItems e),
        hs ''properties'' (minProperties e) (maxProperties e), multiple_of_label (multipleOf e), range_label e,
        if uniqueItems e then Some ''unique'' else None]"

section \<open>Fields and menus\<close>

record field =
  field_name :: string
  field_required :: bool

definition index_of :: "string list \<Rightarrow> string \<Rightarrow> int" where
  "index_of xs x = (case find_index ((=) x) xs of None \<Rightarrow> - 1 | Some i \<Rightarrow> int i)"

definition gs :: "field list \<Rightarrow> string list \<Rightarrow> field list" where
  "gs e t =
     (let r = filter (\<lambda>f. field_required f \<and> field_name f \<in> set t) e;
          i = filter (\<lambda>f. field_required f \<and> field_name f \<notin> set t) e;
          n = filter (\<lambda>f. \<not> field_required f) e in
      sort_key (\<lambda>f. index_of t (field_name f)) r @ i @ n)"

fun oi :: "'a list \<Rightarrow> ('a \<Rightarrow> bool \<Rightarrow> 'b) \<Rightarrow> 'b list" where
  "oi [] t = []"
| "oi [x] t = [t x True]"
| "oi (x # xs) t = t x False # oi xs t"

definition si :: "string \<Rightarrow> string" where
  "si e = (if ends_with e ''/'' then take (length e - 1) e else e)"

definition xs_verb :: "string \<Rightarrow> string" where
  "xs_verb e = (case map_of [(''delete'', ''del''), (''options'', ''opts'')] e of None \<Rightarrow> e | Some v \<Rightarrow> v)"

section \<open>Properties\<close>

text \<open>The values a schema allows: numeric exclusive bounds (OpenAPI 3.1) or flags on the bounds (3.0).\<close>

definition above_minimum :: "limits \<Rightarrow> int \<Rightarrow> bool" where
  "above_minimum e x \<longleftrightarrow>
     (\<forall>m. minimum e = Some m \<longrightarrow> (if exclusiveMinimum e = Some (Ex_Bool True) then m < x else m \<le> x)) \<and>
     (\<forall>m. exclusiveMinimum e = Some (Ex_Num m) \<longrightarrow> m < x)"

definition below_maximum :: "limits \<Rightarrow> int \<Rightarrow> bool" where
  "below_maximum e x \<longleftrightarrow>
     (\<forall>m. maximum e = Some m \<longrightarrow> (if exclusiveMaximum e = Some (Ex_Bool True) then x < m else x \<le> m)) \<and>
     (\<forall>m. exclusiveMaximum e = Some (Ex_Num m) \<longrightarrow> x < m)"

definition in_shown_range :: "limits \<Rightarrow> int \<Rightarrow> bool" where
  "in_shown_range e x \<longleftrightarrow>
     (case shown_minimum e of None \<Rightarrow> True | Some lo \<Rightarrow> if shown_open (exclusiveMinimum e) then lo < x else lo \<le> x) \<and>
     (case shown_maximum e of None \<Rightarrow> True | Some hi \<Rightarrow> if shown_open (exclusiveMaximum e) then x < hi else x \<le> hi)"

definition both_bounds :: "limits \<Rightarrow> bool" where
  "both_bounds e \<longleftrightarrow>
     minimum e \<noteq> None \<and> (\<exists>m. exclusiveMinimum e = Some (Ex_Num m)) \<or>
     maximum e \<noteq> None \<and> (\<exists>m. exclusiveMaximum e = Some (Ex_Num m))"

text \<open>
  The range shown for a number contains every value the schema allows, and nothing else unless
  the schema has an inclusive and a numeric exclusive bound on the same side; then it shows the
  weaker one.
\<close>

theorem shown_range_sound:
  assumes "above_minimum e x" "below_maximum e x"
  shows "in_shown_range e x"
  using assms
  by (auto simp: above_minimum_def below_maximum_def in_shown_range_def shown_minimum_def shown_maximum_def shown_open_def
      split: option.splits exclusive.splits if_splits)

theorem shown_range_sound_witness:
  "in_shown_range \<lparr>minLength = None, maxLength = None, minItems = None, maxItems = None, minProperties = None,
     maxProperties = None, multipleOf = None, minimum = Some 5, maximum = Some 9, exclusiveMinimum = Some (Ex_Num 3),
     exclusiveMaximum = Some (Ex_Bool True), uniqueItems = False\<rparr> 5"
  by (rule shown_range_sound) (simp_all add: above_minimum_def below_maximum_def)

text \<open>
  When the schema has an inclusive and a numeric exclusive bound on the same side, the shown
  range can contain values the schema forbids; otherwise it contains exactly the allowed ones.
\<close>

theorem shown_range_exact:
  "(\<not> both_bounds e \<longrightarrow> in_shown_range e x = (above_minimum e x \<and> below_maximum e x)) \<and>
   (let f = e\<lparr>minimum := Some 5, maximum := None, exclusiveMinimum := Some (Ex_Num 3), exclusiveMaximum := None\<rparr>
    in range_label f = Some ''> 3'' \<and> in_shown_range f 4 \<and> \<not> above_minimum f 4)"
proof (intro conjI impI)
  assume "\<not> both_bounds e"
  then show "in_shown_range e x = (above_minimum e x \<and> below_maximum e x)"
    by (cases "minimum e"; cases "maximum e"; cases "exclusiveMinimum e"; cases "exclusiveMaximum e")
       (auto simp: above_minimum_def below_maximum_def in_shown_range_def shown_minimum_def shown_maximum_def
        shown_open_def both_bounds_def split: exclusive.splits if_splits)
next
  have "str_int 3 = ''3''" by code_simp
  then show "let f = e\<lparr>minimum := Some 5, maximum := None, exclusiveMinimum := Some (Ex_Num 3), exclusiveMaximum := None\<rparr>
    in range_label f = Some ''> 3'' \<and> in_shown_range f 4 \<and> \<not> above_minimum f 4"
    by (simp add: Let_def range_label_def shown_minimum_def shown_maximum_def shown_open_def in_shown_range_def above_minimum_def)
qed

lemma filter_name_key: "filter (\<lambda>f. field_name f = n) xs =
   filter (\<lambda>f. field_name f = n) (filter (\<lambda>f. index_of t (field_name f) = index_of t n) xs)"
  by (induction xs) auto

lemma filter_name_sort:
  "filter (\<lambda>f. field_name f = n) (sort_key (\<lambda>f. index_of t (field_name f)) fs) = filter (\<lambda>f. field_name f = n) fs"
  by (subst (1 2) filter_name_key [of n _ t]) (simp only: sort_key_stable)

lemma filter_required_named:
  "filter (\<lambda>f. field_name f = n) (filter (\<lambda>f. field_required f \<and> field_name f \<in> S) fs) =
     (if n \<in> S then filter (\<lambda>f. field_name f = n \<and> field_required f) fs else [])"
  by (induction fs) auto

lemma filter_optional_named:
  "filter (\<lambda>f. field_name f = n) (filter (\<lambda>f. \<not> field_required f) fs) =
     filter (\<lambda>f. field_name f = n \<and> \<not> field_required f) fs"
  by (induction fs) auto

lemma mset_gs: "mset (gs fs order) = mset fs"
  unfolding gs_def Let_def by (induction fs) auto

text \<open>
  Sorting fields by requirement keeps all fields, puts the required ones first, those named in
  the schema's list in the order of that list before the others, and keeps the order of fields
  within each group.
\<close>

theorem fields_sorted_by_requirement:
  "mset (gs fs order) = mset fs \<and>
   sorted_wrt (\<lambda>a b. field_required b \<longrightarrow> field_required a) (gs fs order) \<and>
   sorted_wrt (\<lambda>a b. field_required a \<and> field_required b \<and> field_name b \<in> set order \<longrightarrow>
     field_name a \<in> set order \<and> index_of order (field_name a) \<le> index_of order (field_name b)) (gs fs order) \<and>
   filter (\<lambda>f. \<not> field_required f) (gs fs order) = filter (\<lambda>f. \<not> field_required f) fs \<and>
   filter (\<lambda>f. field_name f = n) (gs fs order) = filter (\<lambda>f. field_name f = n \<and> field_required f) fs @
     filter (\<lambda>f. field_name f = n \<and> \<not> field_required f) fs"
proof (intro conjI)
  let ?k = "\<lambda>f. index_of order (field_name f)"
  define r where "r = filter (\<lambda>f. field_required f \<and> field_name f \<in> set order) fs"
  define i where "i = filter (\<lambda>f. field_required f \<and> field_name f \<notin> set order) fs"
  define m where "m = filter (\<lambda>f. \<not> field_required f) fs"
  have gs: "gs fs order = sort_key ?k r @ i @ m" by (simp add: gs_def r_def i_def m_def)
  have sets: "set r \<subseteq> {f. field_required f \<and> field_name f \<in> set order}"
    "set i \<subseteq> {f. field_required f \<and> field_name f \<notin> set order}" "set m \<subseteq> {f. \<not> field_required f}"
    by (auto simp: r_def i_def m_def)
  have all: "sorted_wrt P xs" if "\<And>a b. a \<in> set xs \<Longrightarrow> b \<in> set xs \<Longrightarrow> P a b" for P and xs :: "field list"
    using that by (induction xs) auto
  have "sorted_wrt (\<lambda>a b. ?k a \<le> ?k b) (sort_key ?k r)" using sorted_sort_key [of ?k r] by (simp add: sorted_map)
  then have "sorted_wrt (\<lambda>a b. field_required a \<and> field_required b \<and> field_name b \<in> set order \<longrightarrow>
      field_name a \<in> set order \<and> ?k a \<le> ?k b) (sort_key ?k r)"
    by (rule sorted_wrt_mono_rel [rotated]) (use sets in auto)
  then show "sorted_wrt (\<lambda>a b. field_required a \<and> field_required b \<and> field_name b \<in> set order \<longrightarrow>
      field_name a \<in> set order \<and> ?k a \<le> ?k b) (gs fs order)"
    using sets by (auto simp: gs sorted_wrt_append intro!: all)
  show "sorted_wrt (\<lambda>a b. field_required b \<longrightarrow> field_required a) (gs fs order)"
    using sets by (auto simp: gs sorted_wrt_append intro!: all)
  have none: "filter (\<lambda>f. \<not> field_required f) (sort_key ?k r) = []" "filter (\<lambda>f. \<not> field_required f) i = []"
    using sets by (auto simp: filter_empty_conv)
  show "filter (\<lambda>f. \<not> field_required f) (gs fs order) = filter (\<lambda>f. \<not> field_required f) fs"
    by (simp add: gs none) (simp add: m_def)
  show "filter (\<lambda>f. field_name f = n) (gs fs order) = filter (\<lambda>f. field_name f = n \<and> field_required f) fs @
      filter (\<lambda>f. field_name f = n \<and> \<not> field_required f) fs"
    using filter_required_named [of n "set order" fs] filter_required_named [of n "- set order" fs]
    by (simp add: gs filter_name_sort r_def i_def m_def filter_optional_named del: filter_filter)
qed (rule mset_gs)

theorem fields_sorted_by_requirement_witness:
  "let fs = [\<lparr>field_name = ''b'', field_required = True\<rparr>, \<lparr>field_name = ''c'', field_required = False\<rparr>,
             \<lparr>field_name = ''a'', field_required = True\<rparr>]
   in sorted_wrt (\<lambda>a b. field_required b \<longrightarrow> field_required a) (gs fs [''a'', ''b'']) \<and>
      filter (\<lambda>f. field_name f = ''b'') (gs fs [''a'', ''b'']) = [\<lparr>field_name = ''b'', field_required = True\<rparr>]"
  using fields_sorted_by_requirement [of "[\<lparr>field_name = ''b'', field_required = True\<rparr>,
    \<lparr>field_name = ''c'', field_required = False\<rparr>, \<lparr>field_name = ''a'', field_required = True\<rparr>]" "[''a'', ''b'']" "''b''"]
  unfolding Let_def by simp

text \<open>
  A numeric response code is classed by its hundreds, and codes outside 100 to 599 are
  rejected; a text that does not start with a number is classed as a success and not rejected.
\<close>

theorem response_code_classes:
  "es (Code_Num n) b = (if n < 100 \<or> 599 < n then Inl Invalid_Http_Code
     else Inr (if n div 100 = 1 then Info else if n div 100 = 2 then Success else if n div 100 = 3 then Redirect else Error_Type)) \<and>
   (parse_int s = None \<and> s \<noteq> ''default'' \<longrightarrow> es (Code_Txt s) b = Inr Success)"
  by (auto simp: es_def Ja_def)

theorem response_code_classes_witness: "es (Code_Txt ''abc'') True = Inr Success"
proof -
  have "parse_int ''abc'' = None" by code_simp
  then show ?thesis using response_code_classes [of 0 True "''abc''"] by simp
qed

theorem shown_range_exact_witness:
  "in_shown_range \<lparr>minLength = None, maxLength = None, minItems = None, maxItems = None, minProperties = None,
     maxProperties = None, multipleOf = None, minimum = Some 5, maximum = Some 9, exclusiveMinimum = Some (Ex_Bool True),
     exclusiveMaximum = None, uniqueItems = False\<rparr> 5 = False"
proof -
  let ?l = "\<lparr>minLength = None, maxLength = None, minItems = None, maxItems = None, minProperties = None,
     maxProperties = None, multipleOf = None, minimum = Some 5, maximum = Some 9, exclusiveMinimum = Some (Ex_Bool True),
     exclusiveMaximum = None, uniqueItems = False\<rparr>"
  have "\<not> both_bounds ?l" by (simp add: both_bounds_def)
  then have "in_shown_range ?l 5 = (above_minimum ?l 5 \<and> below_maximum ?l 5)" using shown_range_exact [of ?l 5] by blast
  then show ?thesis by (simp add: above_minimum_def)
qed

end
