(* ===== verification/Redoc_Text.thy ===== *)
theory Redoc_Text
  imports Redoc_Util
begin

text \<open>
  Encodings of text in the ReDoc bundle: URI components as JavaScript encodes and decodes them, and
  the rendering of JSON samples as HTML. Strings are UTF-8 bytes, numbers are integers.
\<close>

section \<open>URI components\<close>

text \<open>\<open>encodeURI\<close> on UTF-8 bytes.\<close>

definition hex_digit :: "nat \<Rightarrow> char" where
  "hex_digit n = ''0123456789ABCDEF'' ! n"

definition uri_char :: "char \<Rightarrow> bool" where
  "uri_char c \<longleftrightarrow> (let n = of_char c :: nat in
     65 \<le> n \<and> n \<le> 90 \<or> 97 \<le> n \<and> n \<le> 122 \<or> 48 \<le> n \<and> n \<le> 57 \<or> c = CHR 0x27 \<or> c \<in> set '';,/?:@&=+$-_.!~*()#'')"

definition encodeURI :: "string \<Rightarrow> string" where
  "encodeURI s = concat (map (\<lambda>c. if uri_char c then [c]
     else [CHR ''%'', hex_digit (of_char c div 16), hex_digit (of_char c mod 16)]) s)"

text \<open>\<open>decodeURIComponent\<close>: percent escapes are bytes, and the result has to be UTF-8.\<close>

definition hex_value :: "char \<Rightarrow> nat option" where
  "hex_value c = (let n = of_char c :: nat in
     if 48 \<le> n \<and> n \<le> 57 then Some (n - 48) else if 65 \<le> n \<and> n \<le> 70 then Some (n - 55)
     else if 97 \<le> n \<and> n \<le> 102 then Some (n - 87) else None)"

fun percent_decode :: "string \<Rightarrow> string option" where
  "percent_decode [] = Some []"
| "percent_decode (c # cs) =
     (if c \<noteq> CHR ''%'' then map_option ((#) c) (percent_decode cs)
      else (case cs of
              a # b # rest \<Rightarrow>
                (case (hex_value a, hex_value b) of
                   (Some x, Some y) \<Rightarrow> map_option ((#) (char_of (16 * x + y))) (percent_decode rest)
                 | _ \<Rightarrow> None)
            | _ \<Rightarrow> None))"

definition cont_byte :: "char \<Rightarrow> bool" where
  "cont_byte c \<longleftrightarrow> 128 \<le> (of_char c :: nat) \<and> (of_char c :: nat) \<le> 191"

fun utf8_ok :: "string \<Rightarrow> bool" where
  "utf8_ok [] = True"
| "utf8_ok (c # cs) =
     (let n = of_char c :: nat in
      if n < 128 then utf8_ok cs
      else if 194 \<le> n \<and> n \<le> 223 then (case cs of a # r \<Rightarrow> cont_byte a \<and> utf8_ok r | _ \<Rightarrow> False)
      else if 224 \<le> n \<and> n \<le> 239 then
        (case cs of a # b # r \<Rightarrow> cont_byte a \<and> cont_byte b \<and> (n = 224 \<longrightarrow> 160 \<le> (of_char a :: nat)) \<and>
             (n = 237 \<longrightarrow> (of_char a :: nat) \<le> 159) \<and> utf8_ok r
         | _ \<Rightarrow> False)
      else if 240 \<le> n \<and> n \<le> 244 then
        (case cs of a # b # d # r \<Rightarrow> cont_byte a \<and> cont_byte b \<and> cont_byte d \<and> (n = 240 \<longrightarrow> 144 \<le> (of_char a :: nat)) \<and>
             (n = 244 \<longrightarrow> (of_char a :: nat) \<le> 143) \<and> utf8_ok r
         | _ \<Rightarrow> False)
      else False)"

definition decodeURIComponent :: "string \<Rightarrow> string option" where
  "decodeURIComponent s = (case percent_decode s of None \<Rightarrow> None | Some d \<Rightarrow> if utf8_ok d then Some d else None)"


lemma hex_digit_value: "n < 16 \<Longrightarrow> hex_value (hex_digit n) = Some n"
proof -
  assume "n < 16"
  then have "n \<in> set [0 ..< 16]" by simp
  moreover have "\<forall>n \<in> set [0 ..< 16]. hex_value (hex_digit n) = Some n" by code_simp
  ultimately show ?thesis by blast
qed

lemma char_halves: "of_char (c :: char) div 16 < (16 :: nat)" "of_char c mod 16 < (16 :: nat)"
proof -
  have "of_char c < (16 * 16 :: nat)" by simp
  then show "of_char c div 16 < (16 :: nat)" by (simp only: less_mult_imp_div_less)
qed simp

lemma percent_decode_char:
  "percent_decode ((if uri_char c then [c] else [CHR ''%'', hex_digit (of_char c div 16), hex_digit (of_char c mod 16)]) @ s) =
     map_option ((#) c) (percent_decode s)"
proof (cases "uri_char c")
  case True
  then have "c \<noteq> CHR ''%''" by (auto simp: uri_char_def)
  then show ?thesis using True by simp
next
  case False
  have "hex_value (hex_digit (of_char c div 16)) = Some (of_char c div 16)"
    "hex_value (hex_digit (of_char c mod 16)) = Some (of_char c mod 16)"
    by (simp_all add: hex_digit_value char_halves)
  moreover have "16 * (of_char c div 16) + of_char c mod 16 = (of_char c :: nat)" by simp
  ultimately show ?thesis using False by simp
qed

lemma percent_decode_encodeURI: "percent_decode (encodeURI s) = Some s"
proof (induction s)
  case (Cons c s)
  have "encodeURI (c # s) = (if uri_char c then [c] else [CHR ''%'', hex_digit (of_char c div 16), hex_digit (of_char c mod 16)]) @ encodeURI s"
    by (simp add: encodeURI_def)
  then show ?case using Cons percent_decode_char [of c "encodeURI s"] by (simp del: percent_decode.simps)
qed (simp add: encodeURI_def)

text \<open>Writing an identifier to the location and reading it back.\<close>

lemma decode_encode: "utf8_ok s \<Longrightarrow> decodeURIComponent (encodeURI s) = Some s"
  by (simp add: decodeURIComponent_def percent_decode_encodeURI)

lemma encodeURI_chars: "c \<in> set (encodeURI s) \<Longrightarrow> c \<notin> set [CHR 0x22, CHR ''<'', CHR ''>'', CHR '' '']"
proof -
  have hex: "hex_digit n \<notin> set [CHR 0x22, CHR ''<'', CHR ''>'', CHR '' '']" if "n < 16" for n
  proof -
    have "n \<in> set [0 ..< 16]" using that by simp
    moreover have "\<forall>n \<in> set [0 ..< 16]. hex_digit n \<notin> set [CHR 0x22, CHR ''<'', CHR ''>'', CHR '' '']" by code_simp
    ultimately show ?thesis by blast
  qed
  assume "c \<in> set (encodeURI s)"
  then obtain d where "c = d \<and> uri_char d \<or> c = CHR ''%'' \<or> c = hex_digit (of_char d div 16) \<or> c = hex_digit (of_char d mod 16)"
    by (auto simp: encodeURI_def split: if_splits)
  then show ?thesis using hex [OF char_halves(1) [of d]] hex [OF char_halves(2) [of d]] by (auto simp: uri_char_def)
qed

section \<open>Samples as HTML\<close>

text \<open>\<open>rh\<close>: escaping for HTML.\<close>

definition rh :: "string \<Rightarrow> string" where
  "rh e = replace_all ''>'' ''&gt;'' (replace_all ''<'' ''&lt;'' (replace_all [CHR 0x22] ''&quot;'' (replace_all ''&'' ''&amp;'' e)))"

text \<open>\<open>ih\<close>: the text of a string literal of JSON without the quotes.\<close>

definition json_char :: "char \<Rightarrow> string" where
  "json_char c =
     (let n = of_char c :: nat in
      if c = CHR 0x22 then [CHR 0x5C, CHR 0x22] else if c = CHR 0x5C then [CHR 0x5C, CHR 0x5C]
      else if n = 8 then [CHR 0x5C, CHR ''b''] else if n = 9 then [CHR 0x5C, CHR ''t''] else if n = 10 then [CHR 0x5C, CHR ''n'']
      else if n = 12 then [CHR 0x5C, CHR ''f''] else if n = 13 then [CHR 0x5C, CHR ''r'']
      else if n < 32 then CHR 0x5C # ''u00'' @ map lower_char [hex_digit (n div 16), hex_digit (n mod 16)] else [c])"

definition ih :: "string \<Rightarrow> string" where
  "ih e = concat (map json_char e)"

definition oh :: "string \<Rightarrow> string \<Rightarrow> string" where
  "oh e cls = ''<span class='' @ [CHR 0x22] @ cls @ [CHR 0x22] @ ''>'' @ rh e @ ''</span>''"

definition ah :: "string \<Rightarrow> string" where
  "ah e = ''<span class='' @ [CHR 0x22] @ ''token punctuation'' @ [CHR 0x22] @ ''>'' @ e @ ''</span>''"

text \<open>White space of JavaScript regular expressions, as UTF-8 bytes.\<close>

definition wide_spaces :: "string list" where
  "wide_spaces = map (map char_of)
     ([[194, 160], [225, 154, 128 :: nat], [226, 128, 168], [226, 128, 169], [226, 128, 175], [226, 129, 159], [227, 128, 128],
       [239, 187, 191]] @ map (\<lambda>n. [226, 128, n]) [128 ..< 139])"

fun has_space :: "string \<Rightarrow> bool" where
  "has_space [] = False"
| "has_space (c # cs) = (is_space c \<or> (\<exists>w \<in> set wide_spaces. starts_with (c # cs) w) \<or> has_space cs)"

definition is_link :: "string \<Rightarrow> bool" where
  "is_link e \<longleftrightarrow> (\<exists>pre \<in> set [''http://'', ''https://'']. starts_with e pre \<and> drop (length pre) e \<noteq> [] \<and> \<not> has_space (drop (length pre) e))"

definition link_html :: "string \<Rightarrow> string" where
  "link_html s = ''<a href='' @ [CHR 0x22] @ encodeURI s @ [CHR 0x22] @ ''>'' @ rh (ih s) @ ''</a>''"

definition key_html :: "string \<Rightarrow> string" where
  "key_html k = ''<span class='' @ [CHR 0x22] @ ''property token string'' @ [CHR 0x22] @ ''>'' @ [CHR 0x22] @ rh k @ [CHR 0x22] @ ''</span>: ''"

text \<open>
  \<open>sh\<close>: the rendering of a value. The first argument is the counter \<open>th\<close>, the second the level from
  which on values are collapsed (\<open>None\<close> is no limit).
\<close>

definition beyond :: "nat \<Rightarrow> nat option \<Rightarrow> bool" where
  "beyond level limit = (case limit of None \<Rightarrow> False | Some t \<Rightarrow> t < level)"

definition opening_html :: "nat \<Rightarrow> nat option \<Rightarrow> string \<Rightarrow> string \<Rightarrow> string" where
  "opening_html level limit bracket cls =
     ''<button class='' @ [CHR 0x22] @ ''collapser'' @ [CHR 0x22] @ '' aria-label='' @ [CHR 0x22] @
     (if beyond level (map_option Suc limit) then ''expand'' else ''collapse'') @ [CHR 0x22] @ ''></button>'' @ ah bracket @
     ''<span class='' @ [CHR 0x22] @ ''ellipsis'' @ [CHR 0x22] @ ''></span><ul class='' @ [CHR 0x22] @ cls @ [CHR 0x22] @ ''>''"

definition row_open :: "nat \<Rightarrow> nat option \<Rightarrow> string" where
  "row_open level limit = ''<li><div class='' @ [CHR 0x22] @ ''hoverable '' @ (if beyond level limit then ''collapsed'' else []) @ [CHR 0x22] @ ''>''"

definition row_close :: string where
  "row_close = ''</div></li>''"

fun sh :: "nat \<Rightarrow> nat option \<Rightarrow> json \<Rightarrow> string"
  and sh_items :: "nat \<Rightarrow> nat option \<Rightarrow> json list \<Rightarrow> string"
  and sh_fields :: "nat \<Rightarrow> nat option \<Rightarrow> (string \<times> json) list \<Rightarrow> string" where
  "sh level limit JNull = oh ''null'' ''token keyword''"
| "sh level limit (JBool b) = oh (if b then ''true'' else ''false'') ''token boolean''"
| "sh level limit (JInt n) = oh (str_int n) ''token number''"
| "sh level limit (JStr s) =
     (if is_link s
      then oh [CHR 0x22] ''token string'' @ link_html s @ oh [CHR 0x22] ''token string''
      else oh ([CHR 0x22] @ ih s @ [CHR 0x22]) ''token string'')"
| "sh level limit (JArr xs) =
     (if xs = [] then ah ''[ ]''
      else opening_html (Suc level) limit ''['' ''array collapsible'' @ sh_items (Suc level) limit xs @ ''</ul>'' @ ah '']'')"
| "sh level limit (JObj kvs) =
     (if kvs = [] then ah ''{ }''
      else opening_html (Suc level) limit ''{'' ''obj collapsible'' @ sh_fields (Suc level) limit kvs @ ''</ul>'' @ ah ''}'')"
| "sh_items level limit [] = []"
| "sh_items level limit (x # xs) =
     row_open level limit @ sh level limit x @ (if xs = [] then [] else '','') @ row_close @ sh_items level limit xs"
| "sh_fields level limit [] = []"
| "sh_fields level limit ((k, v) # kvs) =
     row_open level limit @ key_html k @ sh level limit v @ (if kvs = [] then [] else ah '','') @ row_close @
     sh_fields level limit kvs"

definition nh :: "json \<Rightarrow> nat option \<Rightarrow> string" where
  "nh e limit = ''<div class='' @ [CHR 0x22] @ ''redoc-json'' @ [CHR 0x22] @ ''><code>'' @ sh 1 limit e @ ''</code></div>''"

section \<open>What a browser makes of it\<close>

text \<open>
  Scanning HTML: the text outside of tags, and the tags. A double quote inside of a tag starts an
  attribute value, which may contain any character up to the next quote.
\<close>

datatype scan_mode = Text_Mode | Tag_Mode | Value_Mode

fun next_mode :: "scan_mode \<Rightarrow> char \<Rightarrow> scan_mode" where
  "next_mode Text_Mode c = (if c = CHR ''<'' then Tag_Mode else Text_Mode)"
| "next_mode Tag_Mode c = (if c = CHR ''>'' then Text_Mode else if c = CHR 0x22 then Value_Mode else Tag_Mode)"
| "next_mode Value_Mode c = (if c = CHR 0x22 then Tag_Mode else Value_Mode)"

fun scan :: "scan_mode \<Rightarrow> string \<Rightarrow> scan_mode" where
  "scan m [] = m"
| "scan m (c # cs) = scan (next_mode m c) cs"

fun outside :: "scan_mode \<Rightarrow> string \<Rightarrow> string" where
  "outside m [] = []"
| "outside m (c # cs) = (if m = Text_Mode \<and> c \<noteq> CHR ''<'' then [c] else []) @ outside (next_mode m c) cs"

definition entities :: "(string \<times> char) list" where
  "entities = [(''&amp;'', CHR ''&''), (''&quot;'', CHR 0x22), (''&lt;'', CHR ''<''), (''&gt;'', CHR ''>'')]"

function unentity :: "string \<Rightarrow> string" where
  "unentity s =
     (case s of
        [] \<Rightarrow> []
      | c # cs \<Rightarrow>
          (case List.find (\<lambda>(e, _). starts_with s e) entities of
             Some (e, d) \<Rightarrow> d # unentity (drop (max 1 (length e)) s)
           | None \<Rightarrow> c # unentity cs))"
  by pat_completeness auto
termination by (relation "measure length") auto

declare unentity.simps [simp del]

definition text_of :: "string \<Rightarrow> string" where
  "text_of h = unentity (outside Text_Mode h)"

text \<open>The text of a value as it is meant to be read.\<close>

fun json_text :: "json \<Rightarrow> string"
  and items_text :: "json list \<Rightarrow> string"
  and fields_text :: "(string \<times> json) list \<Rightarrow> string" where
  "json_text JNull = ''null''"
| "json_text (JBool b) = (if b then ''true'' else ''false'')"
| "json_text (JInt n) = str_int n"
| "json_text (JStr s) = [CHR 0x22] @ ih s @ [CHR 0x22]"
| "json_text (JArr xs) = (if xs = [] then ''[ ]'' else ''['' @ items_text xs @ '']'')"
| "json_text (JObj kvs) = (if kvs = [] then ''{ }'' else ''{'' @ fields_text kvs @ ''}'')"
| "items_text [] = []"
| "items_text (x # xs) = json_text x @ (if xs = [] then [] else '','') @ items_text xs"
| "fields_text [] = []"
| "fields_text ((k, v) # kvs) = [CHR 0x22] @ k @ [CHR 0x22] @ '': '' @ json_text v @ (if kvs = [] then [] else '','') @ fields_text kvs"

lemma scan_append: "scan m (xs @ ys) = scan (scan m xs) ys"
  by (induction xs arbitrary: m) simp_all

lemma outside_append: "outside m (xs @ ys) = outside m xs @ outside (scan m xs) ys"
  by (induction xs arbitrary: m) simp_all

text \<open>Escaped text is a run of text whose entities decode to the original.\<close>

definition html_char :: "char \<Rightarrow> string" where
  "html_char c = (if c = CHR ''&'' then ''&amp;'' else if c = CHR 0x22 then ''&quot;'' else if c = CHR ''<'' then ''&lt;''
     else if c = CHR ''>'' then ''&gt;'' else [c])"

lemma rh_concat: "rh s = concat (map html_char s)"
  by (induction s) (auto simp: rh_def replace_all_char html_char_def)

lemma text_run: "CHR ''<'' \<notin> set s \<Longrightarrow> outside Text_Mode s = s \<and> scan Text_Mode s = Text_Mode"
  by (induction s) auto

lemma rh_no_tag: "CHR ''<'' \<notin> set (rh s)"
  by (auto simp: rh_concat html_char_def split: if_splits)

lemma unentity_plain: "c \<noteq> CHR ''&'' \<Longrightarrow> unentity (c # s) = c # unentity s"
  by (subst unentity.simps) (simp add: entities_def starts_with_def)

lemma unentity_html_char: "unentity (html_char c @ s) = c # unentity s"
  by (subst unentity.simps) (auto simp: html_char_def entities_def starts_with_def)

lemma unentity_rh: "unentity (rh s @ ys) = s @ unentity ys"
  by (induction s) (simp_all add: rh_concat unentity_html_char)

lemma unentity_run: "CHR ''&'' \<notin> set s \<Longrightarrow> unentity (s @ ys) = s @ unentity ys"
  by (induction s) (auto simp: unentity_plain)

definition text_in :: "scan_mode \<Rightarrow> string \<Rightarrow> string" where
  "text_in m h = unentity (outside m h)"

lemma text_in_simps:
  "text_in Text_Mode (CHR ''<'' # h) = text_in Tag_Mode h"
  "c \<noteq> CHR ''<'' \<Longrightarrow> c \<noteq> CHR ''&'' \<Longrightarrow> text_in Text_Mode (c # h) = c # text_in Text_Mode h"
  "text_in Tag_Mode (c # h) = text_in (next_mode Tag_Mode c) h"
  "text_in Value_Mode (c # h) = text_in (next_mode Value_Mode c) h"
  "text_of h = text_in Text_Mode h" "text_in m [] = []"
  by (simp_all add: text_in_def text_of_def unentity_plain) (simp add: unentity.simps)

lemma text_in_rh: "text_in Text_Mode (rh s @ h) = s @ text_in Text_Mode h"
  using text_run [OF rh_no_tag, of s] by (simp add: text_in_def outside_append unentity_rh)

lemma text_in_value: "CHR 0x22 \<notin> set s \<Longrightarrow> text_in Value_Mode (s @ h) = text_in Value_Mode h"
  by (induction s) (auto simp: text_in_simps)

lemma text_oh: "CHR 0x22 \<notin> set cls \<Longrightarrow> text_in Text_Mode (oh e cls @ h) = e @ text_in Text_Mode h"
  by (simp add: oh_def text_in_simps text_in_value text_in_rh)

lemma text_ah: "CHR ''<'' \<notin> set e \<Longrightarrow> CHR ''&'' \<notin> set e \<Longrightarrow> text_in Text_Mode (ah e @ h) = e @ text_in Text_Mode h"
proof (induction e)
  case (Cons c e)
  then show ?case by (auto simp: ah_def text_in_simps)
qed (simp add: ah_def text_in_simps)

lemma text_rows:
  "text_in Text_Mode (row_open level limit @ h) = text_in Text_Mode h" "text_in Text_Mode (row_close @ h) = text_in Text_Mode h"
  by (simp_all add: row_open_def row_close_def text_in_simps)

lemma text_opening:
  "CHR 0x22 \<notin> set cls \<Longrightarrow> CHR ''<'' \<notin> set b \<Longrightarrow> CHR ''&'' \<notin> set b \<Longrightarrow>
     text_in Text_Mode (opening_html level limit b cls @ h) = b @ text_in Text_Mode h"
  by (simp add: opening_html_def text_in_simps text_in_value text_ah)


lemma encodeURI_no_quote: "CHR 0x22 \<notin> set (encodeURI s)"
  using encodeURI_chars by fastforce

lemma text_link: "text_in Text_Mode (link_html s @ h) = ih s @ text_in Text_Mode h"
  by (simp add: link_html_def text_in_simps text_in_value text_in_rh encodeURI_no_quote)

lemma text_key: "text_in Text_Mode (key_html k @ h) = [CHR 0x22] @ k @ [CHR 0x22] @ '': '' @ text_in Text_Mode h"
  by (simp add: key_html_def text_in_simps text_in_rh)

lemmas html_text = text_in_simps text_in_rh text_in_value text_oh text_ah text_rows text_opening text_link text_key

lemma text_sh:
  "text_in Text_Mode (sh level limit e @ h) = json_text e @ text_in Text_Mode h"
  "text_in Text_Mode (sh_items level limit xs @ h) = items_text xs @ text_in Text_Mode h"
  "text_in Text_Mode (sh_fields level limit kvs @ h) = fields_text kvs @ text_in Text_Mode h"
  by (induction level limit e and level limit xs and level limit kvs arbitrary: h and h and h rule: sh_sh_items_sh_fields.induct)
     (simp_all add: html_text)

text \<open>The tags of a text, without the angle brackets.\<close>

fun tags :: "scan_mode \<Rightarrow> string \<Rightarrow> string \<Rightarrow> string list" where
  "tags m acc [] = []"
| "tags Text_Mode acc (c # cs) = tags (next_mode Text_Mode c) [] cs"
| "tags Tag_Mode acc (c # cs) = (if c = CHR ''>'' then rev acc # tags Text_Mode [] cs else tags (next_mode Tag_Mode c) (c # acc) cs)"
| "tags Value_Mode acc (c # cs) = tags (next_mode Value_Mode c) (c # acc) cs"

definition attr_tag :: "string \<Rightarrow> string \<Rightarrow> string" where
  "attr_tag t v = t @ [CHR 0x22] @ v @ [CHR 0x22]"

definition sample_tags :: "string list" where
  "sample_tags = [''div'', ''/div'', ''code'', ''/code'', ''li'', ''/li'', ''/ul'', ''/span'', ''/button'', ''/a''] @
     map (attr_tag ''span class='') [''token keyword'', ''token boolean'', ''token number'', ''token string'', ''token punctuation'',
       ''property token string'', ''ellipsis''] @
     map (attr_tag ''ul class='') [''array collapsible'', ''obj collapsible''] @
     map (attr_tag ''div class='') [''redoc-json'', ''hoverable '', ''hoverable collapsed''] @
     map (\<lambda>l. attr_tag (attr_tag ''button class='' ''collapser'' @ '' aria-label='') l) [''expand'', ''collapse'']"

definition safe_tag :: "string \<Rightarrow> bool" where
  "safe_tag t \<longleftrightarrow> t \<in> set sample_tags \<or> (\<exists>s. is_link s \<and> t = attr_tag ''a href='' (encodeURI s))"

lemma tags_text: "CHR ''<'' \<notin> set s \<Longrightarrow> tags Text_Mode acc (s @ h) = tags Text_Mode [] h"
proof (induction s arbitrary: acc)
  case Nil
  then show ?case by (cases h) simp_all
qed auto

lemma tags_value: "CHR 0x22 \<notin> set s \<Longrightarrow> tags Value_Mode acc (s @ h) = tags Value_Mode (rev s @ acc) h"
  by (induction s arbitrary: acc) auto

lemma list_all_tags_oh:
  "cls \<in> set [''token keyword'', ''token boolean'', ''token number'', ''token string''] \<Longrightarrow>
     list_all safe_tag (tags Text_Mode [] (oh e cls @ h)) = list_all safe_tag (tags Text_Mode [] h)"
  by (auto simp: oh_def tags_text [OF rh_no_tag] safe_tag_def sample_tags_def attr_tag_def)

lemma list_all_tags_ah:
  "CHR ''<'' \<notin> set e \<Longrightarrow> list_all safe_tag (tags Text_Mode [] (ah e @ h)) = list_all safe_tag (tags Text_Mode [] h)"
  by (simp add: ah_def tags_text safe_tag_def sample_tags_def attr_tag_def)

lemma list_all_tags_rows:
  "list_all safe_tag (tags Text_Mode [] (row_open level limit @ h)) = list_all safe_tag (tags Text_Mode [] h)"
  "list_all safe_tag (tags Text_Mode [] (row_close @ h)) = list_all safe_tag (tags Text_Mode [] h)"
  by (simp_all add: row_open_def row_close_def safe_tag_def sample_tags_def attr_tag_def)

lemma list_all_tags_opening:
  "cls \<in> set [''array collapsible'', ''obj collapsible''] \<Longrightarrow> CHR ''<'' \<notin> set b \<Longrightarrow>
     list_all safe_tag (tags Text_Mode [] (opening_html level limit b cls @ h)) = list_all safe_tag (tags Text_Mode [] h)"
  by (auto simp: opening_html_def ah_def tags_text safe_tag_def sample_tags_def attr_tag_def)

lemma list_all_tags_link:
  "is_link s \<Longrightarrow> list_all safe_tag (tags Text_Mode [] (link_html s @ h)) = list_all safe_tag (tags Text_Mode [] h)"
  by (auto simp: link_html_def tags_text [OF rh_no_tag] tags_value encodeURI_no_quote safe_tag_def sample_tags_def attr_tag_def)

lemma list_all_tags_key:
  "list_all safe_tag (tags Text_Mode [] (key_html k @ h)) = list_all safe_tag (tags Text_Mode [] h)"
  by (simp add: key_html_def tags_text [OF rh_no_tag] safe_tag_def sample_tags_def attr_tag_def)

lemma safe_close: "safe_tag ''/ul''" "safe_tag ''/code''" "safe_tag ''/div''" "safe_tag ''code''"
  by (simp_all add: safe_tag_def sample_tags_def)

lemmas safe_tags = list_all_tags_oh list_all_tags_ah list_all_tags_rows list_all_tags_opening list_all_tags_link list_all_tags_key

lemma safe_sh:
  "list_all safe_tag (tags Text_Mode [] (sh level limit e @ h)) = list_all safe_tag (tags Text_Mode [] h)"
  "list_all safe_tag (tags Text_Mode [] (sh_items level limit xs @ h)) = list_all safe_tag (tags Text_Mode [] h)"
  "list_all safe_tag (tags Text_Mode [] (sh_fields level limit kvs @ h)) = list_all safe_tag (tags Text_Mode [] h)"
  by (induction level limit e and level limit xs and level limit kvs arbitrary: h and h and h rule: sh_sh_items_sh_fields.induct)
     (simp_all add: safe_tags safe_close)

section \<open>Properties\<close>

text \<open>
  C20: The HTML of a sample shows exactly the text of the sample: no character of the sample, whatever
  it is, becomes markup, is lost or is decoded differently.
\<close>

theorem sample_html_shows_sample:
  "text_of (nh e limit) = json_text e"
  by (simp add: nh_def html_text text_sh)

text \<open>
  C21: The HTML of a sample has no other tags than those of the renderer, and the only attribute that
  depends on the sample is the target of a link, which is an encoded http or https address.
\<close>

theorem sample_html_has_safe_tags:
  "list_all (\<lambda>t. t \<in> set sample_tags \<or> (\<exists>s. is_link s \<and> t = ''a href='' @ [CHR 0x22] @ encodeURI s @ [CHR 0x22]))
     (tags Text_Mode [] (nh e limit))"
proof -
  have "safe_tag (attr_tag ''div class='' ''redoc-json'')" by (simp add: safe_tag_def sample_tags_def)
  then have "list_all safe_tag (tags Text_Mode [] (nh e limit))"
    by (simp add: nh_def safe_sh safe_close attr_tag_def)
  then show ?thesis by (simp add: safe_tag_def attr_tag_def cong: list_all_cong)
qed

end
