(* ===== verification/Redoc_Menu.thy ===== *)
theory Redoc_Menu
  imports Complex_Main Redoc_Text
begin

text \<open>
  The menu of the ReDoc page: the items built from the document (class \<open>hf\<close>, items \<open>rf\<close> and \<open>Tu\<close>) and
  the store that keeps the active item in step with scrolling, the location hash and clicks (class
  \<open>vf\<close>).

  Items refer to their parents and are shared between lists, so they live in a store of objects: an
  item is the position of its object. The page is a function from section identifiers to the vertical
  position of their elements. Writing the location and scrolling the page are requests that the
  model records in order; the location is written by a debounced function, so its notification is a
  separate event.
\<close>

section \<open>Items\<close>

datatype item_type = Group | Section | Tag | Schema_Item | Operation

record menu_item =
  mi_id :: string
  mi_type :: item_type
  mi_name :: string
  mi_depth :: int
  mi_parent :: "nat option"
  mi_items :: "nat list"
  mi_active :: bool
  mi_expanded :: bool
  mi_absoluteIdx :: "nat option"

type_synonym objects = "menu_item list"

definition type_text :: "item_type \<Rightarrow> string" where
  "type_text t = (case t of Group \<Rightarrow> ''group'' | Section \<Rightarrow> ''section'' | Tag \<Rightarrow> ''tag'' | Schema_Item \<Rightarrow> ''schema''
     | Operation \<Rightarrow> ''operation'')"

text \<open>
  The constructor \<open>rf\<close>. The slug function is a parameter, and so is the name that sorting uses to
  collate texts below.
\<close>

definition rf :: "(string \<Rightarrow> string) \<Rightarrow> item_type \<Rightarrow> string option \<Rightarrow> string \<Rightarrow> string option \<Rightarrow> nat option \<Rightarrow> int \<Rightarrow> menu_item" where
  "rf slug t given_id name displayName parent depth =
     \<lparr>mi_id = (if str_truthy given_id then the given_id else type_text t @ ''/'' @ slug name),
      mi_type = t, mi_name = str_or displayName name, mi_depth = depth, mi_parent = parent, mi_items = [],
      mi_active = False, mi_expanded = (t = Group), mi_absoluteIdx = None\<rparr>"

record operation =
  op_operationId :: "string option"
  op_pointer :: string
  op_name :: string

text \<open>The constructor \<open>Tu\<close> of an operation that is not a callback.\<close>

definition Tu :: "operation \<Rightarrow> (nat \<times> string) option \<Rightarrow> int \<Rightarrow> menu_item" where
  "Tu op parent depth =
     \<lparr>mi_id =
        (case op_operationId op of
           Some oid \<Rightarrow> (case parent of None \<Rightarrow> [] | Some (_, pid) \<Rightarrow> pid @ ''/'') @
                       (if oid = [] then [] else ''operation/'' @ oid)
         | None \<Rightarrow> (case parent of None \<Rightarrow> op_pointer op | Some (_, pid) \<Rightarrow> pid @ op_pointer op)),
      mi_type = Operation, mi_name = op_name op, mi_depth = depth, mi_parent = map_option fst parent, mi_items = [],
      mi_active = False, mi_expanded = False, mi_absoluteIdx = None\<rparr>"

section \<open>Building the menu\<close>

text \<open>The headings that the Markdown renderer found in a description, with their identifiers.\<close>

datatype heading = Heading "string option" string "heading list"

record tag =
  tag_id :: "string option"
  tag_name :: string
  tag_displayName :: "string option"
  tag_headings :: "heading list"
  tag_operations :: "operation list"

record tag_group =
  group_id :: "string option"
  group_name :: string
  group_displayName :: "string option"
  group_tags :: "string list"

record api_spec =
  spec_headings :: "heading list"
  spec_tags :: "tag list"
  spec_tagGroups :: "tag_group list"
  spec_schemas :: "(string \<times> string option \<times> string list) list"

record menu_options =
  sortTagsAlphabetically :: bool
  sortOperationsAlphabetically :: bool
  slug :: "string \<Rightarrow> string"
  collate :: "string \<Rightarrow> rat"

definition set_items :: "nat \<Rightarrow> nat list \<Rightarrow> objects \<Rightarrow> objects" where
  "set_items a cs st = st[a := (st ! a)\<lparr>mi_items := cs\<rparr>]"

fun addMarkdownItems :: "menu_options \<Rightarrow> nat option \<Rightarrow> heading list \<Rightarrow> int \<Rightarrow> objects \<Rightarrow> nat list \<times> objects" where
  "addMarkdownItems opts parent [] n st = ([], st)"
| "addMarkdownItems opts parent (Heading hid name subs # hds) n st =
     (let r = length st;
          (cs, st1) = addMarkdownItems opts (Some r) subs (n + 1) (st @ [rf (slug opts) Section hid name None parent n]);
          (rest, st2) = addMarkdownItems opts parent hds n (set_items r cs st1)
      in (r # rest, st2))"

text \<open>Allocating a list of objects.\<close>

definition add_objects :: "menu_item list \<Rightarrow> objects \<Rightarrow> nat list \<times> objects" where
  "add_objects its st = ([length st ..< length st + length its], st @ its)"

definition sort_items :: "bool \<Rightarrow> menu_options \<Rightarrow> objects \<Rightarrow> nat list \<Rightarrow> nat list" where
  "sort_items alphabetically opts st as = (if alphabetically then sort_key (\<lambda>a. collate opts (mi_name (st ! a))) as else as)"

definition getOperationsItems :: "menu_options \<Rightarrow> (nat \<times> string) option \<Rightarrow> tag \<Rightarrow> int \<Rightarrow> objects \<Rightarrow> nat list \<times> objects" where
  "getOperationsItems opts parent t depth st =
     (let (as, st1) = add_objects (map (\<lambda>op. Tu op parent depth) (tag_operations t)) st
      in (sort_items (sortOperationsAlphabetically opts) opts st1 as, st1))"

definition getTagRelatedSchema :: "menu_options \<Rightarrow> api_spec \<Rightarrow> tag \<Rightarrow> nat \<Rightarrow> int \<Rightarrow> objects \<Rightarrow> nat list \<times> objects" where
  "getTagRelatedSchema opts sp t parent parent_depth st =
     add_objects (map (\<lambda>(name, title, _). rf (slug opts) Schema_Item None name (Some (str_or title name)) (Some parent) (parent_depth + 1))
       (filter (\<lambda>(_, _, xtags). tag_name t \<in> set xtags) (spec_schemas sp))) st"

text \<open>The items of one tag; the operations of the unnamed tag are not put under an item.\<close>

definition getTagItems :: "menu_options \<Rightarrow> api_spec \<Rightarrow> nat option \<Rightarrow> tag \<Rightarrow> objects \<Rightarrow> nat list \<times> objects" where
  "getTagItems opts sp parent t st =
     (let r = length st;
          item = rf (slug opts) Tag (tag_id t) (tag_name t) (tag_displayName t) parent 1;
          st1 = st @ [item]
      in if tag_name t = []
         then (let (mks, st2) = addMarkdownItems opts (Some r) (tag_headings t) 2 st1;
                   (os, st3) = getOperationsItems opts None t 2 st2
               in (mks @ os, st3))
         else (let (ss, st2) = getTagRelatedSchema opts sp t r 1 st1;
                   (mks, st3) = addMarkdownItems opts (Some r) (tag_headings t) 2 st2;
                   (os, st4) = getOperationsItems opts (Some (r, mi_id item)) t 2 st3
               in ([r], set_items r (ss @ mks @ os) st4)))"

fun tags_items :: "menu_options \<Rightarrow> api_spec \<Rightarrow> nat option \<Rightarrow> tag list \<Rightarrow> objects \<Rightarrow> nat list \<times> objects" where
  "tags_items opts sp parent [] st = ([], st)"
| "tags_items opts sp parent (t # ts) st =
     (let (as, st1) = getTagItems opts sp parent t st; (bs, st2) = tags_items opts sp parent ts st1 in (as @ bs, st2))"

definition find_tag :: "api_spec \<Rightarrow> string \<Rightarrow> tag option" where
  "find_tag sp name = List.find (\<lambda>t. tag_name t = name) (spec_tags sp)"

text \<open>Names of a group that are no tags are left out, with a warning.\<close>

definition getTagsItems :: "menu_options \<Rightarrow> api_spec \<Rightarrow> nat option \<Rightarrow> tag_group option \<Rightarrow> objects \<Rightarrow> nat list \<times> objects" where
  "getTagsItems opts sp parent grp st =
     (let ts = (case grp of None \<Rightarrow> spec_tags sp | Some g \<Rightarrow> List.map_filter (find_tag sp) (group_tags g));
          (as, st1) = tags_items opts sp parent ts st
      in (sort_items (sortTagsAlphabetically opts) opts st1 as, st1))"

fun getTagGroupsItems :: "menu_options \<Rightarrow> api_spec \<Rightarrow> tag_group list \<Rightarrow> objects \<Rightarrow> nat list \<times> objects" where
  "getTagGroupsItems opts sp [] st = ([], st)"
| "getTagGroupsItems opts sp (g # grps) st =
     (let n = length st;
          (cs, st1) = getTagsItems opts sp (Some n) (Some g)
             (st @ [rf (slug opts) Group (group_id g) (group_name g) (group_displayName g) None 0]);
          (rest, st2) = getTagGroupsItems opts sp grps (set_items n cs st1)
      in (n # rest, st2))"

definition buildStructure :: "menu_options \<Rightarrow> api_spec \<Rightarrow> nat list \<times> objects" where
  "buildStructure opts sp =
     (let (mks, st1) = addMarkdownItems opts None (spec_headings sp) 1 [];
          (ts, st2) = (if spec_tagGroups sp \<noteq> [] then getTagGroupsItems opts sp (spec_tagGroups sp) st1
                       else getTagsItems opts sp None None st1)
      in (mks @ ts, st2))"

section \<open>The menu store\<close>

datatype request = Replace string bool | Scroll_To string

record menu =
  objs :: objects
  top_items :: "nat list"
  flatItems :: "nat list"
  activeItemIdx :: int
  sideBarOpened :: bool
  requests :: "request list"

text \<open>
  All items in the order of the menu. The first argument bounds the depth; children have larger
  positions than their parents, so the number of objects is enough (\<open>flatten_items_enough\<close>).
\<close>

fun flatten_items :: "nat \<Rightarrow> objects \<Rightarrow> nat list \<Rightarrow> nat list" where
  "flatten_items 0 st as = []"
| "flatten_items (Suc f) st as = concat (map (\<lambda>a. a # flatten_items f st (mi_items (st ! a))) as)"

fun number_items :: "nat \<Rightarrow> nat list \<Rightarrow> objects \<Rightarrow> objects" where
  "number_items k [] st = st"
| "number_items k (a # as) st = number_items (Suc k) as (st[a := (st ! a)\<lparr>mi_absoluteIdx := Some k\<rparr>])"

definition vf :: "nat list \<times> objects \<Rightarrow> menu" where
  "vf content =
     (let flat = flatten_items (Suc (length (snd content))) (snd content) (fst content)
      in \<lparr>objs = number_items 0 flat (snd content), top_items = fst content, flatItems = flat,
          activeItemIdx = - 1, sideBarOpened = False, requests = []\<rparr>)"

definition flat_at :: "menu \<Rightarrow> int \<Rightarrow> nat option" where
  "flat_at m i = (if 0 \<le> i \<and> nat i < length (flatItems m) then Some (flatItems m ! nat i) else None)"

definition activeItem :: "menu \<Rightarrow> nat option" where
  "activeItem m = flat_at m (activeItemIdx m)"

definition getItemById :: "menu \<Rightarrow> string \<Rightarrow> nat option" where
  "getItemById m i = List.find (\<lambda>a. mi_id (objs m ! a) = i) (flatItems m)"

definition collapse :: "nat \<Rightarrow> objects \<Rightarrow> objects" where
  "collapse a st = (if mi_type (st ! a) \<in> set [Group, Operation] then st else st[a := (st ! a)\<lparr>mi_expanded := False\<rparr>])"

text \<open>
  Expanding goes up to the parents first; deactivating collapses an item and then its parents. A
  parent is constructed before its children, so the position of an item bounds the recursion.
\<close>

fun expand_go :: "nat \<Rightarrow> nat \<Rightarrow> objects \<Rightarrow> objects" where
  "expand_go 0 a st = st"
| "expand_go (Suc f) a st =
     (let st1 = (case mi_parent (st ! a) of None \<Rightarrow> st | Some p \<Rightarrow> expand_go f p st)
      in if mi_type (st ! a) = Operation then st1 else st1[a := (st1 ! a)\<lparr>mi_expanded := True\<rparr>])"

definition expand :: "nat \<Rightarrow> objects \<Rightarrow> objects" where
  "expand a st = expand_go (Suc a) a st"

fun collapse_go :: "nat \<Rightarrow> nat \<Rightarrow> objects \<Rightarrow> objects" where
  "collapse_go 0 a st = st"
| "collapse_go (Suc f) a st =
     (let st1 = collapse a st in case mi_parent (st ! a) of None \<Rightarrow> st1 | Some p \<Rightarrow> collapse_go f p st1)"

definition deactivate :: "nat option \<Rightarrow> objects \<Rightarrow> objects" where
  "deactivate e st =
     (case e of None \<Rightarrow> st | Some a \<Rightarrow> collapse_go (Suc a) a (st[a := (st ! a)\<lparr>mi_active := False\<rparr>]))"

definition activate :: "menu \<Rightarrow> nat option \<Rightarrow> bool \<Rightarrow> bool \<Rightarrow> menu" where
  "activate m e updateLocation rewriteHistory =
     (if map_option (\<lambda>a. mi_id (objs m ! a)) (activeItem m) = map_option (\<lambda>a. mi_id (objs m ! a)) e \<or>
         (\<exists>a. e = Some a \<and> mi_type (objs m ! a) = Group)
      then m
      else
        (let m1 = m\<lparr>objs := deactivate (activeItem m) (objs m)\<rparr> in
         case e of
           None \<Rightarrow> m1\<lparr>activeItemIdx := - 1, requests := requests m1 @ [Replace [] rewriteHistory]\<rparr>
         | Some a \<Rightarrow>
             if mi_depth (objs m1 ! a) \<le> 0 then m1
             else m1\<lparr>activeItemIdx := (case mi_absoluteIdx (objs m1 ! a) of None \<Rightarrow> - 1 | Some k \<Rightarrow> int k),
                     requests := requests m1 @ (if updateLocation then [Replace (encodeURI (mi_id (objs m1 ! a))) rewriteHistory] else []),
                     objs := expand a ((objs m1)[a := (objs m1 ! a)\<lparr>mi_active := True\<rparr>])\<rparr>))"

section \<open>Events\<close>

record page =
  element_top :: "string \<Rightarrow> rat option"
  scrollYOffset :: rat

definition getElementAt :: "page \<Rightarrow> menu \<Rightarrow> int \<Rightarrow> (string \<times> rat) option" where
  "getElementAt pg m i =
     (case flat_at m i of None \<Rightarrow> None
      | Some a \<Rightarrow> map_option (\<lambda>y. (mi_id (objs m ! a), y)) (element_top pg (mi_id (objs m ! a))))"

text \<open>For a group, the element of its first child.\<close>

definition getElementAtOrFirstChild :: "page \<Rightarrow> menu \<Rightarrow> int \<Rightarrow> (string \<times> rat) option" where
  "getElementAtOrFirstChild pg m i =
     (case flat_at m i of None \<Rightarrow> None
      | Some a \<Rightarrow>
          (case (if mi_type (objs m ! a) = Group then (case mi_items (objs m ! a) of [] \<Rightarrow> None | c # _ \<Rightarrow> Some c) else Some a) of
             None \<Rightarrow> None
           | Some b \<Rightarrow> map_option (\<lambda>y. (mi_id (objs m ! b), y)) (element_top pg (mi_id (objs m ! b)))))"

definition isElementBellow :: "page \<Rightarrow> (string \<times> rat) option \<Rightarrow> bool" where
  "isElementBellow pg el = (case el of None \<Rightarrow> False | Some (_, y) \<Rightarrow> scrollYOffset pg < y)"

definition isElementAbove :: "page \<Rightarrow> (string \<times> rat) option \<Rightarrow> bool" where
  "isElementAbove pg el =
     (case el of None \<Rightarrow> False
      | Some (_, y) \<Rightarrow> of_int (if 0 < y then \<lfloor>y\<rfloor> else \<lceil>y\<rceil>) \<le> scrollYOffset pg)"

text \<open>The loop of \<open>updateOnScroll\<close>; \<open>None\<close> is a loop that does not end.\<close>

partial_function (option) scroll_loop :: "page \<Rightarrow> menu \<Rightarrow> bool \<Rightarrow> int \<Rightarrow> int option" where
  "scroll_loop pg m down n =
     (if n = - 1 \<and> \<not> down \<or> int (length (flatItems m)) - 1 \<le> n \<and> down then Some n
      else if down
      then (if isElementBellow pg (getElementAtOrFirstChild pg m (n + 1)) then Some n else scroll_loop pg m down (n + 1))
      else (if isElementAbove pg (getElementAt pg m n) then Some n else scroll_loop pg m down (n - 1)))"

definition updateOnScroll :: "page \<Rightarrow> menu \<Rightarrow> bool \<Rightarrow> menu option" where
  "updateOnScroll pg m down =
     (case scroll_loop pg m down (activeItemIdx m) of None \<Rightarrow> None | Some n \<Rightarrow> Some (activate m (flat_at m n) True True))"

definition toggleSidebar :: "menu \<Rightarrow> menu" where
  "toggleSidebar m = m\<lparr>sideBarOpened := \<not> sideBarOpened m\<rparr>"

definition closeSidebar :: "menu \<Rightarrow> menu" where
  "closeSidebar m = m\<lparr>sideBarOpened := False\<rparr>"

definition scroll_to :: "page \<Rightarrow> string \<Rightarrow> menu \<Rightarrow> menu" where
  "scroll_to pg i m = (if element_top pg i = None then m else m\<lparr>requests := requests m @ [Scroll_To i]\<rparr>)"

definition scrollToActive :: "page \<Rightarrow> menu \<Rightarrow> menu" where
  "scrollToActive pg m = (case getElementAt pg m (activeItemIdx m) of None \<Rightarrow> m | Some (i, _) \<Rightarrow> scroll_to pg i m)"

definition activateAndScroll :: "page \<Rightarrow> menu \<Rightarrow> nat option \<Rightarrow> bool \<Rightarrow> menu" where
  "activateAndScroll pg m e updateLocation =
     (let r = (case e of None \<Rightarrow> None
               | Some a \<Rightarrow> (case getItemById m (mi_id (objs m ! a)) of None \<Rightarrow> Some a | Some b \<Rightarrow> Some b));
          m1 = scrollToActive pg (activate m r updateLocation False)
      in if (\<exists>a. r = Some a \<and> mi_items (objs m1 ! a) \<noteq> []) then m1 else closeSidebar m1)"

definition security_prefix :: string where
  "security_prefix = ''section/Authentication/''"

definition updateOnHistory :: "page \<Rightarrow> menu \<Rightarrow> string \<Rightarrow> menu" where
  "updateOnHistory pg m i =
     (if i = [] then m
      else
        (case getItemById m i of
           Some a \<Rightarrow> activateAndScroll pg m (Some a) False
         | None \<Rightarrow>
             scroll_to pg i
               (if starts_with i security_prefix
                then activateAndScroll pg m
                       (List.find (\<lambda>a. starts_with security_prefix (mi_id (objs m ! a))) (flatItems m)) False
                else m)))"

text \<open>The history service \<open>zs\<close>: the identifier in the hash of the location.\<close>

definition linkForId :: "string \<Rightarrow> string" where
  "linkForId e = (if e = [] then [] else ''#'' @ e)"

definition currentId :: "string \<Rightarrow> string option" where
  "currentId location_hash = decodeURIComponent (drop 1 location_hash)"

text \<open>
  \<open>replace\<close>: the new hash, and whether subscribers are notified. An undecodable hash raises (\<open>None\<close>).
\<close>

definition history_replace :: "string \<Rightarrow> string \<Rightarrow> bool \<Rightarrow> (string \<times> bool) option" where
  "history_replace location_hash e rewriteHistory =
     (case currentId location_hash of
        None \<Rightarrow> None
      | Some i \<Rightarrow> Some (if e = i then (location_hash, False) else (linkForId e, \<not> rewriteHistory)))"

text \<open>A click on an item of the menu (component \<open>MenuItems\<close>), with the option \<open>menuToggle\<close>.\<close>

definition menu_click :: "page \<Rightarrow> bool \<Rightarrow> menu \<Rightarrow> nat \<Rightarrow> menu" where
  "menu_click pg menuToggle m a =
     (if mi_active (objs m ! a) \<and> menuToggle
      then m\<lparr>objs := (if mi_expanded (objs m ! a) then collapse a (objs m) else expand a (objs m))\<rparr>
      else activateAndScroll pg m (Some a) True)"

text \<open>Restoring a serialised page: \<open>fromJS\<close> writes the index and then activates that item.\<close>

definition fromJS :: "menu \<Rightarrow> int option \<Rightarrow> menu" where
  "fromJS m saved =
     (let m1 = m\<lparr>activeItemIdx := (case saved of None \<Rightarrow> 0 | Some i \<Rightarrow> i)\<rparr>
      in activate m1 (flat_at m1 (activeItemIdx m1)) True False)"

lemma ex_Some_case: "(\<exists>a. e = Some a \<and> P a) \<longleftrightarrow> (case e of None \<Rightarrow> False | Some a \<Rightarrow> P a)"
  by (simp split: option.split)

lemmas activate_code [code] = activate_def [unfolded ex_Some_case]

lemmas activateAndScroll_code [code] = activateAndScroll_def [unfolded ex_Some_case]

inductive menu_step :: "menu \<Rightarrow> menu \<Rightarrow> bool" where
  on_scroll: "updateOnScroll pg m down = Some m' \<Longrightarrow> menu_step m m'"
| on_history: "menu_step m (updateOnHistory pg m i)"
| on_click: "a \<in> set (flatItems m) \<Longrightarrow> menu_step m (menu_click pg toggle m a)"
| on_search: "menu_step m (activateAndScroll pg m (getItemById m i) True)"
| on_toggle: "menu_step m (toggleSidebar m)"
| on_close: "menu_step m (closeSidebar m)"

inductive menu_reach :: "menu \<Rightarrow> menu \<Rightarrow> bool" for m0 where
  reach_start: "menu_reach m0 m0"
| reach_step: "menu_reach m0 m \<Longrightarrow> menu_step m m' \<Longrightarrow> menu_reach m0 m'"

inductive_cases menu_stepE: "menu_step m m'"

section \<open>Shape of the objects\<close>

text \<open>
  A parent and the children of an item stand before and after it; operations are not parents; only
  groups have depth 0.
\<close>

definition shape_at :: "objects \<Rightarrow> nat \<Rightarrow> bool" where
  "shape_at st a \<longleftrightarrow>
     (\<forall>p. mi_parent (st ! a) = Some p \<longrightarrow> p < a \<and> mi_type (st ! p) \<noteq> Operation) \<and>
     (\<forall>c \<in> set (mi_items (st ! a)). a < c \<and> c < length st) \<and>
     (mi_type (st ! a) \<noteq> Group \<longrightarrow> 1 \<le> mi_depth (st ! a))"

definition shape :: "objects \<Rightarrow> bool" where
  "shape st \<longleftrightarrow> (\<forall>a < length st. shape_at st a)"

lemma shapeD:
  assumes "shape st" "a < length st"
  shows "mi_parent (st ! a) = Some p \<Longrightarrow> p < a" "mi_parent (st ! a) = Some p \<Longrightarrow> mi_type (st ! p) \<noteq> Operation"
    "c \<in> set (mi_items (st ! a)) \<Longrightarrow> a < c \<and> c < length st" "mi_type (st ! a) \<noteq> Group \<Longrightarrow> 1 \<le> mi_depth (st ! a)"
proof -
  have "shape_at st a" using assms by (simp add: shape_def)
  then show "mi_parent (st ! a) = Some p \<Longrightarrow> p < a" "mi_parent (st ! a) = Some p \<Longrightarrow> mi_type (st ! p) \<noteq> Operation"
    "c \<in> set (mi_items (st ! a)) \<Longrightarrow> a < c \<and> c < length st" "mi_type (st ! a) \<noteq> Group \<Longrightarrow> 1 \<le> mi_depth (st ! a)"
    unfolding shape_at_def by blast+
qed

definition idle :: "objects \<Rightarrow> bool" where
  "idle st \<longleftrightarrow> (\<forall>it \<in> set st. \<not> mi_active it \<and> (mi_expanded it \<longleftrightarrow> mi_type it = Group))"

definition parent_ok :: "nat option \<Rightarrow> objects \<Rightarrow> bool" where
  "parent_ok parent st \<longleftrightarrow> (\<forall>p. parent = Some p \<longrightarrow> p < length st \<and> mi_type (st ! p) \<noteq> Operation)"

text \<open>A step of the construction: the new items are new objects, and types do not change.\<close>

definition builds :: "objects \<Rightarrow> nat list \<times> objects \<Rightarrow> bool" where
  "builds st r \<longleftrightarrow> length st \<le> length (snd r) \<and> set (fst r) \<subseteq> {length st ..< length (snd r)} \<and>
     (\<forall>a < length st. mi_type (snd r ! a) = mi_type (st ! a)) \<and>
     (shape st \<longrightarrow> shape (snd r)) \<and> (idle st \<longrightarrow> idle (snd r))"

named_theorems builds_intros

lemma buildsD:
  assumes "builds st (as, st')"
  shows "length st \<le> length st'" "a \<in> set as \<Longrightarrow> length st \<le> a \<and> a < length st'"
    "a < length st \<Longrightarrow> mi_type (st' ! a) = mi_type (st ! a)" "shape st \<Longrightarrow> shape st'" "idle st \<Longrightarrow> idle st'"
  using assms by (auto simp: builds_def)

lemma builds_refl: "builds st ([], st)"
  by (simp add: builds_def)

lemma parent_ok_builds: "parent_ok parent st \<Longrightarrow> builds st (as, st') \<Longrightarrow> parent_ok parent st'"
  by (force simp: parent_ok_def builds_def)

lemma parent_ok_None [simp]: "parent_ok None st"
  by (simp add: parent_ok_def)

lemma builds_trans:
  assumes "builds st (as, st1)" "builds st1 (bs, st2)" "set cs \<subseteq> set as \<union> set bs"
  shows "builds st (cs, st2)"
  using assms unfolding builds_def by (auto dest!: subsetD)

lemma builds_subset: "builds st (as, st') \<Longrightarrow> set bs \<subseteq> set as \<Longrightarrow> builds st (bs, st')"
  unfolding builds_def by auto

lemma builds_add_objects:
  assumes "\<And>it. it \<in> set its \<Longrightarrow> mi_items it = [] \<and> parent_ok (mi_parent it) st \<and> (mi_type it \<noteq> Group \<longrightarrow> 1 \<le> mi_depth it) \<and>
      \<not> mi_active it \<and> (mi_expanded it \<longleftrightarrow> mi_type it = Group)"
  shows "builds st (add_objects its st)"
proof -
  have "shape_at (st @ its) a" if "shape st" "a < length (st @ its)" for a
  proof (cases "a < length st")
    case True
    with that have old: "shape_at st a" by (simp add: shape_def)
    have "p < length st" if "mi_parent (st ! a) = Some p" for p
      using old that True by (auto simp: shape_at_def)
    with old True show ?thesis by (auto simp: shape_at_def nth_append)
  next
    case False
    then have "its ! (a - length st) \<in> set its" using that by simp
    note this [THEN assms]
    then show ?thesis using False by (auto simp: shape_at_def nth_append parent_ok_def)
  qed
  then show ?thesis
    using assms by (auto simp: builds_def add_objects_def shape_def idle_def nth_append)
qed

lemma builds_new:
  assumes "mi_items it = []" "parent_ok (mi_parent it) st" "mi_type it \<noteq> Group \<longrightarrow> 1 \<le> mi_depth it"
    "\<not> mi_active it" "mi_expanded it \<longleftrightarrow> mi_type it = Group"
  shows "builds st ([length st], st @ [it])"
  using builds_add_objects [of "[it]" st] assms by (simp add: add_objects_def)

text \<open>Filling in the children of the object that was allocated first.\<close>

lemma shape_set_items:
  assumes "shape st" "r < length st" "\<And>c. c \<in> set cs \<Longrightarrow> r < c \<and> c < length st"
  shows "shape (set_items r cs st)"
proof -
  have "shape_at (set_items r cs st) a" if "a < length st" for a
  proof -
    have old: "shape_at st a" using assms(1) that by (simp add: shape_def)
    have t: "mi_type (set_items r cs st ! p) = mi_type (st ! p)" for p
      using assms(2) by (cases "p = r") (simp_all add: set_items_def)
    show ?thesis
    proof (cases "a = r")
      case True
      then show ?thesis using old assms(2,3) unfolding shape_at_def t by (simp add: set_items_def)
    next
      case False
      then show ?thesis using old unfolding shape_at_def t by (simp add: set_items_def)
    qed
  qed
  then show ?thesis by (simp add: shape_def set_items_def)
qed

lemma builds_node:
  assumes "builds st ([length st], st @ [it])" "builds (st @ [it]) (bs, st1)" "set cs \<subseteq> set bs"
  shows "builds st ([length st], set_items (length st) cs st1)"
proof -
  have l: "length st < length st1" using assms(2) by (simp add: builds_def)
  have "shape (set_items (length st) cs st1)" if "shape st"
    using assms l that by (intro shape_set_items) (auto simp: builds_def dest!: subsetD)
  moreover have "idle (set_items (length st) cs st1)" if "idle st"
  proof -
    have "idle st1" using assms that by (auto simp: builds_def)
    moreover from this have "st1 ! length st \<in> set st1" using l by simp
    ultimately show ?thesis
      using set_update_subset_insert [of st1] by (fastforce simp: idle_def set_items_def)
  qed
  moreover have "mi_type (st1 ! a) = mi_type (st ! a)" if "a < length st" for a
    using assms(2) that by (auto simp: builds_def nth_append)
  ultimately show ?thesis using l by (simp add: builds_def set_items_def)
qed

lemma rf_simps [simp]:
  "mi_items (rf sl t i n d p k) = []" "mi_parent (rf sl t i n d p k) = p" "mi_type (rf sl t i n d p k) = t"
  "mi_depth (rf sl t i n d p k) = k" "\<not> mi_active (rf sl t i n d p k)" "mi_expanded (rf sl t i n d p k) = (t = Group)"
  by (simp_all add: rf_def)

lemma Tu_simps [simp]:
  "mi_items (Tu op p k) = []" "mi_parent (Tu op p k) = map_option fst p" "mi_type (Tu op p k) = Operation"
  "mi_depth (Tu op p k) = k" "\<not> mi_active (Tu op p k)" "\<not> mi_expanded (Tu op p k)"
  by (simp_all add: Tu_def)

lemma set_sort_items [simp]: "set (sort_items b opts st as) = set as"
  by (simp add: sort_items_def)

lemma builds_addMarkdownItems:
  "parent_ok parent st \<Longrightarrow> 1 \<le> n \<Longrightarrow> builds st (addMarkdownItems opts parent hds n st)"
proof (induction opts parent hds n st rule: addMarkdownItems.induct)
  case (2 opts parent hid name subs hds n st)
  let ?it = "rf (slug opts) Section hid name None parent n"
  have new: "builds st ([length st], st @ [?it])" using 2 by (intro builds_new) simp_all
  obtain cs st1 where 1: "addMarkdownItems opts (Some (length st)) subs (n + 1) (st @ [?it]) = (cs, st1)" by fastforce
  have b1: "builds (st @ [?it]) (cs, st1)"
    using "2.IH"(1) [OF refl] "2.prems" 1 by (simp add: parent_ok_def)
  have node: "builds st ([length st], set_items (length st) cs st1)" by (rule builds_node [OF new b1]) simp
  obtain rest st2 where eq: "addMarkdownItems opts parent hds n (set_items (length st) cs st1) = (rest, st2)" by fastforce
  have "builds (set_items (length st) cs st1) (rest, st2)"
    using "2.IH"(2) [OF refl 1 [symmetric] refl] "2.prems" eq parent_ok_builds [OF _ node] by simp
  from builds_trans [OF node this] show ?case by (simp add: 1 eq Let_def)
qed (simp add: builds_refl)

lemma builds_getOperationsItems:
  "parent_ok (map_option fst parent) st \<Longrightarrow> 1 \<le> depth \<Longrightarrow> builds st (getOperationsItems opts parent t depth st)"
proof -
  assume "parent_ok (map_option fst parent) st" "1 \<le> depth"
  then have "builds st (add_objects (map (\<lambda>op. Tu op parent depth) (tag_operations t)) st)"
    by (intro builds_add_objects) auto
  then show ?thesis by (auto simp: getOperationsItems_def add_objects_def intro: builds_subset)
qed

lemma builds_getTagRelatedSchema:
  "parent_ok (Some parent) st \<Longrightarrow> 0 \<le> depth \<Longrightarrow> builds st (getTagRelatedSchema opts sp t parent depth st)"
  unfolding getTagRelatedSchema_def by (rule builds_add_objects) auto

lemma builds_getTagItems:
  assumes "parent_ok parent st"
  shows "builds st (getTagItems opts sp parent t st)"
proof -
  let ?it = "rf (slug opts) Tag (tag_id t) (tag_name t) (tag_displayName t) parent 1"
  let ?st = "st @ [?it]"
  have new: "builds st ([length st], ?st)" using assms by (intro builds_new) simp_all
  have par: "parent_ok (Some (length st)) ?st" by (simp add: parent_ok_def)
  show ?thesis
  proof (cases "tag_name t = []")
    case True
    obtain mks st2 where 1: "addMarkdownItems opts (Some (length st)) (tag_headings t) 2 ?st = (mks, st2)" by fastforce
    obtain os st3 where 2: "getOperationsItems opts None t 2 st2 = (os, st3)" by fastforce
    have "builds ?st (mks, st2)" using builds_addMarkdownItems [OF par, of 2 opts "tag_headings t"] 1 by simp
    moreover have "builds st2 (os, st3)" using builds_getOperationsItems [of None st2 2 opts t] 2 by simp
    ultimately have "builds ?st (mks @ os, st3)" by (rule builds_trans) simp
    from builds_trans [OF new this, of "mks @ os"] have "builds st (mks @ os, st3)" by auto
    with True 1 2 show ?thesis by (simp add: getTagItems_def)
  next
    case False
    obtain ss st2 where 1: "getTagRelatedSchema opts sp t (length st) 1 ?st = (ss, st2)" by fastforce
    obtain mks st3 where 2: "addMarkdownItems opts (Some (length st)) (tag_headings t) 2 st2 = (mks, st3)" by fastforce
    obtain os st4 where 3: "getOperationsItems opts (Some (length st, mi_id ?it)) t 2 st3 = (os, st4)" by fastforce
    have b1: "builds ?st (ss, st2)" using builds_getTagRelatedSchema [OF par, of 1 opts sp t] 1 by simp
    have b2: "builds st2 (mks, st3)"
      using builds_addMarkdownItems [OF parent_ok_builds [OF par b1], of 2 opts "tag_headings t"] 2 by simp
    have b12: "builds ?st (ss @ mks, st3)" by (rule builds_trans [OF b1 b2]) simp
    have "builds st3 (os, st4)"
      using builds_getOperationsItems [of "Some (length st, mi_id ?it)" st3 2 opts t] parent_ok_builds [OF par b12] 3 by simp
    then have b: "builds ?st ((ss @ mks) @ os, st4)" by (rule builds_trans [OF b12]) auto
    from builds_node [OF new b, of "ss @ mks @ os"] show ?thesis by (simp add: getTagItems_def False 1 2 3 Let_def)
  qed
qed

lemma builds_tags_items: "parent_ok parent st \<Longrightarrow> builds st (tags_items opts sp parent ts st)"
proof (induction ts arbitrary: st)
  case (Cons t ts)
  obtain as st1 where 1: "getTagItems opts sp parent t st = (as, st1)" by fastforce
  obtain bs st2 where 2: "tags_items opts sp parent ts st1 = (bs, st2)" by fastforce
  have b1: "builds st (as, st1)" using builds_getTagItems [OF Cons.prems, of opts sp t] 1 by simp
  have "builds st1 (bs, st2)" using Cons.IH [OF parent_ok_builds [OF Cons.prems b1]] 2 by simp
  from builds_trans [OF b1 this, of "as @ bs"] show ?case by (simp add: 1 2)
qed (simp add: builds_refl)

lemma builds_getTagsItems: "parent_ok parent st \<Longrightarrow> builds st (getTagsItems opts sp parent grp st)"
proof -
  define ts where "ts = (case grp of None \<Rightarrow> spec_tags sp | Some g \<Rightarrow> List.map_filter (find_tag sp) (group_tags g))"
  obtain as st1 where 1: "tags_items opts sp parent ts st = (as, st1)" by fastforce
  assume "parent_ok parent st"
  from builds_tags_items [OF this, of opts sp ts] have "builds st (as, st1)" using 1 by simp
  then have "builds st (sort_items (sortTagsAlphabetically opts) opts st1 as, st1)" by (rule builds_subset) simp
  then show ?thesis using 1 by (simp add: getTagsItems_def ts_def)
qed

lemma builds_getTagGroupsItems: "builds st (getTagGroupsItems opts sp grps st)"
proof (induction grps arbitrary: st)
  case (Cons g grps)
  let ?it = "rf (slug opts) Group (group_id g) (group_name g) (group_displayName g) None 0"
  have new: "builds st ([length st], st @ [?it])" by (intro builds_new) simp_all
  obtain cs st1 where 1: "getTagsItems opts sp (Some (length st)) (Some g) (st @ [?it]) = (cs, st1)" by fastforce
  have "builds (st @ [?it]) (cs, st1)"
    using builds_getTagsItems [of "Some (length st)" "st @ [?it]" opts sp "Some g"] 1 by (simp add: parent_ok_def)
  then have node: "builds st ([length st], set_items (length st) cs st1)" by (rule builds_node [OF new]) simp
  obtain rest st2 where 2: "getTagGroupsItems opts sp grps (set_items (length st) cs st1) = (rest, st2)" by fastforce
  have "builds (set_items (length st) cs st1) (rest, st2)" using Cons.IH 2 by metis
  from builds_trans [OF node this] show ?case by (simp add: 1 2 Let_def)
qed (simp add: builds_refl)

lemma builds_buildStructure: "builds [] (buildStructure opts sp)"
proof -
  obtain mks st1 where 1: "addMarkdownItems opts None (spec_headings sp) 1 [] = (mks, st1)" by fastforce
  define r where "r = (if spec_tagGroups sp \<noteq> [] then getTagGroupsItems opts sp (spec_tagGroups sp) st1
    else getTagsItems opts sp None None st1)"
  have b1: "builds [] (mks, st1)" using builds_addMarkdownItems [of None "[]" 1 opts "spec_headings sp"] 1 by simp
  have "builds st1 (fst r, snd r)" using builds_getTagGroupsItems builds_getTagsItems [of None st1] by (simp add: r_def)
  from builds_trans [OF b1 this, of "mks @ fst r"] show ?thesis
    unfolding buildStructure_def 1 Let_def split r_def [symmetric] by (simp add: split_beta)
qed

lemma built:
  "shape (snd (buildStructure opts sp))" "idle (snd (buildStructure opts sp))"
  "a \<in> set (fst (buildStructure opts sp)) \<Longrightarrow> a < length (snd (buildStructure opts sp))"
proof -
  have "shape []" "idle []" by (simp_all add: shape_def idle_def)
  with builds_buildStructure [of opts sp] show "shape (snd (buildStructure opts sp))" "idle (snd (buildStructure opts sp))"
    "a \<in> set (fst (buildStructure opts sp)) \<Longrightarrow> a < length (snd (buildStructure opts sp))"
    by (auto simp: builds_def)
qed

section \<open>Chains of parents\<close>

fun chain_go :: "nat \<Rightarrow> objects \<Rightarrow> nat \<Rightarrow> nat list" where
  "chain_go 0 st a = []"
| "chain_go (Suc f) st a = a # (case mi_parent (st ! a) of None \<Rightarrow> [] | Some p \<Rightarrow> chain_go f st p)"

text \<open>An item, its parent, and so on up to the top of the menu.\<close>

definition chain :: "objects \<Rightarrow> nat \<Rightarrow> nat list" where
  "chain st a = chain_go (Suc a) st a"

definition skeleton :: "menu_item \<Rightarrow> menu_item" where
  "skeleton it = it\<lparr>mi_active := False, mi_expanded := False\<rparr>"

lemma skeleton_fields:
  assumes "skeleton x = skeleton y"
  shows "mi_id x = mi_id y" "mi_type x = mi_type y" "mi_name x = mi_name y" "mi_depth x = mi_depth y" "mi_parent x = mi_parent y"
    "mi_items x = mi_items y" "mi_absoluteIdx x = mi_absoluteIdx y"
  using assms by (cases x; cases y; simp add: skeleton_def)+

lemma skeleton_simps [simp]:
  "skeleton (it\<lparr>mi_active := b\<rparr>) = skeleton it" "skeleton (it\<lparr>mi_expanded := b\<rparr>) = skeleton it"
  by (simp_all add: skeleton_def)

lemma skeleton_nth: "map skeleton st = map skeleton st' \<Longrightarrow> a < length st \<Longrightarrow> skeleton (st ! a) = skeleton (st' ! a)"
  by (metis length_map nth_map)

lemma map_skeleton_update [simp]:
  "skeleton it = skeleton (st ! a) \<Longrightarrow> map skeleton (st[a := it]) = map skeleton st"
  by (metis list_update_id map_update)

lemma chain_go_cong:
  assumes "map skeleton st = map skeleton st'" "shape st"
  shows "a < length st \<Longrightarrow> chain_go f st a = chain_go f st' a"
proof (induction f arbitrary: a)
  case (Suc f)
  have "p < a" if "mi_parent (st ! a) = Some p" for p using shapeD(1) [OF assms(2) Suc.prems that] .
  moreover have "mi_parent (st' ! a) = mi_parent (st ! a)"
    using skeleton_fields(5) [OF skeleton_nth [OF assms(1) Suc.prems]] by simp
  ultimately show ?case using Suc by (fastforce split: option.splits)
qed simp

lemma shape_cong:
  assumes "map skeleton st = map skeleton st'"
  shows "shape st \<longleftrightarrow> shape st'"
proof -
  have len: "length st = length st'" by (metis assms length_map)
  have "shape_at st a \<longrightarrow> shape_at st' a" if "a < length st" "map skeleton st = map skeleton st'" for st st' a
  proof
    assume sh: "shape_at st a"
    note eq = skeleton_fields [OF skeleton_nth [OF that(2)]]
    have "length st = length st'" using that(2) by (metis length_map)
    moreover have "mi_type (st' ! p) \<noteq> Operation" if "mi_parent (st ! a) = Some p" for p
      using sh that \<open>a < length st\<close> eq(2) [of p] by (auto simp: shape_at_def)
    ultimately show "shape_at st' a" using sh eq [OF that(1)] by (auto simp: shape_at_def)
  qed
  with assms len show ?thesis by (metis shape_def)
qed

lemma expand_go_skeleton [simp]: "map skeleton (expand_go f a st) = map skeleton st"
  by (induction f a st rule: expand_go.induct) (auto simp: Let_def split: option.splits)

lemma collapse_skeleton [simp]: "map skeleton (collapse a st) = map skeleton st"
  by (simp add: collapse_def)

lemma collapse_go_skeleton [simp]: "map skeleton (collapse_go f a st) = map skeleton st"
  by (induction f a st rule: collapse_go.induct) (auto simp: Let_def split: option.splits)

lemma length_skeleton: "map skeleton st' = map skeleton st \<Longrightarrow> length st' = length st"
  by (metis length_map)

lemma expand_go_nth:
  assumes "shape st"
  shows "a < length st \<Longrightarrow> a < f \<Longrightarrow> b < length st \<Longrightarrow> expand_go f a st ! b =
    (if b \<in> set (chain_go f st a) \<and> mi_type (st ! b) \<noteq> Operation then (st ! b)\<lparr>mi_expanded := True\<rparr> else st ! b)"
proof (induction f arbitrary: a b)
  case (Suc f)
  define st1 where "st1 = (case mi_parent (st ! a) of None \<Rightarrow> st | Some p \<Rightarrow> expand_go f p st)"
  define up where "up = (case mi_parent (st ! a) of None \<Rightarrow> [] | Some p \<Rightarrow> chain_go f st p)"
  have st1: "st1 ! b = (if b \<in> set up \<and> mi_type (st ! b) \<noteq> Operation then (st ! b)\<lparr>mi_expanded := True\<rparr> else st ! b)"
    if "b < length st" for b
  proof (cases "mi_parent (st ! a)")
    case (Some p)
    then have "p < a" using shapeD(1) [OF assms Suc.prems(1)] by blast
    then show ?thesis using Suc.IH [of p b] Suc.prems(1,2) that Some
      by (simp add: st1_def up_def)
  qed (simp add: st1_def up_def)
  have "map skeleton st1 = map skeleton st" by (simp add: st1_def split: option.splits)
  then have "length st1 = length st" by (rule length_skeleton)
  then show ?case
    using st1 [OF Suc.prems(3)] st1 [OF Suc.prems(1)] Suc.prems
    by (cases "b = a") (auto simp: st1_def [symmetric] up_def [symmetric] Let_def nth_list_update)
qed simp

lemma collapse_nth:
  "b < length st \<Longrightarrow> collapse a st ! b =
     (if b = a \<and> mi_type (st ! b) \<notin> {Group, Operation} then (st ! b)\<lparr>mi_expanded := False\<rparr> else st ! b)"
  by (auto simp: collapse_def nth_list_update)

lemma collapse_go_nth:
  "shape st \<Longrightarrow> a < length st \<Longrightarrow> a < f \<Longrightarrow> b < length st \<Longrightarrow> collapse_go f a st ! b =
    (if b \<in> set (chain_go f st a) \<and> mi_type (st ! b) \<notin> {Group, Operation} then (st ! b)\<lparr>mi_expanded := False\<rparr> else st ! b)"
proof (induction f arbitrary: a st)
  case (Suc f)
  define st1 where "st1 = collapse a st"
  have sk: "map skeleton st1 = map skeleton st" by (simp add: st1_def)
  have len: "length st1 = length st" by (rule length_skeleton [OF sk])
  show ?case
  proof (cases "mi_parent (st ! a)")
    case None
    then show ?thesis using collapse_nth [OF Suc.prems(4), of a] by simp
  next
    case (Some p)
    then have p: "p < a" using shapeD(1) [OF Suc.prems(1,2)] by blast
    have "chain_go f st1 p = chain_go f st p"
      using chain_go_cong [OF sk [symmetric]] Suc.prems p by simp
    moreover have "shape st1" using shape_cong [OF sk] Suc.prems by simp
    ultimately have 1: "collapse_go f p st1 ! b = (if b \<in> set (chain_go f st p) \<and> mi_type (st1 ! b) \<notin> {Group, Operation}
        then (st1 ! b)\<lparr>mi_expanded := False\<rparr> else st1 ! b)"
      using Suc.IH [of st1 p] Suc.prems p len by simp
    have 2: "st1 ! b = (if b = a \<and> mi_type (st ! b) \<notin> {Group, Operation} then (st ! b)\<lparr>mi_expanded := False\<rparr> else st ! b)"
      unfolding st1_def by (rule collapse_nth [OF Suc.prems(4)])
    have 3: "collapse_go (Suc f) a st ! b = collapse_go f p st1 ! b" "chain_go (Suc f) st a = a # chain_go f st p"
      using Some by (simp_all add: st1_def)
    show ?thesis unfolding 3 1 2 by (simp, blast)
  qed
qed simp

lemma chain_tl:
  "shape st \<Longrightarrow> a < length st \<Longrightarrow> b \<in> set (tl (chain_go f st a)) \<Longrightarrow> b < a \<and> mi_type (st ! b) \<noteq> Operation"
proof (induction f arbitrary: a)
  case (Suc f)
  then obtain p where p: "mi_parent (st ! a) = Some p" "b \<in> set (chain_go f st p)"
    by (cases "mi_parent (st ! a)") auto
  note sp = shapeD(1,2) [OF Suc.prems(1,2) p(1)]
  show ?case
  proof (cases "b = p")
    case False
    then have "b \<in> set (tl (chain_go f st p))" using p(2) by (cases f) auto
    with Suc.IH [of p] Suc.prems sp show ?thesis by auto
  qed (use sp in simp)
qed simp

lemma chain_closed:
  "shape st \<Longrightarrow> a < length st \<Longrightarrow> a < f \<Longrightarrow> b \<in> set (chain_go f st a) \<Longrightarrow> mi_parent (st ! b) = Some p \<Longrightarrow>
     p \<in> set (chain_go f st a)"
proof (induction f arbitrary: a)
  case (Suc f)
  show ?case
  proof (cases "mi_parent (st ! a)")
    case None
    then show ?thesis using Suc.prems by simp
  next
    case (Some q)
    then have q: "q < a" using shapeD(1) [OF Suc.prems(1,2)] by blast
    then have "q \<in> set (chain_go f st q)" using Suc.prems by (cases f) simp_all
    then show ?thesis using Suc.IH [of q] Suc.prems Some q by auto
  qed
qed simp

lemma chain_self: "a \<in> set (chain st a)"
  by (simp add: chain_def)

lemma chain_cases: "b \<in> set (chain st a) \<longleftrightarrow> b = a \<or> b \<in> set (tl (chain st a))"
  by (simp add: chain_def)

lemma expand_nth:
  "shape st \<Longrightarrow> a < length st \<Longrightarrow> b < length st \<Longrightarrow> expand a st ! b =
    (if b \<in> set (chain st a) \<and> mi_type (st ! b) \<noteq> Operation then (st ! b)\<lparr>mi_expanded := True\<rparr> else st ! b)"
  unfolding expand_def chain_def by (rule expand_go_nth) simp_all

lemma chain_cong: "map skeleton st = map skeleton st' \<Longrightarrow> shape st \<Longrightarrow> a < length st \<Longrightarrow> chain st a = chain st' a"
  unfolding chain_def by (rule chain_go_cong)

lemma deactivate_nth:
  assumes "shape st" "a < length st" "b < length st"
  shows "deactivate (Some a) st ! b =
    (let it = (if b = a then (st ! b)\<lparr>mi_active := False\<rparr> else st ! b)
     in if b \<in> set (chain st a) \<and> mi_type (st ! b) \<notin> {Group, Operation} then it\<lparr>mi_expanded := False\<rparr> else it)"
proof -
  let ?st = "st[a := (st ! a)\<lparr>mi_active := False\<rparr>]"
  have sk: "map skeleton ?st = map skeleton st" by simp
  have "shape ?st" using shape_cong [OF sk] assms by simp
  from collapse_go_nth [OF this, of a "Suc a" b] assms chain_go_cong [OF sk [symmetric] assms(1,2), of "Suc a"]
  show ?thesis by (auto simp: deactivate_def chain_def Let_def nth_list_update simp del: chain_go.simps)
qed

lemma deactivate_skeleton [simp]: "map skeleton (deactivate e st) = map skeleton st"
  by (simp add: deactivate_def del: collapse_go.simps split: option.splits)

lemma expand_skeleton [simp]: "map skeleton (expand a st) = map skeleton st"
  by (simp add: expand_def del: expand_go.simps)

section \<open>The invariant of the menu\<close>

definition sound :: "menu \<Rightarrow> bool" where
  "sound m \<longleftrightarrow> shape (objs m) \<and>
     (\<forall>a \<in> set (flatItems m). a < length (objs m) \<and>
        (\<exists>k < length (flatItems m). mi_absoluteIdx (objs m ! a) = Some k \<and> flatItems m ! k = a))"

definition marks :: "menu \<Rightarrow> bool" where
  "marks m \<longleftrightarrow> - 1 \<le> activeItemIdx m \<and> activeItemIdx m < int (length (flatItems m)) \<and>
     (\<forall>b < length (objs m).
        (mi_active (objs m ! b) \<longleftrightarrow> activeItem m = Some b) \<and>
        (mi_type (objs m ! b) = Group \<longrightarrow> mi_expanded (objs m ! b)) \<and>
        (mi_expanded (objs m ! b) \<and> mi_type (objs m ! b) \<noteq> Group \<longrightarrow>
           mi_type (objs m ! b) \<noteq> Operation \<and> (\<exists>a. activeItem m = Some a \<and> b \<in> set (chain (objs m) a))) \<and>
        (\<forall>a. activeItem m = Some a \<and> b \<in> set (tl (chain (objs m) a)) \<longrightarrow> mi_expanded (objs m ! b)))"

lemma flat_at_mem: "flat_at m i = Some a \<Longrightarrow> a \<in> set (flatItems m)"
  by (auto simp: flat_at_def split: if_splits)

lemma activeItem_mem: "activeItem m = Some a \<Longrightarrow> a \<in> set (flatItems m)"
  by (simp add: activeItem_def flat_at_mem)

lemma find_mem: "List.find P xs = Some a \<Longrightarrow> a \<in> set xs"
  by (induction xs) (auto split: if_splits)

lemma getItemById_mem: "getItemById m i = Some a \<Longrightarrow> a \<in> set (flatItems m)"
  by (simp add: getItemById_def find_mem)

lemma sound_cong:
  assumes "map skeleton (objs m') = map skeleton (objs m)" "flatItems m' = flatItems m"
  shows "sound m' \<longleftrightarrow> sound m"
proof -
  have "length (objs m') = length (objs m)" by (rule length_skeleton [OF assms(1)])
  moreover have "mi_absoluteIdx (objs m' ! a) = mi_absoluteIdx (objs m ! a)" if "a < length (objs m)" for a
    using skeleton_fields(7) [OF skeleton_nth [OF assms(1)]] that calculation by simp
  ultimately show ?thesis using shape_cong [OF assms(1)] assms(2) unfolding sound_def by (metis (no_types, lifting))
qed

text \<open>After deactivation only groups are expanded.\<close>

lemma deactivated:
  assumes "sound m" "marks m" "b < length (objs m)"
  shows "\<not> mi_active (deactivate (activeItem m) (objs m) ! b)"
    "mi_expanded (deactivate (activeItem m) (objs m) ! b) \<longleftrightarrow> mi_type (objs m ! b) = Group"
    "mi_type (deactivate (activeItem m) (objs m) ! b) = mi_type (objs m ! b)"
proof -
  have mk: "mi_active (objs m ! b) \<longleftrightarrow> activeItem m = Some b" "mi_type (objs m ! b) = Group \<longrightarrow> mi_expanded (objs m ! b)"
    "mi_expanded (objs m ! b) \<and> mi_type (objs m ! b) \<noteq> Group \<longrightarrow>
       mi_type (objs m ! b) \<noteq> Operation \<and> (\<exists>a. activeItem m = Some a \<and> b \<in> set (chain (objs m) a))"
    using assms(2,3) unfolding marks_def by blast+
  have "\<not> mi_active (deactivate (activeItem m) (objs m) ! b) \<and>
    (mi_expanded (deactivate (activeItem m) (objs m) ! b) \<longleftrightarrow> mi_type (objs m ! b) = Group) \<and>
    mi_type (deactivate (activeItem m) (objs m) ! b) = mi_type (objs m ! b)"
  proof (cases "activeItem m")
    case None
    then show ?thesis using mk by (auto simp: deactivate_def)
  next
    case (Some a)
    then have "a < length (objs m)" "shape (objs m)" using assms(1) activeItem_mem [OF Some] by (auto simp: sound_def)
    from deactivate_nth [OF this(2,1) assms(3)] show ?thesis
      using mk unfolding Some by (auto simp: Let_def)
  qed
  then show "\<not> mi_active (deactivate (activeItem m) (objs m) ! b)"
    "mi_expanded (deactivate (activeItem m) (objs m) ! b) \<longleftrightarrow> mi_type (objs m ! b) = Group"
    "mi_type (deactivate (activeItem m) (objs m) ! b) = mi_type (objs m ! b)" by blast+
qed

lemma activate_frame:
  "map skeleton (objs (activate m e t n)) = map skeleton (objs m)" "flatItems (activate m e t n) = flatItems m"
  "top_items (activate m e t n) = top_items m"
  by (auto simp: activate_def Let_def split: option.splits)

definition marked_at :: "objects \<Rightarrow> nat list \<Rightarrow> nat \<Rightarrow> nat \<Rightarrow> bool" where
  "marked_at st ch a b \<longleftrightarrow> (mi_active (st ! b) \<longleftrightarrow> a = b) \<and> (mi_type (st ! b) = Group \<longrightarrow> mi_expanded (st ! b)) \<and>
     (mi_expanded (st ! b) \<and> mi_type (st ! b) \<noteq> Group \<longrightarrow> mi_type (st ! b) \<noteq> Operation \<and> b \<in> set ch) \<and>
     (b \<in> set (tl ch) \<longrightarrow> mi_expanded (st ! b))"

lemma marks_active:
  assumes "activeItem m = Some a"
  shows "marks m \<longleftrightarrow> - 1 \<le> activeItemIdx m \<and> activeItemIdx m < int (length (flatItems m)) \<and>
    (\<forall>b < length (objs m). marked_at (objs m) (chain (objs m) a) a b)"
  unfolding marks_def marked_at_def assms by simp

lemma marks_expand:
  assumes sh: "shape st" and a: "a < length st" "activeItem m = Some a" "objs m = expand a (st[a := (st ! a)\<lparr>mi_active := True\<rparr>])"
    and idx: "- 1 \<le> activeItemIdx m" "activeItemIdx m < int (length (flatItems m))"
    and idle: "\<And>b. b < length st \<Longrightarrow> \<not> mi_active (st ! b) \<and> (mi_expanded (st ! b) \<longleftrightarrow> mi_type (st ! b) = Group)"
  shows "marks m"
proof -
  let ?st = "st[a := (st ! a)\<lparr>mi_active := True\<rparr>]"
  have sk: "map skeleton ?st = map skeleton st" by simp
  have sh': "shape ?st" using shape_cong [OF sk] sh by simp
  have ch: "chain (objs m) a = chain st a"
    using chain_cong [of "objs m" st a] shape_cong [of "objs m" st] length_skeleton [of "objs m" st] a(1,3) sh by simp
  have nth: "objs m ! b = (if b \<in> set (chain st a) \<and> mi_type (st ! b) \<noteq> Operation then (?st ! b)\<lparr>mi_expanded := True\<rparr> else ?st ! b)"
    if "b < length st" for b
  proof -
    have "chain ?st a = chain st a" using chain_cong [OF sk sh'] a(1) by simp
    moreover have "mi_type (?st ! b) = mi_type (st ! b)" using a(1) by (cases "b = a") simp_all
    ultimately show ?thesis unfolding a(3) using expand_nth [OF sh', of a b] a(1) that by simp
  qed
  have len: "length (objs m) = length st" by (rule length_skeleton) (simp add: a(3))
  have up: "b \<in> set (chain st a) \<and> mi_type (st ! b) \<noteq> Operation" if "b \<in> set (tl (chain st a))" for b
    using that chain_tl [OF sh a(1), of b "Suc a"] chain_cases [of b st a] by (simp add: chain_def del: chain_go.simps)
  have fs: "mi_active (objs m ! b) \<longleftrightarrow> a = b" "mi_type (objs m ! b) = mi_type (st ! b)"
    "mi_expanded (objs m ! b) \<longleftrightarrow> mi_type (st ! b) = Group \<or> b \<in> set (chain st a) \<and> mi_type (st ! b) \<noteq> Operation"
    if "b < length st" for b
  proof -
    have it: "mi_active (?st ! b) \<longleftrightarrow> a = b" "mi_type (?st ! b) = mi_type (st ! b)" "mi_expanded (?st ! b) \<longleftrightarrow> mi_type (st ! b) = Group"
      using idle [OF that] a(1) by (cases "b = a", simp_all)+
    show "mi_active (objs m ! b) \<longleftrightarrow> a = b" "mi_type (objs m ! b) = mi_type (st ! b)"
      "mi_expanded (objs m ! b) \<longleftrightarrow> mi_type (st ! b) = Group \<or> b \<in> set (chain st a) \<and> mi_type (st ! b) \<noteq> Operation"
      unfolding nth [OF that] using it by auto
  qed
  have "marked_at (objs m) (chain st a) a b" if "b < length st" for b
    unfolding marked_at_def using fs [OF that] up [of b] by auto
  then show ?thesis unfolding marks_active [OF a(2)] ch len using idx by blast
qed

lemma marks_activate:
  assumes "sound m" "marks m" "\<And>a. e = Some a \<Longrightarrow> a \<in> set (flatItems m)"
  shows "sound (activate m e t n)" "marks (activate m e t n)"
proof -
  show "sound (activate m e t n)" using sound_cong [OF activate_frame(1,2)] assms(1) by simp
  define st where "st = deactivate (activeItem m) (objs m)"
  have sk: "map skeleton st = map skeleton (objs m)" by (simp add: st_def)
  have len: "length st = length (objs m)" by (rule length_skeleton [OF sk])
  have sh: "shape st" using shape_cong [OF sk] assms(1) by (simp add: sound_def)
  have idle: "\<not> mi_active (st ! b) \<and> (mi_expanded (st ! b) \<longleftrightarrow> mi_type (st ! b) = Group)" if "b < length st" for b
    using deactivated [OF assms(1,2), of b] that len by (simp add: st_def)
  show "marks (activate m e t n)"
  proof (cases "map_option (\<lambda>a. mi_id (objs m ! a)) (activeItem m) = map_option (\<lambda>a. mi_id (objs m ! a)) e \<or>
      (\<exists>a. e = Some a \<and> mi_type (objs m ! a) = Group)")
    case True
    then show ?thesis using assms(2) unfolding activate_def by simp
  next
    case change: False
    show ?thesis
    proof (cases e)
      case None
      have "activate m e t n = m\<lparr>objs := st, activeItemIdx := - 1, requests := requests m @ [Replace [] n]\<rparr>"
        using change unfolding None activate_def by (auto simp: st_def Let_def)
      then show ?thesis using idle unfolding marks_def by (simp add: activeItem_def flat_at_def)
    next
      case (Some a)
      then obtain k where a: "a < length (objs m)" "k < length (flatItems m)" "mi_absoluteIdx (objs m ! a) = Some k" "flatItems m ! k = a"
        using assms(1,3) by (auto simp: sound_def)
      note eq = skeleton_fields [OF skeleton_nth [OF sk]]
      have "1 \<le> mi_depth (objs m ! a)" using change Some assms(1) a(1) shapeD(4) by (auto simp: sound_def)
      then have "\<not> mi_depth (st ! a) \<le> 0" "mi_absoluteIdx (st ! a) = Some k" using eq(4,7) [of a] a len by simp_all
      then have m': "objs (activate m e t n) = expand a (st[a := (st ! a)\<lparr>mi_active := True\<rparr>])"
        "activeItemIdx (activate m e t n) = int k"
        using change unfolding Some activate_def by (auto simp: st_def Let_def)
      show ?thesis
        by (rule marks_expand [OF sh _ _ m'(1)]) (use a len idle m' activate_frame in \<open>simp_all add: activeItem_def flat_at_def\<close>)
    qed
  qed
qed

lemma marks_same:
  assumes "objs m' = objs m" "flatItems m' = flatItems m" "activeItemIdx m' = activeItemIdx m"
  shows "marks m' \<longleftrightarrow> marks m" "sound m' \<longleftrightarrow> sound m"
  using assms by (simp_all add: marks_def sound_def activeItem_def flat_at_def)

lemma scroll_to_same [simp]:
  "objs (scroll_to pg i m) = objs m" "flatItems (scroll_to pg i m) = flatItems m" "activeItemIdx (scroll_to pg i m) = activeItemIdx m"
  by (simp_all add: scroll_to_def)

lemma scrollToActive_same [simp]:
  "objs (scrollToActive pg m) = objs m" "flatItems (scrollToActive pg m) = flatItems m"
  "activeItemIdx (scrollToActive pg m) = activeItemIdx m"
  by (simp_all add: scrollToActive_def split: option.splits)

lemma sidebar_same [simp]:
  "objs (closeSidebar m) = objs m" "flatItems (closeSidebar m) = flatItems m" "activeItemIdx (closeSidebar m) = activeItemIdx m"
  "objs (toggleSidebar m) = objs m" "flatItems (toggleSidebar m) = flatItems m" "activeItemIdx (toggleSidebar m) = activeItemIdx m"
  by (simp_all add: closeSidebar_def toggleSidebar_def)

lemma marks_activateAndScroll:
  assumes "sound m" "marks m" "\<And>a. e = Some a \<Longrightarrow> a \<in> set (flatItems m)"
  shows "sound (activateAndScroll pg m e t) \<and> marks (activateAndScroll pg m e t)"
proof -
  define r where "r = (case e of None \<Rightarrow> None
    | Some a \<Rightarrow> (case getItemById m (mi_id (objs m ! a)) of None \<Rightarrow> Some a | Some b \<Rightarrow> Some b))"
  have "a \<in> set (flatItems m)" if "r = Some a" for a
    using that assms(3) getItemById_mem by (auto simp: r_def split: option.splits)
  from marks_activate [OF assms(1,2) this]
  have *: "sound (activate m r t False)" "marks (activate m r t False)" by simp_all
  let ?m = "activateAndScroll pg m e t"
  have "objs ?m = objs (activate m r t False)" "flatItems ?m = flatItems (activate m r t False)"
    "activeItemIdx ?m = activeItemIdx (activate m r t False)"
    by (simp_all add: activateAndScroll_def r_def [symmetric] Let_def)
  with marks_same * show ?thesis by blast
qed

lemma marks_updateOnHistory:
  assumes "sound m" "marks m"
  shows "sound (updateOnHistory pg m i) \<and> marks (updateOnHistory pg m i)"
proof -
  have keep: "sound (scroll_to pg i m') \<and> marks (scroll_to pg i m')" if "sound m' \<and> marks m'" for m'
    using that marks_same [of "scroll_to pg i m'" m'] by simp
  have act: "sound (activateAndScroll pg m e False) \<and> marks (activateAndScroll pg m e False)"
    if "\<And>a. e = Some a \<Longrightarrow> a \<in> set (flatItems m)" for e
    using marks_activateAndScroll [OF assms that] .
  show ?thesis
  proof (cases "getItemById m i")
    case None
    show ?thesis
    proof (cases "starts_with i security_prefix")
      case True
      show ?thesis using None True assms keep [OF act [OF find_mem]] by (simp add: updateOnHistory_def)
    qed (use None assms keep [of m] in \<open>simp add: updateOnHistory_def\<close>)
  next
    case (Some a)
    then show ?thesis using assms act [of "Some a"] getItemById_mem [OF Some] by (simp add: updateOnHistory_def)
  qed
qed

text \<open>Opening and closing the active item itself.\<close>

lemma marks_toggle_item:
  assumes "sound m" "marks m" "activeItem m = Some a" "st \<in> {collapse a (objs m), expand a (objs m)}"
  shows "sound (m\<lparr>objs := st\<rparr>)" "marks (m\<lparr>objs := st\<rparr>)"
proof -
  let ?m = "m\<lparr>objs := st\<rparr>"
  have sk: "map skeleton st = map skeleton (objs m)" using assms(4) by auto
  have len: "length st = length (objs m)" by (rule length_skeleton [OF sk])
  have a: "a < length (objs m)" "shape (objs m)" using assms(1) activeItem_mem [OF assms(3)] by (auto simp: sound_def)
  have sh: "shape st" using shape_cong [OF sk] a by simp
  have ch: "chain st a = chain (objs m) a" using chain_cong [OF sk sh] a len by simp
  show "sound ?m" using sound_cong [of ?m m] sk assms(1) by simp
  have nth: "st ! b \<in> {objs m ! b} \<union> (if b \<in> set (chain (objs m) a) \<and> mi_type (objs m ! b) \<noteq> Operation
      then {(objs m ! b)\<lparr>mi_expanded := True\<rparr>} else {}) \<union>
      (if b = a \<and> mi_type (objs m ! b) \<noteq> Group then {(objs m ! b)\<lparr>mi_expanded := False\<rparr>} else {})"
    if "b < length (objs m)" for b
    using assms(4) expand_nth [OF a(2,1) that] collapse_nth [OF that, of a] by auto
  have act: "activeItem ?m = Some a" unfolding assms(3) [symmetric] activeItem_def flat_at_def by simp
  have "a \<notin> set (tl (chain (objs m) a))" using chain_tl [OF a(2,1)] unfolding chain_def by blast
  then have up: "a \<notin> set (tl (chain (objs m) a))" .
  have old: "marked_at (objs m) (chain (objs m) a) a b" if "b < length (objs m)" for b
    using assms(2) that unfolding marks_active [OF assms(3)] by blast
  have "marked_at st (chain (objs m) a) a b" if b: "b < length (objs m)" for b
  proof -
    consider "st ! b = objs m ! b"
      | "st ! b = (objs m ! b)\<lparr>mi_expanded := True\<rparr>" "b \<in> set (chain (objs m) a)" "mi_type (objs m ! b) \<noteq> Operation"
      | "st ! b = (objs m ! b)\<lparr>mi_expanded := False\<rparr>" "b = a" "mi_type (objs m ! b) \<noteq> Group"
      using nth [OF b] by (auto split: if_splits)
    then show ?thesis using old [OF b] up by cases (simp_all add: marked_at_def)
  qed
  then show "marks ?m" using assms(2) len unfolding marks_active [OF act] marks_active [OF assms(3)] by (simp add: ch)
qed

lemma marks_menu_click:
  assumes "sound m" "marks m" "a \<in> set (flatItems m)"
  shows "sound (menu_click pg toggle m a) \<and> marks (menu_click pg toggle m a)"
proof (cases "mi_active (objs m ! a) \<and> toggle")
  case True
  have "a < length (objs m)" using assms by (auto simp: sound_def)
  then have "activeItem m = Some a" using True assms(2) by (auto simp: marks_def)
  then show ?thesis using marks_toggle_item [OF assms(1,2), of a] True by (simp add: menu_click_def)
next
  case False
  then have "menu_click pg toggle m a = activateAndScroll pg m (Some a) True" unfolding menu_click_def by auto
  then show ?thesis using marks_activateAndScroll [OF assms(1,2), of "Some a" pg True] assms(3) by simp
qed

lemma marks_step:
  assumes "menu_step m m'" "sound m" "marks m"
  shows "sound m' \<and> marks m'"
  using assms
proof (cases rule: menu_step.cases)
  case (on_scroll pg down)
  then obtain n where "m' = activate m (flat_at m n) True True" by (auto simp: updateOnScroll_def split: option.splits)
  then show ?thesis using marks_activate [OF assms(2,3), of "flat_at m n"] flat_at_mem by blast
next
  case (on_history pg i)
  then show ?thesis using marks_updateOnHistory [OF assms(2,3)] by simp
next
  case (on_click a pg toggle)
  then show ?thesis using marks_menu_click [OF assms(2,3)] by simp
next
  case (on_search pg i)
  then show ?thesis using marks_activateAndScroll [OF assms(2,3) getItemById_mem] by simp
next
  case on_toggle
  then show ?thesis using marks_same [of "toggleSidebar m" m] assms by simp
next
  case on_close
  then show ?thesis using marks_same [of "closeSidebar m" m] assms by simp
qed

lemma number_items_other: "a \<notin> set as \<Longrightarrow> number_items k as st ! a = st ! a"
  by (induction as arbitrary: k st) auto

lemma number_items_length [simp]: "length (number_items k as st) = length st"
  by (induction as arbitrary: k st) auto

lemma number_items_nth:
  "a < length st \<Longrightarrow> \<exists>i. number_items k as st ! a = (st ! a)\<lparr>mi_absoluteIdx := i\<rparr>"
proof (induction as arbitrary: k st)
  case (Cons b as)
  from Cons.IH [of "st[b := (st ! b)\<lparr>mi_absoluteIdx := Some k\<rparr>]" "Suc k"] Cons.prems
  show ?case by (cases "b = a") auto
qed (metis menu_item.surjective menu_item.update_convs(9) number_items.simps(1))

lemma number_items_index:
  "a \<in> set as \<Longrightarrow> a < length st \<Longrightarrow> \<exists>j < length as. mi_absoluteIdx (number_items k as st ! a) = Some (k + j) \<and> as ! j = a"
proof (induction as arbitrary: k st)
  case (Cons b as)
  show ?case
  proof (cases "a \<in> set as")
    case True
    from Cons.IH [OF this, of "st[b := (st ! b)\<lparr>mi_absoluteIdx := Some k\<rparr>]" "Suc k"] Cons.prems
    show ?thesis by fastforce
  next
    case False
    then show ?thesis using Cons.prems number_items_other [OF False] by (intro exI [of _ 0]) auto
  qed
qed simp

lemma flatten_items_mem:
  "shape st \<Longrightarrow> (\<And>a. a \<in> set as \<Longrightarrow> a < length st) \<Longrightarrow> b \<in> set (flatten_items f st as) \<Longrightarrow> b < length st"
proof (induction f arbitrary: as)
  case (Suc f)
  then obtain a where a: "a \<in> set as" "b = a \<or> b \<in> set (flatten_items f st (mi_items (st ! a)))" by auto
  then show ?case using Suc shapeD(3) [OF Suc.prems(1), of a] by blast
qed simp

lemma flatten_items_enough:
  "shape st \<Longrightarrow> (\<And>a. a \<in> set as \<Longrightarrow> a < length st \<and> length st - a \<le> f) \<Longrightarrow>
     flatten_items (f + k) st as = flatten_items f st as"
proof (induction f arbitrary: as)
  case 0
  then have "as = []" by (cases as) force+
  then show ?case by (cases k) simp_all
next
  case (Suc f)
  have "flatten_items (f + k) st (mi_items (st ! a)) = flatten_items f st (mi_items (st ! a))" if "a \<in> set as" for a
  proof (rule Suc.IH [OF Suc.prems(1)])
    fix c assume c: "c \<in> set (mi_items (st ! a))"
    have a: "a < length st" "length st - a \<le> Suc f" using Suc.prems(2) [OF that] by blast+
    from shapeD(3) [OF Suc.prems(1) a(1) c] a show "c < length st \<and> length st - c \<le> f" by linarith
  qed
  then show ?case by (auto intro!: arg_cong [of _ _ concat])
qed

lemma vf_start: "sound (vf (buildStructure opts sp))" "marks (vf (buildStructure opts sp))"
proof -
  let ?m = "vf (buildStructure opts sp)" and ?st = "snd (buildStructure opts sp)"
  have objs: "objs ?m = number_items 0 (flatItems ?m) ?st" and idx: "activeItemIdx ?m = - 1" by (simp_all add: vf_def Let_def)
  have flat: "a < length ?st" if "a \<in> set (flatItems ?m)" for a
    by (rule flatten_items_mem [OF built(1) built(3)]) (use that in \<open>simp_all add: vf_def Let_def del: flatten_items.simps\<close>)
  have it: "\<exists>i. objs ?m ! a = (?st ! a)\<lparr>mi_absoluteIdx := i\<rparr>" if "a < length ?st" for a
    unfolding objs by (rule number_items_nth [OF that])
  have "shape_at (objs ?m) a" if a: "a < length ?st" for a
  proof -
    have sh: "shape_at ?st a" using built(1) a by (simp add: shape_def)
    have "mi_type (objs ?m ! p) = mi_type (?st ! p)" if "mi_parent (?st ! a) = Some p" for p
    proof -
      have "p < length ?st" using shapeD(1) [OF built(1) a that] a by simp
      from it [OF this] show ?thesis by auto
    qed
    moreover obtain i where "objs ?m ! a = (?st ! a)\<lparr>mi_absoluteIdx := i\<rparr>" using it [OF a] by blast
    ultimately show ?thesis using sh unfolding shape_at_def by (simp add: objs)
  qed
  then have "shape (objs ?m)" by (simp add: shape_def objs)
  then show "sound ?m" using flat number_items_index [of _ "flatItems ?m" ?st 0] unfolding sound_def by (simp add: objs)
  have "\<not> mi_active (objs ?m ! b) \<and> (mi_expanded (objs ?m ! b) \<longleftrightarrow> mi_type (objs ?m ! b) = Group)" if "b < length ?st" for b
    using it [OF that] built(2) [of opts sp] nth_mem [OF that] by (auto simp: idle_def)
  then show "marks ?m" using idx by (simp add: marks_def activeItem_def flat_at_def objs)
qed

lemma marks_reach:
  "menu_reach (vf (buildStructure opts sp)) m \<Longrightarrow> sound m \<and> marks m"
  by (induction rule: menu_reach.induct) (use vf_start marks_step in blast)+

section \<open>Properties\<close>

definition demo_options :: menu_options where
  "demo_options = \<lparr>sortTagsAlphabetically = False, sortOperationsAlphabetically = False, slug = (\<lambda>s. s), collate = (\<lambda>_. 0)\<rparr>"

definition demo_spec :: api_spec where
  "demo_spec = \<lparr>spec_headings = [Heading None ''Intro'' [Heading None ''Use'' []]],
     spec_tags = [\<lparr>tag_id = None, tag_name = ''t'', tag_displayName = None, tag_headings = [],
       tag_operations = [\<lparr>op_operationId = Some ''list'', op_pointer = ''/paths/~1t/get'', op_name = ''List''\<rparr>]\<rparr>],
     spec_tagGroups = [], spec_schemas = []\<rparr>"

definition demo_page :: page where
  "demo_page = \<lparr>element_top = (\<lambda>i. Some 0), scrollYOffset = 0\<rparr>"

text \<open>
  C18: However scrolling, history, search and clicks interleave, the menu marks exactly the item at the
  active index, every group and every parent of that item is expanded, nothing else is expanded
  except, possibly, the item itself, and the index is that of an item or -1.
\<close>

theorem menu_marks_active_item:
  assumes "menu_reach (vf (buildStructure opts sp)) m"
  shows "(activeItemIdx m = - 1 \<or> activeItem m \<noteq> None) \<and>
    (\<forall>b < length (objs m). mi_active (objs m ! b) \<longleftrightarrow> activeItem m = Some b) \<and>
    (\<forall>b < length (objs m). mi_type (objs m ! b) = Group \<longrightarrow> mi_expanded (objs m ! b)) \<and>
    (\<forall>a b. activeItem m = Some a \<and> b \<in> set (tl (chain (objs m) a)) \<longrightarrow> mi_expanded (objs m ! b)) \<and>
    (\<forall>b < length (objs m). mi_expanded (objs m ! b) \<and> mi_type (objs m ! b) \<noteq> Group \<longrightarrow>
       (\<exists>a. activeItem m = Some a \<and> b \<in> set (chain (objs m) a)))"
proof -
  have m: "sound m" "marks m" using marks_reach [OF assms] by blast+
  have "b < length (objs m)" if "activeItem m = Some a" "b \<in> set (tl (chain (objs m) a))" for a b
  proof -
    have "a < length (objs m)" "shape (objs m)" using m(1) activeItem_mem [OF that(1)] by (auto simp: sound_def)
    then show ?thesis using chain_tl that(2) unfolding chain_def by (meson less_trans)
  qed
  moreover have "activeItemIdx m = - 1 \<or> activeItem m \<noteq> None" using m(2) by (auto simp: marks_def activeItem_def flat_at_def)
  ultimately show ?thesis using m(2) unfolding marks_def by blast
qed

theorem menu_marks_active_item_witness:
  "let m = menu_click demo_page False (vf (buildStructure demo_options demo_spec)) 1
   in (\<forall>b < length (objs m). mi_active (objs m ! b) \<longleftrightarrow> activeItem m = Some b)"
proof -
  have "1 \<in> set (flatItems (vf (buildStructure demo_options demo_spec)))" by code_simp
  from reach_step [OF reach_start on_click [OF this, of demo_page False]] show ?thesis
    using menu_marks_active_item unfolding Let_def by blast
qed

text \<open>
  Restoring a serialised page sets the index of the active item but marks and expands nothing:
  the activation that follows compares the item with itself and returns.
\<close>

theorem restored_item_not_marked:
  "(let m = fromJS (vf (buildStructure opts sp)) saved
    in activeItemIdx m = (case saved of None \<Rightarrow> 0 | Some i \<Rightarrow> i) \<and> requests m = [] \<and>
       (\<forall>it \<in> set (objs m). mi_active it = False \<and> mi_expanded it = (mi_type it = Group)))"
proof -
  let ?v = "vf (buildStructure opts sp)"
  have eq: "fromJS ?v saved = ?v\<lparr>activeItemIdx := (case saved of None \<Rightarrow> 0 | Some i \<Rightarrow> i)\<rparr>"
    by (simp add: fromJS_def Let_def activate_def activeItem_def)
  have r: "requests ?v = []" by (simp add: vf_def Let_def)
  have "activeItem ?v = None" by (simp add: vf_def Let_def activeItem_def flat_at_def)
  then have "mi_active (objs ?v ! b) = False \<and> mi_expanded (objs ?v ! b) = (mi_type (objs ?v ! b) = Group)"
    if "b < length (objs ?v)" for b
    using vf_start(2) [of opts sp] that unfolding marks_def by auto
  then have "\<forall>it \<in> set (objs ?v). mi_active it = False \<and> mi_expanded it = (mi_type it = Group)"
    by (metis in_set_conv_nth)
  then show ?thesis unfolding eq Let_def using r by simp
qed

theorem restored_item_not_marked_witness:
  "let m = fromJS (vf (buildStructure demo_options demo_spec)) (Some 1)
   in activeItemIdx m = 1 \<and> (\<forall>it \<in> set (objs m). \<not> mi_active it)"
  using restored_item_not_marked [of demo_options demo_spec "Some 1"] by (simp add: Let_def)

text \<open>What the loop of scrolling looks for.\<close>

lemma scroll_down:
  "\<exists>n. scroll_loop pg m True i = Some n \<and> i \<le> n \<and>
     (\<forall>k. i < k \<and> k \<le> n \<longrightarrow> \<not> isElementBellow pg (getElementAtOrFirstChild pg m k)) \<and>
     (int (length (flatItems m)) - 1 \<le> n \<or> isElementBellow pg (getElementAtOrFirstChild pg m (n + 1)))"
proof (induction "nat (int (length (flatItems m)) - 1 - i)" arbitrary: i rule: less_induct)
  case less
  show ?case
  proof (cases "int (length (flatItems m)) - 1 \<le> i \<or> isElementBellow pg (getElementAtOrFirstChild pg m (i + 1))")
    case True
    then have "scroll_loop pg m True i = Some i" by (subst scroll_loop.simps) auto
    then show ?thesis using True by auto
  next
    case False
    then have "scroll_loop pg m True i = scroll_loop pg m True (i + 1)" by (subst scroll_loop.simps) auto
    with less [of "i + 1"] False obtain n where n: "scroll_loop pg m True i = Some n" "i + 1 \<le> n"
      "\<forall>k. i + 1 < k \<and> k \<le> n \<longrightarrow> \<not> isElementBellow pg (getElementAtOrFirstChild pg m k)"
      "int (length (flatItems m)) - 1 \<le> n \<or> isElementBellow pg (getElementAtOrFirstChild pg m (n + 1))"
      by auto
    have "\<not> isElementBellow pg (getElementAtOrFirstChild pg m k)" if "i < k" "k \<le> n" for k
      using n(3) that False by (cases "k = i + 1") auto
    with n show ?thesis by auto
  qed
qed

lemma scroll_up:
  "- 1 \<le> i \<Longrightarrow> \<exists>n. scroll_loop pg m False i = Some n \<and> - 1 \<le> n \<and> n \<le> i \<and>
     (\<forall>k. n < k \<and> k \<le> i \<longrightarrow> \<not> isElementAbove pg (getElementAt pg m k)) \<and>
     (n = - 1 \<or> isElementAbove pg (getElementAt pg m n))"
proof (induction "nat (i + 1)" arbitrary: i rule: less_induct)
  case less
  show ?case
  proof (cases "i = - 1 \<or> isElementAbove pg (getElementAt pg m i)")
    case True
    then have "scroll_loop pg m False i = Some i" by (subst scroll_loop.simps) auto
    then show ?thesis using True less.prems by auto
  next
    case False
    then have "scroll_loop pg m False i = scroll_loop pg m False (i - 1)" by (subst scroll_loop.simps) auto
    with less.hyps [of "i - 1"] less.prems False obtain n where n: "scroll_loop pg m False i = Some n" "- 1 \<le> n" "n \<le> i - 1"
      "\<forall>k. n < k \<and> k \<le> i - 1 \<longrightarrow> \<not> isElementAbove pg (getElementAt pg m k)"
      "n = - 1 \<or> isElementAbove pg (getElementAt pg m n)"
      by auto
    have "\<not> isElementAbove pg (getElementAt pg m k)" if "n < k" "k \<le> i" for k
      using n(4) that False by (cases "k = i") auto
    with n show ?thesis by auto
  qed
qed

text \<open>
  C25: Handling a scroll event always ends. Scrolling down activates the first item from the active one
  on whose successor is still below the top of the view, or the last item; scrolling up activates
  the nearest item that has reached the top, or none.
\<close>

theorem scrolling_ends_at_visible_item:
  assumes "menu_reach (vf (buildStructure opts sp)) m"
  shows "\<exists>n. updateOnScroll pg m down = Some (activate m (flat_at m n) True True) \<and>
    (if down
     then activeItemIdx m \<le> n \<and>
       (\<forall>k. activeItemIdx m < k \<and> k \<le> n \<longrightarrow> \<not> isElementBellow pg (getElementAtOrFirstChild pg m k)) \<and>
       (int (length (flatItems m)) - 1 \<le> n \<or> isElementBellow pg (getElementAtOrFirstChild pg m (n + 1)))
     else - 1 \<le> n \<and> n \<le> activeItemIdx m \<and>
       (\<forall>k. n < k \<and> k \<le> activeItemIdx m \<longrightarrow> \<not> isElementAbove pg (getElementAt pg m k)) \<and>
       (n = - 1 \<or> isElementAbove pg (getElementAt pg m n)))"
proof (cases down)
  case True
  from scroll_down [of pg m "activeItemIdx m"] show ?thesis by (auto simp: updateOnScroll_def True)
next
  case False
  have "- 1 \<le> activeItemIdx m" using marks_reach [OF assms] by (simp add: marks_def)
  from scroll_up [OF this, of pg m] show ?thesis by (auto simp: updateOnScroll_def False)
qed

theorem scrolling_ends_at_visible_item_witness:
  "updateOnScroll demo_page (vf (buildStructure demo_options demo_spec)) True \<noteq> None"
  using scrolling_ends_at_visible_item [OF reach_start [of "vf (buildStructure demo_options demo_spec)"], of demo_page True] by auto

lemma activate_same:
  assumes "activeItem m = Some a" "mi_id (objs m ! b) = mi_id (objs m ! a)"
  shows "activate m (Some b) t n = m"
  using assms by (simp add: activate_def)

lemma history_same_item:
  assumes "activeItem m = Some a" "mi_id (objs m ! a) \<noteq> []"
  shows "objs (updateOnHistory pg m (mi_id (objs m ! a))) = objs m \<and>
    activeItemIdx (updateOnHistory pg m (mi_id (objs m ! a))) = activeItemIdx m"
proof -
  let ?i = "mi_id (objs m ! a)"
  have id: "mi_id (objs m ! b) = ?i" if "getItemById m ?i = Some b" for b
    using that unfolding getItemById_def by (auto simp: find_Some_iff)
  have "getItemById m ?i \<noteq> None"
    using activeItem_mem [OF assms(1)] unfolding getItemById_def find_None_iff by blast
  then obtain b where b: "getItemById m ?i = Some b" by blast
  have "activate m (Some b) False False = m" by (rule activate_same [OF assms(1) id [OF b]])
  then show ?thesis
    using assms(2) b id [OF b] by (simp add: updateOnHistory_def activateAndScroll_def Let_def)
qed

text \<open>
  C22: The location leads back to the item: activating an item asks for a hash that decodes to the
  identifier of the item, and the notification with that identifier leaves the menu as it is. The
  item is not a group, another item than the active one, and its identifier a text that is not empty.
\<close>

theorem location_leads_back:
  assumes "menu_reach (vf (buildStructure opts sp)) m" "a \<in> set (flatItems m)" "mi_type (objs m ! a) \<noteq> Group"
    and "map_option (\<lambda>b. mi_id (objs m ! b)) (activeItem m) \<noteq> Some (mi_id (objs m ! a))"
    and "utf8_ok (mi_id (objs m ! a))" "mi_id (objs m ! a) \<noteq> []"
  shows "\<exists>url. requests (activate m (Some a) True rw) = requests m @ [Replace url rw] \<and>
    currentId (linkForId url) = Some (mi_id (objs m ! a)) \<and>
    activeItem (activate m (Some a) True rw) = Some a \<and>
    objs (updateOnHistory pg (activate m (Some a) True rw) (mi_id (objs m ! a))) = objs (activate m (Some a) True rw) \<and>
    activeItemIdx (updateOnHistory pg (activate m (Some a) True rw) (mi_id (objs m ! a))) =
      activeItemIdx (activate m (Some a) True rw)"
proof -
  let ?m = "activate m (Some a) True rw" and ?i = "mi_id (objs m ! a)"
  define st where "st = deactivate (activeItem m) (objs m)"
  have m: "sound m" using marks_reach [OF assms(1)] by blast
  then obtain k where a: "a < length (objs m)" "k < length (flatItems m)" "mi_absoluteIdx (objs m ! a) = Some k" "flatItems m ! k = a"
    using assms(2) by (auto simp: sound_def)
  have sk: "map skeleton (objs m) = map skeleton st" by (simp add: st_def)
  note eq = skeleton_fields [OF skeleton_nth [OF sk a(1)]]
  have "\<not> mi_depth (st ! a) \<le> 0" using shapeD(4) [of "objs m" a] m a(1) assms(3) eq(4) by (simp add: sound_def)
  moreover have "mi_id (st ! a) = ?i" "mi_absoluteIdx (st ! a) = Some k" using eq a(3) by simp_all
  ultimately have "requests ?m = requests m @ [Replace (encodeURI ?i) rw]" and idx: "activeItemIdx ?m = int k"
    using assms(3,4) by (auto simp: activate_def st_def Let_def)
  moreover have act: "activeItem ?m = Some a" using idx a activate_frame(2) by (simp add: activeItem_def flat_at_def)
  moreover have "mi_id (objs ?m ! a) = ?i"
    using skeleton_fields(1) [OF skeleton_nth [OF activate_frame(1) [of m "Some a" True rw, symmetric] a(1)]] by simp
  moreover have "encodeURI ?i \<noteq> []" using assms(6) by (cases ?i) (simp_all add: encodeURI_def)
  then have "currentId (linkForId (encodeURI ?i)) = Some ?i"
    using decode_encode [OF assms(5)] by (simp add: currentId_def linkForId_def)
  ultimately show ?thesis using history_same_item [OF act, of pg] assms(6) by auto
qed

theorem location_leads_back_witness:
  "\<exists>url. requests (activate (vf (buildStructure demo_options demo_spec)) (Some 1) True False) = [Replace url False] \<and>
     currentId (linkForId url) = Some (mi_id (objs (vf (buildStructure demo_options demo_spec)) ! 1))"
proof -
  let ?m = "vf (buildStructure demo_options demo_spec)"
  have 1: "1 \<in> set (flatItems ?m)" "mi_type (objs ?m ! 1) \<noteq> Group" "utf8_ok (mi_id (objs ?m ! 1))" "mi_id (objs ?m ! 1) \<noteq> []"
    "map_option (\<lambda>b. mi_id (objs ?m ! b)) (activeItem ?m) \<noteq> Some (mi_id (objs ?m ! 1))" "requests ?m = []" by code_simp+
  from location_leads_back [OF reach_start 1(1,2,5,3,4), of False demo_page] 1(6) show ?thesis by auto
qed

end
