(* ===== verification/Redoc_Scroll.thy ===== *)
theory Redoc_Scroll
  imports Redoc_Menu
begin

text \<open>
  The scroll service of the bundle (class \<open>Sf\<close>) between the browser and the menu: its handler
  compares the offset of the page with the one of its last run and tells the menu the direction, and
  a decorator throttles the handler to one run in 100 milliseconds with a timer for the rest.
\<close>

section \<open>The service\<close>

text \<open>
  The offset of the last run (\<open>_prevOffsetY\<close>), the offset of the page, the decorator's variables
  \<open>a\<close> (time of the last run) and \<open>o\<close> (the timer, here the time it is due), the clock, the menu that
  subscribes, and the times and offsets of all runs, newest first, which the code does not keep. A
  page at an offset is given by its layout.
\<close>

record scroller =
  prevOffsetY :: rat
  scrollY :: rat
  last_run :: int
  timer :: "int option"
  clock :: int
  sc_menu :: menu
  runs :: "int list"
  run_offsets :: "rat list"

definition Sf :: "rat \<Rightarrow> int \<Rightarrow> menu \<Rightarrow> scroller" where
  "Sf y t m = \<lparr>prevOffsetY = y, scrollY = y, last_run = 0, timer = None, clock = t, sc_menu = m, runs = [],
     run_offsets = []\<rparr>"

definition handleScroll :: "(rat \<Rightarrow> page) \<Rightarrow> int \<Rightarrow> scroller \<Rightarrow> scroller option" where
  "handleScroll layout t s =
     (let down = 0 < scrollY s - prevOffsetY s
      in map_option (\<lambda>m. s\<lparr>prevOffsetY := scrollY s, sc_menu := m, runs := t # runs s,
                                run_offsets := scrollY s # run_offsets s\<rparr>)
           (updateOnScroll (layout (scrollY s)) (sc_menu s) down))"

text \<open>The decorated handler, called by the browser at a time and an offset.\<close>

definition throttled :: "(rat \<Rightarrow> page) \<Rightarrow> int \<Rightarrow> rat \<Rightarrow> scroller \<Rightarrow> scroller option" where
  "throttled layout t y s =
     (let s1 = s\<lparr>scrollY := y, clock := t\<rparr>; l = 100 - (t - last_run s) in
      if l \<le> 0 \<or> 100 < l then handleScroll layout t (s1\<lparr>timer := None, last_run := t\<rparr>)
      else Some (if timer s = None then s1\<lparr>timer := Some (t + l)\<rparr> else s1))"

text \<open>The function given to \<open>setTimeout\<close>.\<close>

definition on_timer :: "(rat \<Rightarrow> page) \<Rightarrow> int \<Rightarrow> scroller \<Rightarrow> scroller option" where
  "on_timer layout t s = handleScroll layout t (s\<lparr>clock := t, last_run := t, timer := None\<rparr>)"

text \<open>The browser: time passes, and a timer is called when it is due or later.\<close>

inductive scroll_step :: "(rat \<Rightarrow> page) \<Rightarrow> scroller \<Rightarrow> scroller \<Rightarrow> bool" for layout where
  event: "clock s \<le> t \<Longrightarrow> throttled layout t y s = Some s' \<Longrightarrow> scroll_step layout s s'"
| fire: "clock s \<le> t \<Longrightarrow> timer s = Some due \<Longrightarrow> due \<le> t \<Longrightarrow> on_timer layout t s = Some s' \<Longrightarrow> scroll_step layout s s'"

section \<open>Lemmas\<close>

lemma handleScroll_Some:
  "handleScroll layout t s = Some s' \<longleftrightarrow>
     (\<exists>m. updateOnScroll (layout (scrollY s)) (sc_menu s) (0 < scrollY s - prevOffsetY s) = Some m \<and>
       s' = s\<lparr>prevOffsetY := scrollY s, sc_menu := m, runs := t # runs s, run_offsets := scrollY s # run_offsets s\<rparr>)"
  by (auto simp: handleScroll_def Let_def)

text \<open>A menu that the page can reach always answers, so the handler returns.\<close>

lemma updateOnScroll_total:
  assumes "menu_reach (vf (buildStructure opts sp)) m"
  shows "\<exists>m'. updateOnScroll pg m down = Some m'"
proof (cases down)
  case True
  from scroll_down [of pg m "activeItemIdx m"] show ?thesis by (auto simp: updateOnScroll_def True)
next
  case False
  have "- 1 \<le> activeItemIdx m" using marks_reach [OF assms] by (simp add: marks_def)
  from scroll_up [OF this, of pg m] show ?thesis by (auto simp: updateOnScroll_def False)
qed

text \<open>
  The state of the throttle: the clock is not behind the last run, a pending timer is due 100
  milliseconds after the last run, and the runs are 100 milliseconds apart.
\<close>

fun spaced :: "int list \<Rightarrow> bool" where
  "spaced (t # t' # ts) = (t' + 100 \<le> t \<and> spaced (t' # ts))"
| "spaced _ = True"

definition paced :: "scroller \<Rightarrow> bool" where
  "paced s \<longleftrightarrow> last_run s \<le> clock s \<and> (\<forall>d. timer s = Some d \<longrightarrow> d = last_run s + 100) \<and> spaced (runs s) \<and>
     (runs s \<noteq> [] \<longrightarrow> hd (runs s) = last_run s)"

text \<open>
  The menu that looks at a page at each of the offsets in turn, down when the offset grew and up
  otherwise, starting at the offset \<open>y\<close>.
\<close>

primrec replay :: "(rat \<Rightarrow> page) \<Rightarrow> rat list \<Rightarrow> rat \<Rightarrow> menu \<Rightarrow> menu option" where
  "replay layout [] y m = Some m"
| "replay layout (z # zs) y m = Option.bind (updateOnScroll (layout z) m (y < z)) (replay layout zs z)"

lemma replay_snoc:
  "replay layout (zs @ [z]) y m =
     Option.bind (replay layout zs y m) (\<lambda>m'. updateOnScroll (layout z) m' (last (y # zs) < z))"
proof (induction zs arbitrary: y m)
  case (Cons x zs)
  then show ?case by (cases "updateOnScroll (layout x) m (y < x)") simp_all
next
  case Nil
  then show ?case by (cases "updateOnScroll (layout z) m (y < z)") simp_all
qed

definition followed :: "(rat \<Rightarrow> page) \<Rightarrow> rat \<Rightarrow> menu \<Rightarrow> scroller \<Rightarrow> bool" where
  "followed layout y0 m0 s \<longleftrightarrow> length (run_offsets s) = length (runs s) \<and>
     prevOffsetY s = last (y0 # rev (run_offsets s)) \<and>
     replay layout (rev (run_offsets s)) y0 m0 = Some (sc_menu s)"

lemma spaced_Cons: "spaced (t # ts) \<longleftrightarrow> spaced ts \<and> (ts \<noteq> [] \<longrightarrow> hd ts + 100 \<le> t)"
  by (cases ts) auto

lemma run_paced:
  assumes "handleScroll layout t s = Some s'" "spaced (runs s)" "runs s \<noteq> [] \<Longrightarrow> hd (runs s) + 100 \<le> t"
    and "last_run s = t" "clock s = t" "timer s = None"
  shows "paced s'"
  using assms by (auto simp: handleScroll_Some paced_def spaced_Cons)

lemma run_followed:
  assumes "handleScroll layout t s = Some s'" "followed layout y0 m0 s"
  shows "followed layout y0 m0 s'"
  using assms by (auto simp: handleScroll_Some followed_def replay_snoc)

lemma run_reach:
  assumes "handleScroll layout t s = Some s'" "menu_reach m0 (sc_menu s)"
  shows "menu_reach m0 (sc_menu s') \<and> prevOffsetY s' = scrollY s'"
proof -
  obtain m where m: "updateOnScroll (layout (scrollY s)) (sc_menu s) (0 < scrollY s - prevOffsetY s) = Some m"
    "sc_menu s' = m" "prevOffsetY s' = scrollY s'"
    using assms(1) by (auto simp: handleScroll_Some)
  then show ?thesis using reach_step [OF assms(2) on_scroll [OF m(1)]] by simp
qed

text \<open>The invariant of all steps.\<close>

definition scroll_inv :: "(rat \<Rightarrow> page) \<Rightarrow> rat \<Rightarrow> menu \<Rightarrow> scroller \<Rightarrow> bool" where
  "scroll_inv layout y0 m0 s \<longleftrightarrow> paced s \<and> menu_reach m0 (sc_menu s) \<and> followed layout y0 m0 s \<and>
     (timer s = None \<longrightarrow> prevOffsetY s = scrollY s)"

lemma Sf_inv: "0 \<le> t \<Longrightarrow> scroll_inv layout y m (Sf y t m)"
  by (simp add: scroll_inv_def paced_def followed_def Sf_def reach_start)

lemma throttled_wait:
  assumes "t - last_run s < 100" "last_run s \<le> t"
  shows "throttled layout t y s =
    Some (s\<lparr>scrollY := y, clock := t, timer := Some (case timer s of None \<Rightarrow> last_run s + 100 | Some d \<Rightarrow> d)\<rparr>)"
  using assms by (auto simp: throttled_def Let_def split: option.split)

lemma run_inv:
  assumes h: "handleScroll layout t s = Some s'" and p: "paced s'"
    and "menu_reach m0 (sc_menu s)" "followed layout y0 m0 s"
  shows "scroll_inv layout y0 m0 s'"
  using p run_reach [OF h assms(3)] run_followed [OF h assms(4)] by (simp add: scroll_inv_def)

lemma scroll_step_inv:
  assumes "scroll_step layout s s'" "scroll_inv layout y0 m0 s"
  shows "scroll_inv layout y0 m0 s'"
  using assms(1)
proof cases
  case (event t y)
  have le: "last_run s \<le> t" using event(1) assms(2) by (simp add: scroll_inv_def paced_def)
  show ?thesis
  proof (cases "t - last_run s < 100")
    case True
    then show ?thesis
      using event throttled_wait [OF True le] assms(2)
      by (auto simp: scroll_inv_def paced_def followed_def split: option.splits)
  next
    case False
    let ?s = "s\<lparr>scrollY := y, clock := t, timer := None, last_run := t\<rparr>"
    have h: "handleScroll layout t ?s = Some s'" using event(2) False by (simp add: throttled_def Let_def)
    have p: "paced s'" using assms(2) False by (intro run_paced [OF h]) (auto simp: scroll_inv_def paced_def)
    show ?thesis using assms(2) by (intro run_inv [OF h p]) (simp_all add: scroll_inv_def followed_def)
  qed
next
  case (fire t due)
  let ?s = "s\<lparr>clock := t, last_run := t, timer := None\<rparr>"
  have h: "handleScroll layout t ?s = Some s'" using fire(4) by (simp add: on_timer_def)
  have p: "paced s'" using assms(2) fire by (intro run_paced [OF h]) (auto simp: scroll_inv_def paced_def)
  show ?thesis using assms(2) by (intro run_inv [OF h p]) (simp_all add: scroll_inv_def followed_def)
qed

interpretation throttle: step_invariant "scroll_step layout" "scroll_inv layout y0 m0" for layout y0 m0
  by unfold_locales (rule scroll_step_inv)

lemma menu_reach_trans: "menu_reach m1 m2 \<Longrightarrow> menu_reach m0 m1 \<Longrightarrow> menu_reach m0 m2"
  by (induction rule: menu_reach.induct) (auto intro: reach_step)

lemma handleScroll_total:
  assumes "menu_reach (vf (buildStructure opts sp)) (sc_menu s)"
  shows "\<exists>s'. handleScroll layout t s = Some s'"
  using updateOnScroll_total [OF assms, of "layout (scrollY s)" "0 < scrollY s - prevOffsetY s"]
  by (auto simp: handleScroll_Some)

lemma service_inv:
  assumes "menu_reach (vf (buildStructure opts sp)) m" "0 \<le> t0" "(scroll_step layout)\<^sup>*\<^sup>* (Sf y0 t0 m) s"
  shows "scroll_inv layout y0 m s" "menu_reach (vf (buildStructure opts sp)) (sc_menu s)"
proof -
  show i: "scroll_inv layout y0 m s" using throttle.steps [OF assms(3) Sf_inv [OF assms(2)]] .
  show "menu_reach (vf (buildStructure opts sp)) (sc_menu s)"
    using i menu_reach_trans [OF _ assms(1)] by (simp add: scroll_inv_def)
qed

section \<open>Properties\<close>

definition demo_layout :: "rat \<Rightarrow> page" where
  "demo_layout y = \<lparr>element_top = (\<lambda>i. Some (- y)), scrollYOffset = 0\<rparr>"

abbreviation demo_menu :: menu where
  "demo_menu \<equiv> vf (buildStructure demo_options demo_spec)"

text \<open>
  C26: Scroll events are throttled without being lost. While the clock does not run backwards, two
  runs of the handler are at least 100 milliseconds apart, and every event of the browser, which
  always returns, either runs the handler at once or leaves a timer that is due at the end of the 100
  milliseconds that started with the last run.
\<close>

theorem scroll_throttle:
  assumes "menu_reach (vf (buildStructure opts sp)) m" "0 \<le> t0"
    and "(scroll_step layout)\<^sup>*\<^sup>* (Sf y0 t0 m) s" "clock s \<le> t"
  shows "spaced (runs s) \<and>
    (\<exists>s'. throttled layout t y s = Some s' \<and>
      (runs s' = t # runs s \<and> timer s' = None \<or>
       runs s' = runs s \<and> timer s' = Some (last_run s + 100) \<and> t < last_run s + 100 \<and> last_run s + 100 \<le> t + 100))"
proof -
  note inv = service_inv [OF assms(1-3)]
  have le: "last_run s \<le> t" using inv(1) assms(4) by (simp add: scroll_inv_def paced_def)
  have "\<exists>s'. throttled layout t y s = Some s' \<and>
      (runs s' = t # runs s \<and> timer s' = None \<or>
       runs s' = runs s \<and> timer s' = Some (last_run s + 100) \<and> t < last_run s + 100 \<and> last_run s + 100 \<le> t + 100)"
  proof (cases "t - last_run s < 100")
    case True
    then show ?thesis
      using throttled_wait [OF True le, of layout y] inv(1) le
      by (auto simp: scroll_inv_def paced_def split: option.split)
  next
    case False
    then show ?thesis
      using handleScroll_total [of opts sp "s\<lparr>scrollY := y, clock := t, timer := None, last_run := t\<rparr>" layout t] inv(2)
      by (auto simp: throttled_def Let_def handleScroll_Some)
  qed
  then show ?thesis using inv(1) by (simp add: scroll_inv_def paced_def)
qed

theorem scroll_throttle_witness:
  "\<exists>s'. throttled demo_layout 5000 7 (Sf 0 4000 demo_menu) = Some s' \<and> runs s' \<noteq> []"
proof -
  have s: "(scroll_step demo_layout)\<^sup>*\<^sup>* (Sf 0 4000 demo_menu) (Sf 0 4000 demo_menu)" by simp
  have t: "(0::int) \<le> 4000" "clock (Sf 0 4000 demo_menu) \<le> 5000" by (simp_all add: Sf_def)
  have l: "last_run (Sf 0 4000 demo_menu) = 0" by (simp add: Sf_def)
  from scroll_throttle [OF reach_start t(1) s t(2), of 7] show ?thesis by (auto simp: l)
qed

text \<open>
  C27: The menu catches up. When the browser stops sending events, the pending timer, if there is one,
  is due within 100 milliseconds and its call always returns; from then on no timer is pending, the
  last run saw the final offset of the page, and the menu is the one it started with after looking at
  the page at the offset of each run in turn, down exactly when the offset was greater than at the
  run before, however many events were skipped.
\<close>

theorem scrolling_settles:
  assumes "menu_reach (vf (buildStructure opts sp)) m" "0 \<le> t0" "(scroll_step layout)\<^sup>*\<^sup>* (Sf y0 t0 m) s"
  shows "\<exists>s'. (if timer s = None then s' = s
      else \<exists>d \<le> clock s + 100. timer s = Some d \<and> on_timer layout (max (clock s) d) s = Some s') \<and>
    timer s' = None \<and> scrollY s' = scrollY s \<and> prevOffsetY s' = scrollY s \<and>
    length (run_offsets s') = length (runs s') \<and> last (y0 # rev (run_offsets s')) = scrollY s \<and>
    replay layout (rev (run_offsets s')) y0 m = Some (sc_menu s')"
proof (cases "timer s")
  case None
  then show ?thesis using service_inv(1) [OF assms] by (auto simp: scroll_inv_def followed_def)
next
  case (Some d)
  note inv = service_inv [OF assms]
  let ?t = "max (clock s) d"
  let ?s = "s\<lparr>clock := ?t, last_run := ?t, timer := None\<rparr>"
  obtain s' where h: "handleScroll layout ?t ?s = Some s'"
    using handleScroll_total [of opts sp ?s layout ?t] inv(2) by auto
  have "followed layout y0 m s'"
    using inv(1) by (intro run_followed [OF h]) (simp add: scroll_inv_def followed_def)
  moreover have "timer s' = None" "scrollY s' = scrollY s" "prevOffsetY s' = scrollY s" using h by (auto simp: handleScroll_Some)
  moreover have "d \<le> clock s + 100" using inv(1) Some by (auto simp: scroll_inv_def paced_def)
  ultimately show ?thesis
    using h Some by (intro exI [of _ s']) (auto simp: on_timer_def followed_def)
qed

theorem scrolling_settles_witness:
  "\<exists>s'. on_timer demo_layout 5100 ((the (throttled demo_layout 5000 7 (Sf 0 4000 demo_menu)))
      \<lparr>scrollY := 9, clock := 5030, timer := Some 5100\<rparr>) = Some s' \<and> prevOffsetY s' = 9"
proof -
  let ?s0 = "Sf 0 4000 demo_menu" and ?s1 = "the (throttled demo_layout 5000 7 (Sf 0 4000 demo_menu))"
  have "\<exists>s1. handleScroll demo_layout 5000 (?s0\<lparr>scrollY := 7, clock := 5000, timer := None, last_run := 5000\<rparr>) = Some s1"
    by (rule handleScroll_total [of demo_options demo_spec]) (simp add: Sf_def reach_start)
  then obtain s1 where s1: "throttled demo_layout 5000 7 ?s0 = Some s1" "last_run s1 = 5000" "clock s1 = 5000" "timer s1 = None"
    by (auto simp: throttled_def Let_def Sf_def handleScroll_Some)
  let ?s2 = "s1\<lparr>scrollY := 9, clock := 5030, timer := Some 5100\<rparr>"
  have w: "throttled demo_layout 5030 9 s1 = Some ?s2"
    using throttled_wait [of 5030 s1 demo_layout 9] s1 by simp
  have "scroll_step demo_layout ?s0 s1" by (rule event [OF _ s1(1)]) (simp add: Sf_def)
  moreover have "scroll_step demo_layout s1 ?s2" by (rule event [OF _ w]) (simp add: s1(3))
  ultimately have "(scroll_step demo_layout)\<^sup>*\<^sup>* ?s0 ?s2" by simp
  from scrolling_settles [OF reach_start _ this] show ?thesis by (auto simp: s1(1))
qed

end
