(* ===== verification/Redoc_Search.thy ===== *)
theory Redoc_Search
  imports Redoc_Menu
begin

text \<open>
  The search of the bundle: the search service (class \<open>Of\<close>) gives the items of the menu to a worker
  whose index is the third-party package lunr, and the search box (class \<open>Gv\<close>) sends terms to the
  worker after a delay of 400 milliseconds, shows the hits and activates items of the menu by keyboard.
\<close>

section \<open>The worker\<close>

text \<open>The documents given to the index, and the identifiers (\<open>meta\<close>) of their items.\<close>

record document =
  doc_title :: string
  doc_description :: string
  doc_ref :: nat

record worker =
  wk_docs :: "document list"
  wk_store :: "string list"

definition worker_start :: worker where
  "worker_start = \<lparr>wk_docs = [], wk_store = []\<rparr>"

definition worker_add :: "string \<Rightarrow> string \<Rightarrow> string \<Rightarrow> worker \<Rightarrow> worker" where
  "worker_add title description meta w =
     \<lparr>wk_docs = wk_docs w @ [\<lparr>doc_title = lower title, doc_description = lower description, doc_ref = length (wk_store w)\<rparr>],
      wk_store = wk_store w @ [meta]\<rparr>"

record hit =
  h_meta :: "string option"
  h_score :: rat

definition is_blank :: "char \<Rightarrow> bool" where
  "is_blank c \<longleftrightarrow> (of_char c :: nat) \<in> {9, 10, 11, 12, 13, 32, 160}"

definition trim :: "string \<Rightarrow> string" where
  "trim s = rev (dropWhile is_blank (rev (dropWhile is_blank s)))"

text \<open>\<open>split(/\s+/)\<close>.\<close>

fun split_space :: "bool \<Rightarrow> string \<Rightarrow> string list" where
  "split_space gap [] = [[]]"
| "split_space gap (c # s) =
     (if is_blank c then (if gap then split_space True s else [] # split_space True s)
      else (case split_space False s of [] \<Rightarrow> [[c]] | w # ws \<Rightarrow> (c # w) # ws))"

definition query_terms :: "string \<Rightarrow> string list" where
  "query_terms q = filter (\<lambda>t. length t \<noteq> 1) (split_space False (lower (trim q)))"

text \<open>
  The index as a function from its documents and the terms of a query to references with scores. The
  package documents that results are references of documents and come with the best score first.
\<close>

type_synonym lunr = "document list \<Rightarrow> string list \<Rightarrow> (nat \<times> rat) list"

definition lunr_laws :: "lunr \<Rightarrow> bool" where
  "lunr_laws query \<longleftrightarrow> (\<forall>docs ts.
     fst ` set (query docs ts) \<subseteq> doc_ref ` set docs \<and> sorted_wrt (\<lambda>a b. snd b \<le> snd a) (query docs ts))"

definition worker_search :: "lunr \<Rightarrow> worker \<Rightarrow> string \<Rightarrow> hit list" where
  "worker_search query w q =
     (if trim q = [] then []
      else map (\<lambda>(r, sc). \<lparr>h_meta = (if r < length (wk_store w) then Some (wk_store w ! r) else None), h_score = sc\<rparr>)
             (query (wk_docs w) (query_terms q)))"

section \<open>Indexing the menu\<close>

text \<open>
  \<open>indexItems\<close>: every item that is not a group, with its name, its description and path, and its
  identifier, then its children. The first argument bounds the depth, as in \<open>flatten_items\<close>.
\<close>

fun index_items :: "nat \<Rightarrow> objects \<Rightarrow> (nat \<Rightarrow> string option \<times> string option) \<Rightarrow> nat list \<Rightarrow> worker \<Rightarrow> worker" where
  "index_items 0 st tx as w = w"
| "index_items (Suc f) st tx as w =
     fold (\<lambda>a w. index_items f st tx (mi_items (st ! a))
        (if mi_type (st ! a) \<noteq> Group
         then worker_add (mi_name (st ! a)) (str_or (fst (tx a)) [] @ '' '' @ str_or (snd (tx a)) []) (mi_id (st ! a)) w
         else w)) as w"

definition indexItems :: "(nat \<Rightarrow> string option \<times> string option) \<Rightarrow> menu \<Rightarrow> worker" where
  "indexItems tx m = index_items (Suc (length (objs m))) (objs m) tx (top_items m) worker_start"

section \<open>The search box\<close>

text \<open>
  The state of the component, the arguments of the debounced \<open>searchCallback\<close> whose timer runs, the
  terms sent to the worker and not yet answered, and the term that the marker highlights.
\<close>

record box =
  results :: "hit list"
  noResults :: bool
  search_term :: string
  active_idx :: int
  debounced :: "string option"
  in_flight :: "string list"
  marked :: string

definition Gv :: box where
  "Gv = \<lparr>results = [], noResults = False, search_term = [], active_idx = - 1, debounced = None, in_flight = [], marked = []\<rparr>"

definition box_clear :: "box \<Rightarrow> box" where
  "box_clear b = b\<lparr>results := [], noResults := False, search_term := [], active_idx := - 1, marked := []\<rparr>"

definition clearResults :: "string \<Rightarrow> box \<Rightarrow> box" where
  "clearResults e b = b\<lparr>results := [], noResults := False, search_term := e, marked := []\<rparr>"

text \<open>\<open>marker.mark\<close> keeps the previous term when the new one is empty.\<close>

definition setResults :: "hit list \<Rightarrow> string \<Rightarrow> box \<Rightarrow> box" where
  "setResults e t b = b\<lparr>results := e, noResults := (e = []), marked := (if t = [] then marked b else t)\<rparr>"

text \<open>
  The change handler of the input. \<open>debounce\<close> starts a timer unless one runs, and the function it
  calls uses the arguments of the latest call.
\<close>

definition box_search :: "nat \<Rightarrow> string \<Rightarrow> box \<Rightarrow> box" where
  "box_search minCharacterLengthToInitSearch n b =
     (if length n < minCharacterLengthToInitSearch then clearResults n b
      else b\<lparr>search_term := n, debounced := Some n\<rparr>)"

definition on_debounce :: "box \<Rightarrow> box" where
  "on_debounce b = (case debounced b of None \<Rightarrow> b | Some q \<Rightarrow> b\<lparr>debounced := None, in_flight := in_flight b @ [q]\<rparr>)"

text \<open>The worker answers in the order of the requests.\<close>

definition on_answer :: "(string \<Rightarrow> hit list) \<Rightarrow> box \<Rightarrow> box" where
  "on_answer sv b = (case in_flight b of [] \<Rightarrow> b | q # qs \<Rightarrow> setResults (sv q) q (b\<lparr>in_flight := qs\<rparr>))"

datatype key = Escape | Down | Up | Enter

definition result_at :: "box \<Rightarrow> hit option" where
  "result_at b = (if 0 \<le> active_idx b \<and> nat (active_idx b) < length (results b)
                  then Some (results b ! nat (active_idx b)) else None)"

definition hit_item :: "menu \<Rightarrow> hit \<Rightarrow> nat option" where
  "hit_item m h = (case h_meta h of None \<Rightarrow> None | Some i \<Rightarrow> getItemById m i)"

text \<open>What the enter key activates.\<close>

definition entered :: "menu \<Rightarrow> box \<Rightarrow> nat option" where
  "entered m b = (case result_at b of None \<Rightarrow> None | Some h \<Rightarrow> hit_item m h)"

definition handleKeyDown :: "page \<Rightarrow> key \<Rightarrow> box \<times> menu \<Rightarrow> box \<times> menu" where
  "handleKeyDown pg k s =
     (case s of (b, m) \<Rightarrow>
        (case k of
           Escape \<Rightarrow> (box_clear b, m)
         | Down \<Rightarrow> (b\<lparr>active_idx := min (active_idx b + 1) (int (length (results b)) - 1)\<rparr>, m)
         | Up \<Rightarrow> (b\<lparr>active_idx := max 0 (active_idx b - 1)\<rparr>, m)
         | Enter \<Rightarrow> (case entered m b of None \<Rightarrow> (b, m) | Some a \<Rightarrow> (b, activateAndScroll pg m (Some a) True))))"

text \<open>The list that \<open>render\<close> shows, best score first, and the entry it highlights.\<close>

definition rendered :: "menu \<Rightarrow> box \<Rightarrow> (nat \<times> rat) list" where
  "rendered m b =
     sort_key (\<lambda>x. - snd x) (map (\<lambda>h. (the (hit_item m h), h_score h)) (filter (\<lambda>h. hit_item m h \<noteq> None) (results b)))"

definition highlighted :: "menu \<Rightarrow> box \<Rightarrow> nat option" where
  "highlighted m b = (if 0 \<le> active_idx b \<and> nat (active_idx b) < length (rendered m b)
                      then Some (fst (rendered m b ! nat (active_idx b))) else None)"

text \<open>The box and the menu under all events; the menu also moves on its own.\<close>

inductive box_step :: "nat \<Rightarrow> (string \<Rightarrow> hit list) \<Rightarrow> box \<times> menu \<Rightarrow> box \<times> menu \<Rightarrow> bool" for mn sv where
  typed: "box_step mn sv (b, m) (box_search mn n b, m)"
| pressed: "box_step mn sv s (handleKeyDown pg k s)"
| cleared: "box_step mn sv (b, m) (box_clear b, m)"
| fired: "box_step mn sv (b, m) (on_debounce b, m)"
| answered: "box_step mn sv (b, m) (on_answer sv b, m)"
| moved: "menu_step m m' \<Longrightarrow> box_step mn sv (b, m) (b, m')"

text \<open>What is left to come when the user does nothing more: the timer and all answers.\<close>

definition settle :: "(string \<Rightarrow> hit list) \<Rightarrow> box \<Rightarrow> box" where
  "settle sv b = (let b1 = on_debounce b in (on_answer sv ^^ length (in_flight b1)) b1)"

section \<open>Lemmas\<close>

subsection \<open>The index holds the items of the menu\<close>

lemma worker_add_simps [simp]:
  "wk_store (worker_add t d i w) = wk_store w @ [i]"
  "map doc_ref (wk_docs (worker_add t d i w)) = map doc_ref (wk_docs w) @ [length (wk_store w)]"
  by (simp_all add: worker_add_def)

lemma index_items_store:
  "wk_store (index_items f st tx as w) =
     wk_store w @ map (\<lambda>a. mi_id (st ! a)) (filter (\<lambda>a. mi_type (st ! a) \<noteq> Group) (flatten_items f st as))"
proof (induction f arbitrary: as w)
  case (Suc f)
  show ?case
    by (induction as arbitrary: w) (auto simp: Suc.IH)
qed simp

definition numbered :: "worker \<Rightarrow> bool" where
  "numbered w \<longleftrightarrow> map doc_ref (wk_docs w) = [0 ..< length (wk_store w)]"

lemma numbered_add: "numbered w \<Longrightarrow> numbered (worker_add t d i w)"
  by (simp add: numbered_def)

lemma numbered_fold: "(\<And>a w. numbered w \<Longrightarrow> numbered (g a w)) \<Longrightarrow> numbered w \<Longrightarrow> numbered (fold g as w)"
  by (induction as arbitrary: w) auto

lemma numbered_index: "numbered w \<Longrightarrow> numbered (index_items f st tx as w)"
proof (induction f arbitrary: as w)
  case (Suc f)
  show ?case unfolding index_items.simps by (rule numbered_fold [OF _ Suc.prems]) (auto intro!: Suc.IH numbered_add)
qed simp

lemma number_items_items: "mi_items (number_items k as st ! a) = mi_items (st ! a)"
proof (induction as arbitrary: k st)
  case (Cons b as)
  have "mi_items (st[b := (st ! b)\<lparr>mi_absoluteIdx := Some k\<rparr>] ! a) = mi_items (st ! a)"
    by (cases "b = a"; cases "b < length st") (auto simp: list_update_beyond)
  with Cons.IH show ?case by simp
qed simp

lemma flatten_items_cong:
  "(\<And>a. mi_items (st ! a) = mi_items (st' ! a)) \<Longrightarrow> flatten_items f st as = flatten_items f st' as"
  by (induction f arbitrary: as) auto

lemma indexed_ids:
  "set (wk_store (indexItems tx (vf c))) \<subseteq> (\<lambda>a. mi_id (objs (vf c) ! a)) ` set (flatItems (vf c))"
proof -
  have "flatten_items (Suc (length (objs (vf c)))) (objs (vf c)) (top_items (vf c)) = flatItems (vf c)"
    by (simp add: vf_def Let_def number_items_items
        flatten_items_cong [where st = "number_items k as st" and st' = st for k as st] del: flatten_items.simps)
  then show ?thesis
    by (auto simp: indexItems_def index_items_store worker_start_def simp del: flatten_items.simps index_items.simps)
qed

lemma indexed_refs:
  "set (map doc_ref (wk_docs (indexItems tx m))) = {0 ..< length (wk_store (indexItems tx m))}"
proof -
  have "numbered (indexItems tx m)"
    unfolding indexItems_def by (rule numbered_index) (simp add: numbered_def worker_start_def)
  then show ?thesis unfolding numbered_def by (metis set_upt)
qed

subsection \<open>What steps keep\<close>

text \<open>The menu keeps its items, up to what is active and expanded.\<close>

lemma activateAndScroll_frame:
  "map skeleton (objs (activateAndScroll pg m e t)) = map skeleton (objs m)"
  "flatItems (activateAndScroll pg m e t) = flatItems m"
  by (auto simp: activateAndScroll_def Let_def scrollToActive_def scroll_to_def closeSidebar_def activate_frame
      split: option.splits)

lemma menu_step_frame:
  "menu_step m m' \<Longrightarrow> map skeleton (objs m') = map skeleton (objs m) \<and> flatItems m' = flatItems m"
  by (induction rule: menu_step.induct)
     (auto simp: updateOnScroll_def updateOnHistory_def menu_click_def scroll_to_def toggleSidebar_def closeSidebar_def
       activateAndScroll_frame activate_frame split: option.splits)

text \<open>All hits of the box name items of the menu, best score first.\<close>

definition good_hits :: "string set \<Rightarrow> hit list \<Rightarrow> bool" where
  "good_hits ids xs \<longleftrightarrow> (\<forall>h \<in> set xs. \<exists>i \<in> ids. h_meta h = Some i) \<and> sorted_wrt (\<lambda>a b. h_score b \<le> h_score a) xs"

definition menu_ids :: "menu \<Rightarrow> string set" where
  "menu_ids m = (\<lambda>a. mi_id (objs m ! a)) ` set (flatItems m)"

lemma getItemById_ids: "i \<in> menu_ids m \<Longrightarrow> getItemById m i \<noteq> None"
  by (auto simp: menu_ids_def getItemById_def find_None_iff)

lemma search_good:
  assumes "lunr_laws query"
  shows "good_hits (set (wk_store (indexItems tx m))) (worker_search query (indexItems tx m) q)"
proof -
  let ?w = "indexItems tx m"
  have "fst ` set (query (wk_docs ?w) ts) \<subseteq> doc_ref ` set (wk_docs ?w)"
    "sorted_wrt (\<lambda>a b. snd b \<le> snd a) (query (wk_docs ?w) ts)" for ts
    using assms by (simp_all add: lunr_laws_def)
  then have q: "fst ` set (query (wk_docs ?w) ts) \<subseteq> {0 ..< length (wk_store ?w)}"
    "sorted_wrt (\<lambda>a b. snd b \<le> snd a) (query (wk_docs ?w) ts)" for ts
    unfolding indexed_refs [of tx m, unfolded set_map, symmetric] by blast+
  have "\<exists>i \<in> set (wk_store ?w). h_meta h = Some i" if "h \<in> set (worker_search query ?w q)" for h
    using that q(1) by (force simp: worker_search_def split: if_splits)
  moreover have "sorted_wrt (\<lambda>a b. h_score b \<le> h_score a) (worker_search query ?w q)"
    using q(2) by (simp add: worker_search_def sorted_wrt_map case_prod_unfold)
  ultimately show ?thesis by (simp add: good_hits_def)
qed

lemma menu_ids_reach:
  assumes "menu_reach (vf (buildStructure opts sp)) m"
  shows "menu_ids m = menu_ids (vf (buildStructure opts sp))"
  using assms
proof (induction rule: menu_reach.induct)
  case (reach_step m m')
  note fr = menu_step_frame [OF reach_step.hyps(2)]
  have "a < length (objs m)" if "a \<in> set (flatItems m)" for a
    using marks_reach [OF reach_step.hyps(1)] that by (auto simp: sound_def)
  then have "mi_id (objs m' ! a) = mi_id (objs m ! a)" if "a \<in> set (flatItems m)" for a
    using skeleton_fields(1) [OF skeleton_nth [of "objs m" "objs m'"]] fr that by simp
  then have "menu_ids m' = menu_ids m" unfolding menu_ids_def using fr by (intro image_cong) simp_all
  with reach_step.IH show ?case by simp
qed simp

definition box_ok :: "menu \<Rightarrow> string set \<Rightarrow> box \<times> menu \<Rightarrow> bool" where
  "box_ok m0 ids s \<longleftrightarrow> good_hits ids (results (fst s)) \<and> - 1 \<le> active_idx (fst s) \<and> menu_reach m0 (snd s)"

lemma good_hits_Nil [simp]: "good_hits ids []"
  by (simp add: good_hits_def)

lemmas box_defs = box_search_def clearResults_def box_clear_def on_debounce_def on_answer_def setResults_def

lemma box_step_ok:
  assumes "box_step mn sv s s'" "\<And>q. good_hits ids (sv q)" "box_ok m0 ids s"
  shows "box_ok m0 ids s'"
  using assms(1)
proof cases
  case (pressed pg k)
  obtain b m where s: "s = (b, m)" by (cases s)
  show ?thesis
  proof (cases k)
    case Enter
    have "menu_step m (activateAndScroll pg m (Some a) True)" if e: "entered m b = Some a" for a
    proof -
      obtain i where "getItemById m i = Some a"
        using e by (auto simp: entered_def hit_item_def split: option.splits)
      then show ?thesis using on_search [of m pg i] by simp
    qed
    then show ?thesis
      using assms(3) pressed Enter reach_step by (auto simp: s box_ok_def handleKeyDown_def split: option.split)
  qed (use assms(3) pressed in \<open>auto simp: s box_ok_def handleKeyDown_def box_clear_def\<close>)
qed (use assms(2,3) reach_step in \<open>auto simp: box_ok_def box_defs split: option.splits list.splits\<close>)

interpretation hits: step_invariant "box_step mn sv" "\<lambda>s. (\<forall>q. good_hits ids (sv q)) \<and> box_ok m0 ids s" for mn sv ids m0
  by unfold_locales (use box_step_ok in blast)

lemma rendered_good:
  assumes "good_hits (menu_ids m) (results b)"
  shows "rendered m b = map (\<lambda>h. (the (hit_item m h), h_score h)) (results b)"
    and "h \<in> set (results b) \<Longrightarrow> hit_item m h \<noteq> None"
proof -
  show found: "hit_item m h \<noteq> None" if h: "h \<in> set (results b)" for h
  proof -
    obtain i where "i \<in> menu_ids m" "h_meta h = Some i" using assms h by (auto simp: good_hits_def)
    then show ?thesis using getItemById_ids by (simp add: hit_item_def)
  qed
  have "filter (\<lambda>h. hit_item m h \<noteq> None) (results b) = results b" using found by (simp add: filter_id_conv)
  moreover have "sorted (map (\<lambda>x. - snd x) (map (\<lambda>h. (the (hit_item m h), h_score h)) (results b)))"
    using assms by (simp add: good_hits_def sorted_wrt_map)
  ultimately show "rendered m b = map (\<lambda>h. (the (hit_item m h), h_score h)) (results b)"
    by (simp add: rendered_def sort_key_id_if_sorted)
qed

subsection \<open>What is still to come\<close>

definition waiting :: "box \<Rightarrow> string list" where
  "waiting b = in_flight b @ (case debounced b of None \<Rightarrow> [] | Some q \<Rightarrow> [q])"

lemma answers:
  "in_flight b = qs \<Longrightarrow> in_flight ((on_answer sv ^^ length qs) b) = [] \<and>
     debounced ((on_answer sv ^^ length qs) b) = debounced b \<and> search_term ((on_answer sv ^^ length qs) b) = search_term b \<and>
     results ((on_answer sv ^^ length qs) b) = (if qs = [] then results b else sv (last qs)) \<and>
     noResults ((on_answer sv ^^ length qs) b) = (if qs = [] then noResults b else sv (last qs) = [])"
proof (induction qs arbitrary: b)
  case (Cons q qs)
  have "in_flight (on_answer sv b) = qs" "debounced (on_answer sv b) = debounced b" "search_term (on_answer sv b) = search_term b"
    "results (on_answer sv b) = sv q" "noResults (on_answer sv b) = (sv q = [])"
    using Cons.prems by (simp_all add: on_answer_def setResults_def)
  with Cons.IH [of "on_answer sv b"] show ?case by (simp add: funpow_swap1)
qed simp

lemma settle_result:
  "waiting (settle sv b) = [] \<and> search_term (settle sv b) = search_term b \<and>
   results (settle sv b) = (if waiting b = [] then results b else sv (last (waiting b))) \<and>
   noResults (settle sv b) = (if waiting b = [] then noResults b else sv (last (waiting b)) = [])"
proof -
  have d: "in_flight (on_debounce b) = waiting b" "debounced (on_debounce b) = None"
    "search_term (on_debounce b) = search_term b" "results (on_debounce b) = results b"
    "noResults (on_debounce b) = noResults b"
    by (auto simp: on_debounce_def waiting_def split: option.splits)
  show ?thesis
    using answers [OF d(1), of sv] d by (simp add: settle_def waiting_def Let_def)
qed


section \<open>Properties\<close>

text \<open>An index that finds the documents whose title is a term, all with the same score.\<close>

definition title_index :: lunr where
  "title_index docs ts = map (\<lambda>d. (doc_ref d, 1)) (filter (\<lambda>d. doc_title d \<in> set ts) docs)"

lemma title_index_laws: "lunr_laws title_index"
  by (auto simp: lunr_laws_def title_index_def sorted_wrt_map sorted_wrt_iff_nth_less)

definition demo_texts :: "nat \<Rightarrow> string option \<times> string option" where
  "demo_texts a = (None, Some ''/t'')"

text \<open>
  C16: The enter key activates the highlighted hit. For every menu that the page builds, every index
  that keeps what its package documents and every order of typing, keys, answers of the worker and
  moves of the menu: each hit is an item of the menu, so that the list shown has all of them in the
  order of the answer; the entry that is highlighted is the one that the enter key activates; and when
  there are hits, the down key highlights one.
\<close>

theorem enter_activates_highlighted:
  assumes "lunr_laws query" "m0 = vf (buildStructure opts sp)"
    and "(box_step mn (worker_search query (indexItems tx m0)))\<^sup>*\<^sup>* (Gv, m0) (b, m)"
  shows "highlighted m b = entered m b \<and>
    map fst (rendered m b) = map (\<lambda>h. the (hit_item m h)) (results b) \<and> list_all (\<lambda>h. hit_item m h \<noteq> None) (results b) \<and>
    (results b \<noteq> [] \<longrightarrow> highlighted m (fst (handleKeyDown pg Down (b, m))) \<noteq> None)"
proof -
  let ?ids = "set (wk_store (indexItems tx m0))"
  have "box_ok m0 ?ids (b, m)"
    using hits.steps [OF assms(3), of ?ids m0] search_good [OF assms(1)] by (simp add: box_ok_def Gv_def reach_start)
  then have ok: "good_hits ?ids (results b)" "- 1 \<le> active_idx b" "menu_reach m0 m" by (simp_all add: box_ok_def)
  have "?ids \<subseteq> menu_ids m"
    using indexed_ids [of tx "buildStructure opts sp"] menu_ids_reach [of opts sp m] ok(3)
    unfolding assms(2) menu_ids_def by simp
  then have g: "good_hits (menu_ids m) (results b)" using ok(1) unfolding good_hits_def by blast
  note r = rendered_good [OF g]
  have "hit_item m (results b ! k) = Some (the (hit_item m (results b ! k)))" if "k < length (results b)" for k
    using r(2) [of "results b ! k"] that by simp
  then have "highlighted m b = entered m b" by (simp add: highlighted_def entered_def result_at_def r(1))
  moreover have "rendered m (fst (handleKeyDown pg Down (b, m))) = rendered m b"
    by (simp add: handleKeyDown_def rendered_def)
  then have "highlighted m (fst (handleKeyDown pg Down (b, m))) \<noteq> None" if "results b \<noteq> []"
    using that ok(2) by (simp add: highlighted_def handleKeyDown_def r(1) min_def) (auto simp: nat_less_iff)
  moreover have "map fst (rendered m b) = map (\<lambda>h. the (hit_item m h)) (results b)" by (simp add: r(1))
  moreover have "list_all (\<lambda>h. hit_item m h \<noteq> None) (results b)" using r(2) by (simp add: list_all_iff)
  ultimately show ?thesis by blast
qed

theorem enter_activates_highlighted_witness:
  "let m = vf (buildStructure demo_options demo_spec);
       b = on_answer (worker_search title_index (indexItems demo_texts m)) (on_debounce (box_search 3 ''list'' Gv))
   in length (results b) = 1 \<and> highlighted m (fst (handleKeyDown demo_page Down (b, m))) = Some 3 \<and>
      highlighted m (fst (handleKeyDown demo_page Down (b, m))) = entered m (fst (handleKeyDown demo_page Down (b, m)))"
proof -
  let ?m = "vf (buildStructure demo_options demo_spec)" and ?q = title_index
  let ?sv = "worker_search ?q (indexItems demo_texts ?m)"
  let ?b = "on_answer ?sv (on_debounce (box_search 3 ''list'' Gv))"
  let ?s = "handleKeyDown demo_page Down (?b, ?m)"
  have "(box_step 3 ?sv)\<^sup>*\<^sup>* (Gv, ?m) (box_search 3 ''list'' Gv, ?m)" by (rule r_into_rtranclp) (rule typed)
  also have "box_step 3 ?sv (box_search 3 ''list'' Gv, ?m) (on_debounce (box_search 3 ''list'' Gv), ?m)" by (rule fired)
  also have "box_step 3 ?sv (on_debounce (box_search 3 ''list'' Gv), ?m) (?b, ?m)" by (rule answered)
  also have "box_step 3 ?sv (?b, ?m) (fst ?s, ?m)"
    using pressed [of 3 ?sv "(?b, ?m)" demo_page Down] by (simp add: handleKeyDown_def)
  finally have r: "(box_step 3 ?sv)\<^sup>*\<^sup>* (Gv, ?m) (fst ?s, ?m)" .
  have "highlighted ?m (fst ?s) = entered ?m (fst ?s)"
    using enter_activates_highlighted [OF title_index_laws refl r] by blast
  moreover have "length (results ?b) = 1" "highlighted ?m (fst ?s) = Some 3" by code_simp+
  ultimately show ?thesis by (simp add: Let_def)
qed

text \<open>
  C17: What the box shows when typing has stopped, the timer has fired and all answers have arrived.
  After a term that is long enough these are the hits of that term, whatever was searched before. After
  a term that is too short, or after the box was cleared, they are nothing when no search was waiting,
  and otherwise the hits of the last search that was: clearing the box does not withdraw a search, so
  that hits of the old term come back under a box that is empty.
\<close>

theorem search_box_settles:
  "(mn \<le> length n \<longrightarrow> results (settle sv (box_search mn n b)) = sv n \<and>
      noResults (settle sv (box_search mn n b)) = (sv n = []) \<and> search_term (settle sv (box_search mn n b)) = n) \<and>
   (length n < mn \<longrightarrow> search_term (settle sv (box_search mn n b)) = n \<and>
      results (settle sv (box_search mn n b)) = (if waiting b = [] then [] else sv (last (waiting b)))) \<and>
   search_term (settle sv (box_clear b)) = [] \<and>
   results (settle sv (box_clear b)) = (if waiting b = [] then [] else sv (last (waiting b)))"
proof -
  have "waiting (box_clear b) = waiting b" "waiting (clearResults n b) = waiting b"
    by (simp_all add: waiting_def box_clear_def clearResults_def)
  moreover have "waiting (b\<lparr>search_term := n, debounced := Some n\<rparr>) = in_flight b @ [n]" by (simp add: waiting_def)
  ultimately show ?thesis by (auto simp: settle_result box_search_def box_clear_def clearResults_def)
qed

theorem search_box_settles_witness:
  "let m = vf (buildStructure demo_options demo_spec); sv = worker_search title_index (indexItems demo_texts m);
       b = box_search 3 ''list'' Gv
   in length (results (settle sv b)) = 1 \<and> search_term (settle sv (box_clear b)) = [] \<and>
      length (results (settle sv (box_clear b))) = 1"
proof -
  let ?m = "vf (buildStructure demo_options demo_spec)"
  let ?sv = "worker_search title_index (indexItems demo_texts ?m)" and ?b = "box_search 3 ''list'' Gv"
  have h: "length (?sv ''list'') = 1" "waiting ?b = [''list'']" "(3::nat) \<le> length ''list''" by code_simp+
  note p = search_box_settles [of 3 "''list''" ?sv Gv] search_box_settles [of 3 "''list''" ?sv ?b]
  have "results (settle ?sv ?b) = ?sv ''list''" using p(1) h(3) by blast
  moreover have "search_term (settle ?sv (box_clear ?b)) = []" using p(2) by blast
  moreover have "results (settle ?sv (box_clear ?b)) = ?sv ''list''" using p(2) h(2) by simp
  ultimately show ?thesis unfolding Let_def using h(1) by simp
qed

end
