(* ===== verification/Task_World.thy ===== *)
theory Task_World
  imports Analysis_Lifecycle
begin

text \<open>
  The setting of the Celery tasks that record results on the server: a world of database and sent
  messages, threaded through each task, which may raise at any point and then leaves what it had
  done before. Used for \<open>analyses/v1_api/tasks.py\<close>, \<open>analyses/v2_api/tasks.py\<close>,
  \<open>portfolios/v2_api/tasks.py\<close> and \<open>combine/tasks.py\<close>.
\<close>

section \<open>World and environment\<close>

datatype task_effect =
    Delay string "(string \<times> task_arg) list"
  | RevokeTask string
  | MarkRevoked string
  | RemoveTree string

record world =
  w_db :: db
  w_effects :: "task_effect list"

type_synonym 'a wm = "world \<Rightarrow> world \<times> 'a result"

record task_env =
  te_storage :: storage
  te_now :: time
  te_uuid :: string
  te_users :: "pk \<Rightarrow> bool"
  te_read :: "file_content \<Rightarrow> string"
  te_keep_local_data :: bool
  te_run_data_dir :: string

definition returnW :: "'a \<Rightarrow> 'a wm" where
  "returnW x w = (w, Inr x)"

definition raiseW :: "py_exn \<Rightarrow> 'a wm" where
  "raiseW ex w = (w, Inl ex)"

definition bindW :: "'a wm \<Rightarrow> ('a \<Rightarrow> 'b wm) \<Rightarrow> 'b wm" where
  "bindW m f w = (case m w of (w', Inl ex) \<Rightarrow> (w', Inl ex) | (w', Inr x) \<Rightarrow> f x w')"

definition liftW :: "'a result \<Rightarrow> 'a wm" where
  "liftW r w = (w, r)"

definition get_dbW :: "db wm" where
  "get_dbW w = (w, Inr (w_db w))"

definition modify_dbW :: "(db \<Rightarrow> db) \<Rightarrow> unit wm" where
  "modify_dbW f w = (w\<lparr>w_db := f (w_db w)\<rparr>, Inr ())"

definition emitW :: "task_effect \<Rightarrow> unit wm" where
  "emitW e w = (w\<lparr>w_effects := w_effects w @ [e]\<rparr>, Inr ())"

text \<open>\<open>try: \<dots> except Exception: log\<close>.\<close>

definition tryW :: "unit wm \<Rightarrow> unit wm" where
  "tryW m w = (fst (m w), Inr ())"

definition whenW :: "bool \<Rightarrow> unit wm \<Rightarrow> unit wm" where
  "whenW b m = (if b then m else returnW ())"

text \<open>A database operation that yields a result and may raise, leaving the database alone then.\<close>

definition stepW :: "(db \<Rightarrow> (db \<times> 'a) result) \<Rightarrow> 'a wm" where
  "stepW f w = (case f (w_db w) of Inl ex \<Rightarrow> (w, Inl ex) | Inr (d, x) \<Rightarrow> (w\<lparr>w_db := d\<rparr>, Inr x))"

lemma bindW_eq_Inr [exn_simps]:
  "bindW m f w = (w', Inr y) \<longleftrightarrow> (\<exists>w1 x. m w = (w1, Inr x) \<and> f x w1 = (w', Inr y))"
  by (auto simp: bindW_def split: prod.splits sum.splits)

lemma wm_simps [simp]:
  "returnW x w = (w, Inr x)" "raiseW ex w = (w, Inl ex)" "liftW r w = (w, r)"
  "get_dbW w = (w, Inr (w_db w))" "modify_dbW f w = (w\<lparr>w_db := f (w_db w)\<rparr>, Inr ())"
  "emitW e w = (w\<lparr>w_effects := w_effects w @ [e]\<rparr>, Inr ())"
  by (simp_all add: returnW_def raiseW_def liftW_def get_dbW_def modify_dbW_def emitW_def)

lemma bindW_simps [simp]:
  "m w = (w1, Inr x) \<Longrightarrow> bindW m f w = f x w1"
  "m w = (w1, Inl ex) \<Longrightarrow> bindW m f w = (w1, Inl ex)"
  by (simp_all add: bindW_def)

section \<open>Rows\<close>

definition get_analysisW :: "pk \<Rightarrow> analysis wm" where
  "get_analysisW i w =
     (case get_analysis (w_db w) i of
        None \<Rightarrow> (w, Inl (ObjectDoesNotExist ''Analysis'')) | Some a \<Rightarrow> (w, Inr a))"

definition get_userW :: "task_env \<Rightarrow> pk \<Rightarrow> pk wm" where
  "get_userW te i w = (if te_users te i then (w, Inr i) else (w, Inl (ObjectDoesNotExist ''User'')))"

definition create_fileW :: "related_file \<Rightarrow> pk wm" where
  "create_fileW f = stepW (\<lambda>d. Inr (create_file d f))"

definition save_analysisW :: "analysis \<Rightarrow> unit wm" where
  "save_analysisW a = modify_dbW (\<lambda>d. save_analysis d a)"

definition store_fileW ::
  "task_env \<Rightarrow> string option \<Rightarrow> string \<Rightarrow> pk \<Rightarrow> bool \<Rightarrow> string option \<Rightarrow> pk option wm" where
  "store_fileW te reference content_type creator required filename =
     stepW (\<lambda>d. store_file (te_storage te) d reference content_type creator required filename)"

definition store_archiveW :: "task_env \<Rightarrow> string option \<Rightarrow> pk \<Rightarrow> string \<Rightarrow> pk option wm" where
  "store_archiveW te reference creator name =
     stepW (\<lambda>d. store_archive (te_storage te) d reference creator name True)"

definition store_file_v1W ::
  "task_env \<Rightarrow> string option \<Rightarrow> string \<Rightarrow> pk \<Rightarrow> bool \<Rightarrow> string option \<Rightarrow> pk option wm" where
  "store_file_v1W te reference content_type creator required filename =
     stepW (\<lambda>d. store_file_v1 (te_storage te) d reference content_type creator required filename)"

definition store_archive_v1W :: "task_env \<Rightarrow> string option \<Rightarrow> pk \<Rightarrow> string \<Rightarrow> pk option wm" where
  "store_archive_v1W te reference creator name =
     stepW (\<lambda>d. store_archive_v1 (te_storage te) d reference creator name True)"

definition delete_prev_outputW :: "analysis \<Rightarrow> analysis_field list \<Rightarrow> analysis wm" where
  "delete_prev_outputW a fs = stepW (\<lambda>d. Inr (delete_prev_output d a fs))"

definition update_subtasks :: "(subtask \<Rightarrow> bool) \<Rightarrow> (subtask \<Rightarrow> subtask) \<Rightarrow> db \<Rightarrow> db" where
  "update_subtasks P f d = d\<lparr>db_subtasks := map (\<lambda>s. if P s then f s else s) (db_subtasks d)\<rparr>"

definition at_slug :: "pk \<Rightarrow> string \<Rightarrow> subtask \<Rightarrow> bool" where
  "at_slug i slug s \<longleftrightarrow> st_analysis s = i \<and> st_slug s = slug"

text \<open>A text file written by the server: a random name on disk and the given download name.\<close>

definition text_file :: "task_env \<Rightarrow> string \<Rightarrow> pk \<Rightarrow> string \<Rightarrow> related_file" where
  "text_file te filename creator content =
     blank_file\<lparr>rf_file := random_file_name (te_uuid te) False (te_uuid te @ ''.txt''), rf_filename := filename,
       rf_content_type := ''text/plain'', rf_creator := Some creator, rf_content := Opaque content\<rparr>"

text \<open>The same with the suffix the sub-task logs have.\<close>

definition log_text_file :: "task_env \<Rightarrow> string \<Rightarrow> pk \<Rightarrow> string \<Rightarrow> related_file" where
  "log_text_file te filename creator content =
     (text_file te filename creator content)\<lparr>rf_file := random_file_name (te_uuid te) False (te_uuid te @ ''.log'')\<rparr>"

definition nl :: string where
  "nl = [CHR 0x0A]"

definition slug_banner :: "string \<Rightarrow> string" where
  "slug_banner slug = nl @ ''=== '' @ slug @ '' ==='' @ nl"

text \<open>\<open>f'analysis_{pk}_{suffix}'\<close>.\<close>

definition analysis_name :: "pk \<Rightarrow> string \<Rightarrow> string" where
  "analysis_name i suffix = ''analysis_'' @ str_nat i @ suffix"

lemma analysis_name_nonempty [simp]: "analysis_name i suf \<noteq> []"
  by (simp add: analysis_name_def)

section \<open>What tasks keep\<close>

lemma stepW_Inr: "stepW f w = (w', Inr x) \<longleftrightarrow> (\<exists>d. f (w_db w) = Inr (d, x) \<and> w' = w\<lparr>w_db := d\<rparr>)"
  by (auto simp: stepW_def split: sum.splits)

text \<open>Storing a file creates at most one file row and touches no other table.\<close>

definition same_rows :: "db \<Rightarrow> db \<Rightarrow> bool" where
  "same_rows d d' \<longleftrightarrow> db_analyses d' = db_analyses d \<and> db_models d' = db_models d \<and>
     db_portfolios d' = db_portfolios d \<and> db_subtasks d' = db_subtasks d"

lemma same_rows_refl [simp]: "same_rows d d"
  by (simp add: same_rows_def)

lemma same_rows_trans: "same_rows d d' \<Longrightarrow> same_rows d' d'' \<Longrightarrow> same_rows d d''"
  by (simp add: same_rows_def)

lemma same_rows_create [simp]: "same_rows d (fst (create_file d f))"
  by (simp add: same_rows_def frame_simps)

lemma same_rows_get_analysis: "same_rows d d' \<Longrightarrow> get_analysis d' i = get_analysis d i"
  by (simp add: same_rows_def get_analysis_def)

lemma store_file_rows: "store_file sg d r t c req n = Inr (d', v) \<Longrightarrow> same_rows d d'"
  by (auto dest!: store_file_effect)

lemma store_archive_rows: "store_archive sg d r c n req = Inr (d', v) \<Longrightarrow> same_rows d d'"
  by (auto simp: store_archive_def Let_def split: option.splits dest!: store_file_rows)

lemma storeW_rows:
  "store_fileW te r t c req n w = (w', Inr v) \<Longrightarrow> same_rows (w_db w) (w_db w') \<and> w_effects w' = w_effects w"
  "store_archiveW te r c nm w = (w', Inr v) \<Longrightarrow> same_rows (w_db w) (w_db w') \<and> w_effects w' = w_effects w"
  "create_fileW f w = (w', Inr i) \<Longrightarrow> same_rows (w_db w) (w_db w') \<and> w_effects w' = w_effects w"
  by (auto simp: store_fileW_def store_archiveW_def create_fileW_def stepW_Inr
      dest!: store_file_rows store_archive_rows)
     (metis fst_conv same_rows_create)

lemma get_analysisW_Inr: "get_analysisW i w = (w', Inr a) \<longleftrightarrow> w' = w \<and> get_analysis (w_db w) i = Some a"
  by (auto simp: get_analysisW_def split: option.splits)

lemma get_userW_Inr: "get_userW te i w = (w', Inr u) \<longleftrightarrow> w' = w \<and> te_users te i \<and> u = i"
  by (auto simp: get_userW_def)

end
