(* ===== verification/Task_Controller.thy ===== *)
theory Task_Controller
  imports Analysis_Lifecycle
begin

text \<open>
  The distributed task controller (\<open>analyses/v2_api/task_controller.py\<close>): how an analysis is
  split into chunks, which sub-tasks are created for input and loss generation, how their status
  rows and task identifiers are recorded, and how the two stages are joined. What Celery returns
  for a dispatched canvas is a parameter.
\<close>

section \<open>Canvas\<close>

type_synonym kwargs = "(string, task_arg) dict"

record task_params =
  tp_args :: "task_arg list"
  tp_kwargs :: kwargs

text \<open>A sub-task signature with the tasks linked on success and failure (analysis, initiator, slug).\<close>

record subtask_sig =
  ss_name :: string
  ss_queue :: string
  ss_args :: "task_arg list"
  ss_kwargs :: kwargs
  ss_link :: "string \<times> pk \<times> pk \<times> string"
  ss_link_error :: "string \<times> pk \<times> pk \<times> string"

datatype canvas =
    Single subtask_sig
  | Chord "subtask_sig list" subtask_sig string string

text \<open>The \<open>handle_task_failure\<close> callback of a stage.\<close>

record errback =
  eb_analysis :: pk
  eb_initiator :: pk
  eb_run_data_uuid :: string
  eb_traceback_property :: analysis_field
  eb_failure_status :: analysis_status

text \<open>
  A chain as it is written: its tasks and the callbacks linked to it. What is dispatched is the chain
  of one stage or the chains of several stages, taken apart and put together again; how Celery
  executes either is not modelled.
\<close>

record task_chain =
  ch_tasks :: "canvas list"
  ch_link_error :: "errback list"

datatype dispatched =
    Chain task_chain
  | Chain_Of_Unchained "task_chain list"

record stage =
  stage_num_chunks :: int
  stage_run_data_uuid :: string
  stage_statuses :: "subtask list list"
  stage_tasks :: "canvas list"
  stage_traceback_property :: analysis_field
  stage_failure_status :: analysis_status

section \<open>Sub-tasks\<close>

definition get_subtask_signature ::
  "string \<Rightarrow> analysis \<Rightarrow> pk \<Rightarrow> string \<Rightarrow> string \<Rightarrow> string \<Rightarrow> task_params \<Rightarrow> subtask_sig" where
  "get_subtask_signature task_name a initiator run_data_uuid slug queue params =
     \<lparr>ss_name = task_name, ss_queue = queue, ss_args = tp_args params,
      ss_kwargs = dict_merge
        [(''initiator_id'', A_Int (int initiator)), (''analysis_id'', A_Int (int (an_id a))),
         (''slug'', A_Str slug), (''run_data_uuid'', A_Str run_data_uuid)] (tp_kwargs params),
      ss_link = (''record_sub_task_success'', an_id a, initiator, slug),
      ss_link_error = (''record_sub_task_failure'', an_id a, initiator, slug)\<rparr>"

definition get_subtask_status :: "analysis \<Rightarrow> string \<Rightarrow> string \<Rightarrow> string \<Rightarrow> subtask" where
  "get_subtask_status a name slug queue =
     \<lparr>st_queue_name = queue, st_task_id = [], st_analysis = an_id a, st_status = PENDING,
      st_pending_time = None, st_queue_time = None, st_start_time = None, st_end_time = None,
      st_name = name, st_slug = slug, st_retry_count = 0, st_output_log = None, st_error_log = None,
      st_retry_log = None\<rparr>"

definition no_params :: task_params where
  "no_params = \<lparr>tp_args = [], tp_kwargs = []\<rparr>"

definition subtask_statuses_and_sig ::
  "string \<Rightarrow> analysis \<Rightarrow> pk \<Rightarrow> string \<Rightarrow> string \<Rightarrow> string \<Rightarrow> string \<Rightarrow> task_params option \<Rightarrow> subtask list \<times> subtask_sig" where
  "subtask_statuses_and_sig task_name a initiator run_data_uuid status_label status_slug queue params =
     ([get_subtask_status a status_label status_slug queue],
      get_subtask_signature task_name a initiator run_data_uuid status_slug queue
        (case params of None \<Rightarrow> no_params | Some p \<Rightarrow> p))"

definition get_subtask_statuses_and_signature ::
  "string \<Rightarrow> analysis \<Rightarrow> pk \<Rightarrow> string \<Rightarrow> string \<Rightarrow> string \<Rightarrow> string \<Rightarrow> task_params option \<Rightarrow> subtask list \<times> canvas" where
  "get_subtask_statuses_and_signature task_name a initiator run_data_uuid status_label status_slug queue params =
     map_prod id Single
       (subtask_statuses_and_sig task_name a initiator run_data_uuid status_label status_slug queue params)"

text \<open>
  \<open>get_subchord_statuses_and_signature\<close>: one task per parameter set, numbered from zero.
  Unpacking \<open>zip(*[])\<close> raises, so a chord needs at least one task.
\<close>

definition get_subchord_statuses_and_signature ::
  "string \<Rightarrow> analysis \<Rightarrow> pk \<Rightarrow> string \<Rightarrow> string \<Rightarrow> string \<Rightarrow> string \<Rightarrow> task_params list \<Rightarrow>
   subtask list \<times> subtask_sig \<Rightarrow> (subtask list \<times> canvas) result" where
  "get_subchord_statuses_and_signature task_name a initiator run_data_uuid status_label status_slug queue params body =
     (let joined = map (\<lambda>(idx, p). subtask_statuses_and_sig task_name a initiator run_data_uuid
                        (status_label @ '' '' @ str_nat idx) (status_slug @ ''-'' @ str_nat idx) queue (Some p))
                     (zip [0..<length params] params) in
      if joined = [] then Inl (ValueError ''not enough values to unpack (expected 2, got 0)'')
      else Inr (concat (map fst joined) @ fst body,
                Chord (map snd joined) (snd body) queue ''chord_error_callback''))"

definition split_tasks_and_statuses :: "(subtask list \<times> canvas) list \<Rightarrow> subtask list list \<times> canvas list" where
  "split_tasks_and_statuses joined = (map fst joined, map snd joined)"

section \<open>Chunks\<close>

definition int_range :: "int option \<Rightarrow> int list result" where
  "int_range n =
     (case n of
        None \<Rightarrow> Inl (TypeError ''NoneType object cannot be interpreted as an integer'')
      | Some k \<Rightarrow> Inr (map int [0..<nat k]))"

text \<open>
  \<open>min(ceil(amount / per), chunks_max)\<close>. The quotient is a float; its ceiling is the one of the exact
  quotient for numbers below \<open>2 ^ 53\<close>.
\<close>

definition scaled_chunks :: "int option \<Rightarrow> int \<Rightarrow> int \<Rightarrow> int result" where
  "scaled_chunks amount per chunks_max =
     (case amount of
        None \<Rightarrow> Inl (TypeError ''unsupported operand type(s) for /'')
      | Some n \<Rightarrow> if per = 0 then Inl ZeroDivisionError else Inr (min (ceil_div n per) chunks_max))"

definition get_inputs_generation_chunks :: "db \<Rightarrow> analysis \<Rightarrow> int option \<Rightarrow> int option result" where
  "get_inputs_generation_chunks d a loc_lines =
     rbind (get_chunking_options d a) (\<lambda>chunking_options.
       case lookup_strategy chunking_options of
         FIXED_CHUNKS \<Rightarrow>
           (case loc_lines of
              None \<Rightarrow> Inr (fixed_lookup_chunks chunking_options)
            | Some n \<Rightarrow>
                (case fixed_lookup_chunks chunking_options of
                   None \<Rightarrow> Inl (TypeError ''< not supported'')
                 | Some k \<Rightarrow> Inr (Some (min k n))))
       | DYNAMIC_CHUNKS \<Rightarrow>
           rbind (scaled_chunks loc_lines (dynamic_locations_per_lookup chunking_options)
                    (dynamic_chunks_max chunking_options)) (\<lambda>n. Inr (Some n)))"

definition get_loss_generation_chunks :: "db \<Rightarrow> analysis \<Rightarrow> int option \<Rightarrow> int option result" where
  "get_loss_generation_chunks d a events_total =
     rbind (get_chunking_options d a) (\<lambda>chunking_options.
       case loss_strategy chunking_options of
         FIXED_CHUNKS \<Rightarrow> Inr (fixed_analysis_chunks chunking_options)
       | DYNAMIC_CHUNKS \<Rightarrow>
           rbind (scaled_chunks events_total (dynamic_events_per_analysis chunking_options)
                    (dynamic_chunks_max chunking_options)) (\<lambda>n. Inr (Some n)))"

section \<open>The two stages\<close>

definition get_generate_inputs_queue :: "db \<Rightarrow> analysis \<Rightarrow> string" where
  "get_generate_inputs_queue d a =
     (case self_model d a of Inl _ \<Rightarrow> ''None'' | Inr m \<Rightarrow> model_str m) @ ''-v2''"

definition get_generate_losses_queue :: "db \<Rightarrow> analysis \<Rightarrow> string" where
  "get_generate_losses_queue d a =
     (case self_model d a of Inl _ \<Rightarrow> ''None'' | Inr m \<Rightarrow> model_str m) @ ''-v2''"

definition files_or_none :: "(string option \<times> string) list \<Rightarrow> task_arg" where
  "files_or_none fs = (if fs = [] then A_None else A_Files fs)"

definition inputs_base_kwargs :: "storage \<Rightarrow> db \<Rightarrow> analysis \<Rightarrow> portfolio \<Rightarrow> (string option \<times> string) list \<Rightarrow> kwargs" where
  "inputs_base_kwargs sg d a p complex =
     [(''loc_file'', link_arg sg d (po_location_file p)),
      (''analysis_settings_file'', link_arg sg d (an_settings_file a)),
      (''complex_data_files'', files_or_none complex),
      (''reporting_currency'', A_Str (po_reporting_currency p)),
      (''currency_conversion_json'', link_arg sg d (po_currency_conversion_json p))]"

definition inputs_files_kwargs :: "storage \<Rightarrow> db \<Rightarrow> analysis \<Rightarrow> portfolio \<Rightarrow> (string option \<times> string) list \<Rightarrow> kwargs" where
  "inputs_files_kwargs sg d a p complex =
     [(''loc_file'', link_arg sg d (po_location_file p)),
      (''acc_file'', link_arg sg d (po_accounts_file p)),
      (''info_file'', link_arg sg d (po_reinsurance_info_file p)),
      (''scope_file'', link_arg sg d (po_reinsurance_scope_file p)),
      (''analysis_settings_file'', link_arg sg d (an_settings_file a)),
      (''complex_data_files'', files_or_none complex)]"

definition get_inputs_generation_tasks ::
  "storage \<Rightarrow> db \<Rightarrow> analysis \<Rightarrow> pk \<Rightarrow> string \<Rightarrow> int option \<Rightarrow> string \<Rightarrow> (subtask list list \<times> canvas list) result" where
  "get_inputs_generation_tasks sg d a initiator run_data_uuid num_chunks analysis_finish_status =
     rbind (self_portfolio d a) (\<lambda>p.
     rbind (create_complex_model_data_file_dicts sg d a) (\<lambda>complex.
     rbind (int_range num_chunks) (\<lambda>idxs.
       let queue = get_generate_inputs_queue d a;
           base_kwargs = inputs_base_kwargs sg d a p complex;
           files_kwargs = inputs_files_kwargs sg d a p complex;
           chunks = arg_int num_chunks in
       rbind (get_subchord_statuses_and_signature ''prepare_keys_file_chunk'' a initiator run_data_uuid
                ''Prepare keys file'' ''prepare-keys-file'' queue
                (map (\<lambda>idx. \<lparr>tp_args = [A_Int idx, chunks],
                   tp_kwargs = (''acc_file'', link_arg sg d (po_accounts_file p)) # base_kwargs\<rparr>) idxs)
                (subtask_statuses_and_sig ''collect_keys'' a initiator run_data_uuid ''Collect keys''
                   ''collect-keys'' queue (Some \<lparr>tp_args = [], tp_kwargs = base_kwargs\<rparr>)))
         (\<lambda>keys_chord.
            Inr (split_tasks_and_statuses
              [get_subtask_statuses_and_signature ''prepare_input_generation_params'' a initiator run_data_uuid
                 ''Prepare input generation params'' ''prepare-input-generation-params'' queue
                 (Some \<lparr>tp_args = [], tp_kwargs = base_kwargs\<rparr>),
               get_subtask_statuses_and_signature ''pre_analysis_hook'' a initiator run_data_uuid
                 ''Pre analysis hook'' ''pre-analysis-hook'' queue
                 (Some \<lparr>tp_args = [], tp_kwargs = (''num_chunks'', chunks) # files_kwargs\<rparr>),
               keys_chord,
               get_subtask_statuses_and_signature ''write_input_files'' a initiator run_data_uuid
                 ''Write input files'' ''write-input-files'' queue
                 (Some \<lparr>tp_args = [], tp_kwargs = files_kwargs\<rparr>),
               get_subtask_statuses_and_signature ''record_input_files'' a initiator run_data_uuid
                 ''Record input files'' ''record-input-files'' ''celery-v2''
                 (Some \<lparr>tp_args = [], tp_kwargs = [(''analysis_finish_status'', A_Str analysis_finish_status)]\<rparr>),
               get_subtask_statuses_and_signature ''cleanup_input_generation'' a initiator run_data_uuid
                 ''Cleanup input generation'' ''cleanup-input-generation'' queue None])))))"

definition losses_base_kwargs :: "storage \<Rightarrow> db \<Rightarrow> analysis \<Rightarrow> (string option \<times> string) list \<Rightarrow> kwargs" where
  "losses_base_kwargs sg d a complex =
     [(''input_location'', link_arg sg d (an_input_file a)),
      (''analysis_settings_file'', link_arg sg d (an_settings_file a)),
      (''complex_data_files'', files_or_none complex)]"

definition get_loss_generation_tasks ::
  "storage \<Rightarrow> db \<Rightarrow> analysis \<Rightarrow> pk \<Rightarrow> string \<Rightarrow> int option \<Rightarrow> (subtask list list \<times> canvas list) result" where
  "get_loss_generation_tasks sg d a initiator run_data_uuid num_chunks =
     rbind (create_complex_model_data_file_dicts sg d a) (\<lambda>complex.
     rbind (int_range num_chunks) (\<lambda>idxs.
       let queue = get_generate_losses_queue d a;
           base_kwargs = losses_base_kwargs sg d a complex;
           base = Some \<lparr>tp_args = [], tp_kwargs = base_kwargs\<rparr>;
           chunks = arg_int num_chunks in
       rbind (get_subchord_statuses_and_signature ''generate_losses_chunk'' a initiator run_data_uuid
                ''Generate losses chunk'' ''generate-losses-chunk'' queue
                (map (\<lambda>idx. \<lparr>tp_args = [A_Int idx, chunks], tp_kwargs = base_kwargs\<rparr>) idxs)
                (subtask_statuses_and_sig ''generate_losses_output'' a initiator run_data_uuid
                   ''Generate losses output'' ''generate-losses-output'' queue base))
         (\<lambda>losses_chord.
            Inr (split_tasks_and_statuses
              [get_subtask_statuses_and_signature ''prepare_losses_generation_params'' a initiator run_data_uuid
                 ''Prepare losses generation params'' ''prepare-losses-generation-params'' queue
                 (Some \<lparr>tp_args = [], tp_kwargs = (''num_chunks'', chunks) # base_kwargs\<rparr>),
               get_subtask_statuses_and_signature ''prepare_losses_generation_directory'' a initiator run_data_uuid
                 ''Prepare losses generation directory'' ''prepare-losses-generation-directory'' queue base,
               losses_chord,
               get_subtask_statuses_and_signature ''record_losses_files'' a initiator run_data_uuid
                 ''Record losses files'' ''record-losses-files'' ''celery-v2'' base,
               get_subtask_statuses_and_signature ''cleanup_losses_generation'' a initiator run_data_uuid
                 ''Cleanup losses generation'' ''cleanup-losses-generation'' queue base]))))"

definition the_chunks :: "int option \<Rightarrow> int" where
  "the_chunks n = (case n of None \<Rightarrow> 0 | Some k \<Rightarrow> k)"

definition inputs_generation_stage ::
  "storage \<Rightarrow> db \<Rightarrow> analysis \<Rightarrow> pk \<Rightarrow> string \<Rightarrow> int option \<Rightarrow> string \<Rightarrow> stage result" where
  "inputs_generation_stage sg d a initiator run_data_uuid loc_lines analysis_finish_status =
     rbind (get_inputs_generation_chunks d a loc_lines) (\<lambda>num_chunks.
     rbind (get_inputs_generation_tasks sg d a initiator run_data_uuid num_chunks analysis_finish_status)
       (\<lambda>(statuses, tasks).
          Inr \<lparr>stage_num_chunks = the_chunks num_chunks, stage_run_data_uuid = run_data_uuid,
               stage_statuses = statuses, stage_tasks = tasks,
               stage_traceback_property = input_generation_traceback_file,
               stage_failure_status = INPUTS_GENERATION_ERROR\<rparr>))"

definition loss_generation_stage ::
  "storage \<Rightarrow> db \<Rightarrow> analysis \<Rightarrow> pk \<Rightarrow> string \<Rightarrow> int option \<Rightarrow> stage result" where
  "loss_generation_stage sg d a initiator run_data_uuid events_total =
     rbind (get_loss_generation_chunks d a events_total) (\<lambda>num_chunks.
     rbind (get_loss_generation_tasks sg d a initiator run_data_uuid num_chunks)
       (\<lambda>(statuses, tasks).
          Inr \<lparr>stage_num_chunks = the_chunks num_chunks, stage_run_data_uuid = run_data_uuid,
               stage_statuses = statuses, stage_tasks = tasks,
               stage_traceback_property = run_traceback_file, stage_failure_status = RUN_ERROR\<rparr>))"

section \<open>Dispatch\<close>

definition create_chain ::
  "analysis \<Rightarrow> pk \<Rightarrow> canvas list \<Rightarrow> string \<Rightarrow> analysis_field \<Rightarrow> analysis_status \<Rightarrow> task_chain" where
  "create_chain a initiator tasks run_data_uuid traceback_property failure_status =
     \<lparr>ch_tasks = tasks,
      ch_link_error = [\<lparr>eb_analysis = an_id a, eb_initiator = initiator, eb_run_data_uuid = run_data_uuid,
        eb_traceback_property = traceback_property, eb_failure_status = failure_status\<rparr>]\<rparr>"

definition create_stage_chain :: "analysis \<Rightarrow> pk \<Rightarrow> stage \<Rightarrow> task_chain" where
  "create_stage_chain a initiator s =
     create_chain a initiator (stage_tasks s) (stage_run_data_uuid s) (stage_traceback_property s)
       (stage_failure_status s)"

text \<open>\<open>chain(*[task for c in stage_chains for task in c.unchain_tasks()], app=\<dots>)\<close>.\<close>

definition join_stage_chains :: "task_chain list \<Rightarrow> dispatched" where
  "join_stage_chains stage_chains = Chain_Of_Unchained stage_chains"

text \<open>
  The result Celery returns: the last task of the chain, whose parents are the earlier tasks or,
  for the header of a chord, a group of tasks.
\<close>

datatype celery_result =
    AsyncResult string "celery_result option"
  | GroupResult string "string list" "celery_result option"

fun result_id :: "celery_result \<Rightarrow> string" where
  "result_id (AsyncResult i _) = i"
| "result_id (GroupResult i _ _) = i"

fun result_ids :: "celery_result \<Rightarrow> string list" where
  "result_ids (AsyncResult i p) = i # (case p of None \<Rightarrow> [] | Some r \<Rightarrow> result_ids r)"
| "result_ids (GroupResult i children p) = rev children @ (case p of None \<Rightarrow> [] | Some r \<Rightarrow> result_ids r)"

fun parent_ids :: "celery_result \<Rightarrow> string list" where
  "parent_ids (AsyncResult i p) = (case p of None \<Rightarrow> [] | Some r \<Rightarrow> result_ids r)"
| "parent_ids (GroupResult i children p) = (case p of None \<Rightarrow> [] | Some r \<Rightarrow> result_ids r)"

definition extract_celery_task_ids :: "celery_result \<Rightarrow> string list" where
  "extract_celery_task_ids chain_result = result_id chain_result # parent_ids chain_result"

text \<open>
  \<open>_replace_subtask_statuses\<close>: the old rows go, with their logs; the new ones are created in the
  order of the stages.
\<close>

definition replace_subtask_statuses :: "db \<Rightarrow> time \<Rightarrow> analysis \<Rightarrow> subtask list list \<Rightarrow> db" where
  "replace_subtask_statuses d now a statuses =
     (let old = filter (\<lambda>s. st_analysis s = an_id a) (db_subtasks d);
          d1 = d\<lparr>db_subtasks := filter (\<lambda>s. st_analysis s \<noteq> an_id a) (db_subtasks d)\<rparr>;
          d2 = fold (\<lambda>s e. delete_connected_task_logs e s) old d1
      in d2\<lparr>db_subtasks := db_subtasks d2 @ map (\<lambda>s. s\<lparr>st_pending_time := Some now\<rparr>) (concat statuses)\<rparr>)"

text \<open>
  \<open>_record_subtask_ids\<close> pops the identifiers from the end; when they run out the loop stops.
\<close>

fun assign_ids :: "pk \<Rightarrow> string list \<Rightarrow> subtask list \<Rightarrow> subtask list" where
  "assign_ids a ids [] = []"
| "assign_ids a ids (s # ss) =
     (if st_analysis s = a
      then (if ids = [] then s # ss else s\<lparr>st_task_id := last ids\<rparr> # assign_ids a (butlast ids) ss)
      else s # assign_ids a ids ss)"

definition record_subtask_ids :: "db \<Rightarrow> analysis \<Rightarrow> celery_result \<Rightarrow> db" where
  "record_subtask_ids d a res =
     d\<lparr>db_subtasks := assign_ids (an_id a) (extract_celery_task_ids res) (db_subtasks d)\<rparr>"

text \<open>
  What is dispatched, with its priority; \<open>celery\<close> gives the result of \<open>chain.delay({}, \<dots>)\<close>.
\<close>

definition start_stage ::
  "(dispatched \<Rightarrow> celery_result) \<Rightarrow> db \<Rightarrow> time \<Rightarrow> analysis \<Rightarrow> pk \<Rightarrow> stage \<Rightarrow>
   db \<times> celery_result \<times> (dispatched \<times> int)" where
  "start_stage celery d now a initiator s =
     (let d1 = replace_subtask_statuses d now a (stage_statuses s);
          c = Chain (create_stage_chain a initiator s);
          res = celery c
      in (record_subtask_ids d1 a res, res, (c, an_priority a)))"

definition controller_generate_inputs ::
  "(dispatched \<Rightarrow> celery_result) \<Rightarrow> storage \<Rightarrow> db \<Rightarrow> time \<Rightarrow> string \<Rightarrow> analysis \<Rightarrow> pk \<Rightarrow> int option \<Rightarrow>
   (db \<times> analysis \<times> (dispatched \<times> int)) result" where
  "controller_generate_inputs celery sg d now uuid a initiator loc_lines =
     rbind (inputs_generation_stage sg d a initiator uuid loc_lines ''READY'') (\<lambda>s.
       let (d1, res, c) = start_stage celery d now a initiator s;
           a1 = a\<lparr>an_lookup_chunks := Some (stage_num_chunks s), an_generate_inputs_task_id := result_id res\<rparr>
       in Inr (save_analysis_fields d1 (an_id a) (\<lambda>row. row\<lparr>an_lookup_chunks := an_lookup_chunks a1,
                 an_generate_inputs_task_id := an_generate_inputs_task_id a1, an_run_task_id := an_run_task_id a1\<rparr>),
               a1, c))"

definition controller_generate_losses ::
  "(dispatched \<Rightarrow> celery_result) \<Rightarrow> storage \<Rightarrow> db \<Rightarrow> time \<Rightarrow> string \<Rightarrow> analysis \<Rightarrow> pk \<Rightarrow> int option \<Rightarrow>
   (db \<times> analysis \<times> (dispatched \<times> int)) result" where
  "controller_generate_losses celery sg d now uuid a initiator events_total =
     rbind (loss_generation_stage sg d a initiator uuid events_total) (\<lambda>s.
       let (d1, res, c) = start_stage celery d now a initiator s;
           a1 = a\<lparr>an_analysis_chunks := Some (stage_num_chunks s), an_run_task_id := result_id res\<rparr>
       in Inr (save_analysis_fields d1 (an_id a) (\<lambda>row. row\<lparr>an_analysis_chunks := an_analysis_chunks a1,
                 an_run_task_id := an_run_task_id a1\<rparr>), a1, c))"

definition generate_input_and_losses ::
  "(dispatched \<Rightarrow> celery_result) \<Rightarrow> storage \<Rightarrow> db \<Rightarrow> time \<Rightarrow> string \<Rightarrow> string \<Rightarrow> analysis \<Rightarrow> pk \<Rightarrow> int option \<Rightarrow> int option \<Rightarrow>
   (db \<times> analysis \<times> (dispatched \<times> int)) result" where
  "generate_input_and_losses celery sg d now uuid1 uuid2 a initiator loc_lines events_total =
     rbind (inputs_generation_stage sg d a initiator uuid1 loc_lines ''RUN_STARTED'') (\<lambda>inputs.
     rbind (loss_generation_stage sg d a initiator uuid2 events_total) (\<lambda>losses.
       let d1 = replace_subtask_statuses d now a (stage_statuses inputs @ stage_statuses losses);
           c = join_stage_chains [create_stage_chain a initiator inputs, create_stage_chain a initiator losses];
           res = celery c;
           d2 = record_subtask_ids d1 a res;
           a1 = a\<lparr>an_lookup_chunks := Some (stage_num_chunks inputs), an_analysis_chunks := Some (stage_num_chunks losses),
                  an_generate_inputs_task_id := result_id res, an_run_task_id := result_id res\<rparr>
       in Inr (save_analysis_fields d2 (an_id a) (\<lambda>row. row\<lparr>an_lookup_chunks := an_lookup_chunks a1,
                 an_analysis_chunks := an_analysis_chunks a1,
                 an_generate_inputs_task_id := an_generate_inputs_task_id a1, an_run_task_id := an_run_task_id a1\<rparr>),
               a1, (c, an_priority a))))"

section \<open>Lemmas\<close>

definition sig_slug :: "subtask_sig \<Rightarrow> string" where
  "sig_slug s = snd (snd (snd (ss_link s)))"

fun canvas_slugs :: "canvas \<Rightarrow> string list" where
  "canvas_slugs (Single s) = [sig_slug s]"
| "canvas_slugs (Chord hs b _ _) = map sig_slug hs @ [sig_slug b]"

lemma subtask_statuses_slug [simp]:
  "map st_slug (fst (subtask_statuses_and_sig n a u r l slug q p)) = [slug]"
  "sig_slug (snd (subtask_statuses_and_sig n a u r l slug q p)) = slug"
  "map st_analysis (fst (subtask_statuses_and_sig n a u r l slug q p)) = [an_id a]"
  by (simp_all add: subtask_statuses_and_sig_def get_subtask_status_def get_subtask_signature_def sig_slug_def)

lemma get_subtask_slug [simp]:
  "map st_slug (fst (get_subtask_statuses_and_signature n a u r l slug q p)) = [slug]"
  "canvas_slugs (snd (get_subtask_statuses_and_signature n a u r l slug q p)) = [slug]"
  "map st_analysis (fst (get_subtask_statuses_and_signature n a u r l slug q p)) = [an_id a]"
  by (simp_all add: get_subtask_statuses_and_signature_def)

text \<open>The slugs of a chord with \<open>n\<close> tasks.\<close>

definition chord_slugs :: "string \<Rightarrow> nat \<Rightarrow> string list" where
  "chord_slugs slug n = map (\<lambda>i. slug @ ''-'' @ str_nat i) [0..<n]"

lemma map_concat_singletons: "(\<And>x. x \<in> set xs \<Longrightarrow> map g (f x) = [h x]) \<Longrightarrow> map g (concat (map f xs)) = map h xs"
  by (induction xs) auto

lemma chord_joined_slugs:
  "map (\<lambda>(i, p). slug @ ''-'' @ str_nat i) (zip [0..<length ps] ps) = chord_slugs slug (length ps)"
  by (rule nth_equalityI) (simp_all add: chord_slugs_def)

lemma subchord_ok:
  assumes "get_subchord_statuses_and_signature n a u r l slug q ps body = Inr (sts, c)"
  shows "ps \<noteq> [] \<and> map st_slug sts = chord_slugs slug (length ps) @ map st_slug (fst body) \<and>
    canvas_slugs c = chord_slugs slug (length ps) @ [sig_slug (snd body)] \<and>
    set (map st_analysis sts) \<subseteq> insert (an_id a) (set (map st_analysis (fst body)))"
proof -
  define mk where "mk = (\<lambda>(idx, p). subtask_statuses_and_sig n a u r (l @ '' '' @ str_nat idx)
    (slug @ ''-'' @ str_nat idx) q (Some p))"
  define zs where "zs = zip [0..<length ps] ps"
  have sts: "sts = concat (map (\<lambda>z. fst (mk z)) zs) @ fst body" and c: "c = Chord (map (\<lambda>z. snd (mk z)) zs) (snd body) q ''chord_error_callback''"
    and ne: "ps \<noteq> []"
    using assms
    by (auto simp: get_subchord_statuses_and_signature_def Let_def mk_def zs_def comp_def split: if_splits)
  have mk: "map st_slug (fst (mk z)) = [(\<lambda>(i, p). slug @ ''-'' @ str_nat i) z]"
    "sig_slug (snd (mk z)) = (\<lambda>(i, p). slug @ ''-'' @ str_nat i) z" "map st_analysis (fst (mk z)) = [an_id a]" for z
    by (cases z; simp add: mk_def)+
  have "map st_slug (concat (map (\<lambda>z. fst (mk z)) zs)) = map (\<lambda>(i, p). slug @ ''-'' @ str_nat i) zs"
    "map st_analysis (concat (map (\<lambda>z. fst (mk z)) zs)) = map (\<lambda>_. an_id a) zs"
    by (rule map_concat_singletons; simp only: mk)+
  then show ?thesis
    using ne chord_joined_slugs [of slug ps] by (auto simp: sts c mk comp_def zs_def)
qed

lemma chord_slugs_distinct: "distinct (chord_slugs slug n)"
  by (auto simp: chord_slugs_def distinct_map inj_on_def dest: str_nat_inj)

lemma int_range_ok: "int_range n = Inr xs \<longleftrightarrow> (\<exists>k. n = Some k \<and> xs = map int [0..<nat k])"
  by (auto simp: int_range_def split: option.splits)

definition inputs_slugs :: "nat \<Rightarrow> string list" where
  "inputs_slugs n =
     [''prepare-input-generation-params'', ''pre-analysis-hook''] @ chord_slugs ''prepare-keys-file'' n @
     [''collect-keys'', ''write-input-files'', ''record-input-files'', ''cleanup-input-generation'']"

definition losses_slugs :: "nat \<Rightarrow> string list" where
  "losses_slugs n =
     [''prepare-losses-generation-params'', ''prepare-losses-generation-directory''] @
     chord_slugs ''generate-losses-chunk'' n @
     [''generate-losses-output'', ''record-losses-files'', ''cleanup-losses-generation'']"

lemma inputs_tasks_ok:
  assumes "get_inputs_generation_tasks sg d a u r n fin = Inr (sts, ts)"
  shows "\<exists>k. n = Some k \<and> 1 \<le> k \<and> map st_slug (concat sts) = inputs_slugs (nat k) \<and>
    concat (map canvas_slugs ts) = inputs_slugs (nat k) \<and> set (map st_analysis (concat sts)) = {an_id a}"
proof -
  obtain p cx xs csts c where xs: "int_range n = Inr xs"
    and ch: "get_subchord_statuses_and_signature ''prepare_keys_file_chunk'' a u r ''Prepare keys file''
      ''prepare-keys-file'' (get_generate_inputs_queue d a)
      (map (\<lambda>idx. \<lparr>tp_args = [A_Int idx, arg_int n],
         tp_kwargs = (''acc_file'', link_arg sg d (po_accounts_file p)) # inputs_base_kwargs sg d a p cx\<rparr>) xs)
      (subtask_statuses_and_sig ''collect_keys'' a u r ''Collect keys'' ''collect-keys''
        (get_generate_inputs_queue d a) (Some \<lparr>tp_args = [], tp_kwargs = inputs_base_kwargs sg d a p cx\<rparr>)) = Inr (csts, c)"
    and st: "map st_slug (concat sts) = [''prepare-input-generation-params'', ''pre-analysis-hook''] @ map st_slug csts @
      [''write-input-files'', ''record-input-files'', ''cleanup-input-generation'']"
    and ts: "concat (map canvas_slugs ts) = [''prepare-input-generation-params'', ''pre-analysis-hook''] @ canvas_slugs c @
      [''write-input-files'', ''record-input-files'', ''cleanup-input-generation'']"
    and an: "map st_analysis (concat sts) = [an_id a, an_id a] @ map st_analysis csts @ [an_id a, an_id a, an_id a]"
    using assms
    by (auto simp: get_inputs_generation_tasks_def Let_def exn_simps split_tasks_and_statuses_def)
  from subchord_ok [OF ch] xs st ts an show ?thesis
    by (auto simp: int_range_ok inputs_slugs_def)
qed

lemma losses_tasks_ok:
  assumes "get_loss_generation_tasks sg d a u r n = Inr (sts, ts)"
  shows "\<exists>k. n = Some k \<and> 1 \<le> k \<and> map st_slug (concat sts) = losses_slugs (nat k) \<and>
    concat (map canvas_slugs ts) = losses_slugs (nat k) \<and> set (map st_analysis (concat sts)) = {an_id a}"
proof -
  obtain cx xs csts c where xs: "int_range n = Inr xs"
    and ch: "get_subchord_statuses_and_signature ''generate_losses_chunk'' a u r ''Generate losses chunk''
      ''generate-losses-chunk'' (get_generate_losses_queue d a)
      (map (\<lambda>idx. \<lparr>tp_args = [A_Int idx, arg_int n], tp_kwargs = losses_base_kwargs sg d a cx\<rparr>) xs)
      (subtask_statuses_and_sig ''generate_losses_output'' a u r ''Generate losses output'' ''generate-losses-output''
        (get_generate_losses_queue d a) (Some \<lparr>tp_args = [], tp_kwargs = losses_base_kwargs sg d a cx\<rparr>)) = Inr (csts, c)"
    and st: "map st_slug (concat sts) = [''prepare-losses-generation-params'', ''prepare-losses-generation-directory''] @
      map st_slug csts @ [''record-losses-files'', ''cleanup-losses-generation'']"
    and ts: "concat (map canvas_slugs ts) = [''prepare-losses-generation-params'', ''prepare-losses-generation-directory''] @
      canvas_slugs c @ [''record-losses-files'', ''cleanup-losses-generation'']"
    and an: "map st_analysis (concat sts) = [an_id a, an_id a] @ map st_analysis csts @ [an_id a, an_id a]"
    using assms
    by (auto simp: get_loss_generation_tasks_def Let_def exn_simps split_tasks_and_statuses_def)
  from subchord_ok [OF ch] xs st ts an show ?thesis
    by (auto simp: int_range_ok losses_slugs_def)
qed

lemma slugs_distinct: "distinct (inputs_slugs n @ losses_slugs k)"
  by (auto simp: inputs_slugs_def losses_slugs_def chord_slugs_distinct) (auto simp: chord_slugs_def)

lemma inputs_stage_ok:
  assumes "inputs_generation_stage sg d a u r ll fin = Inr s"
  shows "get_inputs_generation_chunks d a ll = Inr (Some (stage_num_chunks s)) \<and> 1 \<le> stage_num_chunks s \<and>
    map st_slug (concat (stage_statuses s)) = inputs_slugs (nat (stage_num_chunks s)) \<and>
    concat (map canvas_slugs (stage_tasks s)) = inputs_slugs (nat (stage_num_chunks s)) \<and>
    set (map st_analysis (concat (stage_statuses s))) = {an_id a} \<and>
    stage_failure_status s = INPUTS_GENERATION_ERROR \<and> stage_traceback_property s = input_generation_traceback_file \<and>
    stage_run_data_uuid s = r"
proof -
  obtain n sts ts where n: "get_inputs_generation_chunks d a ll = Inr n" and t: "get_inputs_generation_tasks sg d a u r n fin = Inr (sts, ts)"
    and s: "stage_num_chunks s = the_chunks n" "stage_statuses s = sts" "stage_tasks s = ts"
      "stage_failure_status s = INPUTS_GENERATION_ERROR" "stage_traceback_property s = input_generation_traceback_file" "stage_run_data_uuid s = r"
    using assms by (auto simp: inputs_generation_stage_def exn_simps)
  obtain k where "n = Some k" "1 \<le> k" "map st_slug (concat sts) = inputs_slugs (nat k)"
    "concat (map canvas_slugs ts) = inputs_slugs (nat k)" "set (map st_analysis (concat sts)) = {an_id a}"
    using inputs_tasks_ok [OF t] by blast
  with n s show ?thesis by (simp add: the_chunks_def)
qed

lemma losses_stage_ok:
  assumes "loss_generation_stage sg d a u r ev = Inr s"
  shows "get_loss_generation_chunks d a ev = Inr (Some (stage_num_chunks s)) \<and> 1 \<le> stage_num_chunks s \<and>
    map st_slug (concat (stage_statuses s)) = losses_slugs (nat (stage_num_chunks s)) \<and>
    concat (map canvas_slugs (stage_tasks s)) = losses_slugs (nat (stage_num_chunks s)) \<and>
    set (map st_analysis (concat (stage_statuses s))) = {an_id a} \<and>
    stage_failure_status s = RUN_ERROR \<and> stage_traceback_property s = run_traceback_file \<and>
    stage_run_data_uuid s = r"
proof -
  obtain n sts ts where n: "get_loss_generation_chunks d a ev = Inr n" and t: "get_loss_generation_tasks sg d a u r n = Inr (sts, ts)"
    and s: "stage_num_chunks s = the_chunks n" "stage_statuses s = sts" "stage_tasks s = ts"
      "stage_failure_status s = RUN_ERROR" "stage_traceback_property s = run_traceback_file" "stage_run_data_uuid s = r"
    using assms by (auto simp: loss_generation_stage_def exn_simps)
  obtain k where "n = Some k" "1 \<le> k" "map st_slug (concat sts) = losses_slugs (nat k)"
    "concat (map canvas_slugs ts) = losses_slugs (nat k)" "set (map st_analysis (concat sts)) = {an_id a}"
    using losses_tasks_ok [OF t] by blast
  with n s show ?thesis by (simp add: the_chunks_def)
qed

subsection \<open>Task identifiers\<close>

text \<open>
  The shape of the result of a dispatched chain, as \<open>extract_celery_task_ids\<close> documents it, read from its last task backwards: a task
  is an \<open>AsyncResult\<close>; a chord is the \<open>AsyncResult\<close> of its body, whose parent is the
  \<open>GroupResult\<close> of the header, in order. The pairs give each task of the chain its identifier.
\<close>

fun result_matches :: "canvas list \<Rightarrow> celery_result option \<Rightarrow> bool" where
  "result_matches [] r \<longleftrightarrow> r = None"
| "result_matches (Single s # cs) (Some (AsyncResult i p)) \<longleftrightarrow> result_matches cs p"
| "result_matches (Chord hs b q e # cs) (Some (AsyncResult i (Some (GroupResult g ids p)))) \<longleftrightarrow>
     length ids = length hs \<and> result_matches cs p"
| "result_matches _ _ \<longleftrightarrow> False"

fun task_id_pairs :: "canvas list \<Rightarrow> celery_result option \<Rightarrow> (string \<times> string) list" where
  "task_id_pairs (Single s # cs) (Some (AsyncResult i p)) = task_id_pairs cs p @ [(sig_slug s, i)]"
| "task_id_pairs (Chord hs b q e # cs) (Some (AsyncResult i (Some (GroupResult g ids p)))) =
     task_id_pairs cs p @ zip (map sig_slug hs) ids @ [(sig_slug b, i)]"
| "task_id_pairs _ _ = []"

lemma result_ids_pairs:
  assumes "result_matches cs (Some r)"
  shows "rev (result_ids r) = map snd (task_id_pairs cs (Some r)) \<and>
    map fst (task_id_pairs cs (Some r)) = concat (map canvas_slugs (rev cs))"
proof -
  have "result_matches cs ro \<Longrightarrow>
      (case ro of None \<Rightarrow> [] | Some r \<Rightarrow> rev (result_ids r)) = map snd (task_id_pairs cs ro) \<and>
      map fst (task_id_pairs cs ro) = concat (map canvas_slugs (rev cs))" for ro
    by (induction cs ro rule: result_matches.induct) (auto split: option.splits)
  from this [OF assms] show ?thesis by simp
qed

lemma extract_ids: "result_matches cs (Some r) \<Longrightarrow> cs \<noteq> [] \<Longrightarrow> extract_celery_task_ids r = result_ids r"
  by (cases cs; cases r; cases "hd cs") (auto simp: extract_celery_task_ids_def split: option.splits)

lemma assign_ids_new:
  assumes "\<forall>s \<in> set old. st_analysis s \<noteq> i" "\<forall>s \<in> set new. st_analysis s = i" "length ids = length new"
  shows "assign_ids i ids (old @ new) = old @ map2 (\<lambda>s t. s\<lparr>st_task_id := t\<rparr>) new (rev ids)"
proof -
  have "assign_ids i ids new = map2 (\<lambda>s t. s\<lparr>st_task_id := t\<rparr>) new (rev ids)"
    using assms(2, 3)
  proof (induction new arbitrary: ids)
    case (Cons s new)
    then have "ids \<noteq> []" by auto
    then obtain xs x where "ids = xs @ [x]" by (cases ids rule: rev_cases) auto
    with Cons show ?case by simp
  qed simp
  with assms(1) show ?thesis by (induction old) auto
qed

lemma delete_file_subtasks: "s \<in> set (db_subtasks (delete_file d i)) \<Longrightarrow> \<exists>s' \<in> set (db_subtasks d). st_analysis s = st_analysis s'"
  by (auto simp: delete_file_def Let_def subtask_set_null_def)

lemma fold_delete_subtasks:
  "s \<in> set (db_subtasks (fold (\<lambda>i e. delete_file e i) is d)) \<Longrightarrow> \<exists>s' \<in> set (db_subtasks d). st_analysis s = st_analysis s'"
  by (induction "is" arbitrary: d) (auto, metis delete_file_subtasks)

lemma fold_logs_subtasks:
  "s \<in> set (db_subtasks (fold (\<lambda>s e. delete_connected_task_logs e s) subs d)) \<Longrightarrow>
   \<exists>s' \<in> set (db_subtasks d). st_analysis s = st_analysis s'"
proof (induction subs arbitrary: d)
  case (Cons x subs)
  then show ?case by (auto simp: delete_connected_eq) (metis fold_delete_subtasks)
qed auto

lemma replace_statuses_split:
  "\<exists>old. db_subtasks (replace_subtask_statuses d now a sts) =
     old @ map (\<lambda>s. s\<lparr>st_pending_time := Some now\<rparr>) (concat sts) \<and> (\<forall>s \<in> set old. st_analysis s \<noteq> an_id a)"
  by (auto simp: replace_subtask_statuses_def Let_def dest!: fold_logs_subtasks)

text \<open>Each row of the analysis gets the identifier of the task with its slug.\<close>

lemma record_ids_pairs:
  assumes "result_matches (rev ts) (Some r)" "ts \<noteq> []"
    and "map st_slug (concat sts) = concat (map canvas_slugs ts)" "set (map st_analysis (concat sts)) = {an_id a}"
  shows "map (\<lambda>s. (st_slug s, st_task_id s))
      (filter (\<lambda>s. st_analysis s = an_id a)
        (db_subtasks (record_subtask_ids (replace_subtask_statuses d now a sts) a r))) =
    task_id_pairs (rev ts) (Some r)"
proof -
  define new where "new = map (\<lambda>s. s\<lparr>st_pending_time := Some now\<rparr>) (concat sts)"
  obtain old where old: "db_subtasks (replace_subtask_statuses d now a sts) = old @ new"
    "\<forall>s \<in> set old. st_analysis s \<noteq> an_id a"
    using replace_statuses_split unfolding new_def by metis
  note p = result_ids_pairs [OF assms(1)]
  have slugs: "map st_slug new = map fst (task_id_pairs (rev ts) (Some r))"
    using p assms(3) by (simp add: new_def comp_def)
  have new: "\<forall>s \<in> set new. st_analysis s = an_id a" using assms(4) by (auto simp: new_def)
  have ids: "extract_celery_task_ids r = rev (map snd (task_id_pairs (rev ts) (Some r)))"
    using extract_ids [OF assms(1)] assms(2) p by (simp add: rev_swap [symmetric])
  have len: "length (extract_celery_task_ids r) = length new"
    using slugs ids by (metis length_map length_rev)
  have sub: "db_subtasks (record_subtask_ids (replace_subtask_statuses d now a sts) a r) =
      old @ map2 (\<lambda>s t. s\<lparr>st_task_id := t\<rparr>) new (map snd (task_id_pairs (rev ts) (Some r)))"
    using assign_ids_new [OF old(2) new len] by (simp add: record_subtask_ids_def old(1) ids)
  have upd: "map (\<lambda>s. (st_slug s, st_task_id s)) (map2 (\<lambda>s t. s\<lparr>st_task_id := t\<rparr>) ss ts') = zip (map st_slug ss) ts'" for ss ts'
    by (induction ss ts' rule: list_induct2') auto
  have keep: "filter (\<lambda>s. st_analysis s = an_id a) (map2 (\<lambda>s t. s\<lparr>st_task_id := t\<rparr>) new ts') =
      map2 (\<lambda>s t. s\<lparr>st_task_id := t\<rparr>) new ts'" for ts'
    using new by (auto simp: filter_id_conv dest!: set_zip_leftD)
  have "filter (\<lambda>s. st_analysis s = an_id a) old = []" using old(2) by (simp add: filter_empty_conv)
  then show ?thesis by (simp add: sub keep upd slugs del: map_map) (simp add: zip_map_fst_snd)
qed

lemma inputs_slugs_nonempty [simp]: "inputs_slugs n \<noteq> []"
  by (simp add: inputs_slugs_def)

text \<open>The tasks of what is dispatched, in the order they are written.\<close>

fun dispatched_tasks :: "dispatched \<Rightarrow> canvas list" where
  "dispatched_tasks (Chain c) = ch_tasks c"
| "dispatched_tasks (Chain_Of_Unchained cs) = concat (map ch_tasks cs)"

lemma dispatched_stages [simp]:
  "ch_tasks (create_stage_chain a u s) = stage_tasks s"
  "dispatched_tasks (join_stage_chains [create_stage_chain a u s1, create_stage_chain a u s2]) =
     stage_tasks s1 @ stage_tasks s2"
  by (simp_all add: join_stage_chains_def create_stage_chain_def create_chain_def)

text \<open>Rows replaced and identifiers recorded for the tasks of one or two stages.\<close>

definition ids_recorded :: "(dispatched \<Rightarrow> celery_result) \<Rightarrow> db \<Rightarrow> pk \<Rightarrow> dispatched \<Rightarrow> bool" where
  "ids_recorded celery d i c \<longleftrightarrow>
     map (\<lambda>s. (st_slug s, st_task_id s)) (filter (\<lambda>s. st_analysis s = i) (db_subtasks d)) =
       task_id_pairs (rev (dispatched_tasks c)) (Some (celery c)) \<and>
     map fst (task_id_pairs (rev (dispatched_tasks c)) (Some (celery c))) = concat (map canvas_slugs (dispatched_tasks c)) \<and>
     distinct (concat (map canvas_slugs (dispatched_tasks c)))"

lemma dispatch_records:
  assumes celery: "\<And>c. dispatched_tasks c \<noteq> [] \<Longrightarrow> result_matches (rev (dispatched_tasks c)) (Some (celery c))"
    and ts: "concat (map canvas_slugs (dispatched_tasks c)) = slugs" "slugs \<noteq> []" "distinct slugs"
    and sts: "map st_slug (concat sts) = slugs" "set (map st_analysis (concat sts)) = {an_id a}"
    and d': "db_subtasks d' = db_subtasks (record_subtask_ids (replace_subtask_statuses d now a sts) a (celery c))"
  shows "ids_recorded celery d' (an_id a) c"
proof -
  have ne: "dispatched_tasks c \<noteq> []" using ts by auto
  note rm = celery [OF ne]
  have "map st_slug (concat sts) = concat (map canvas_slugs (dispatched_tasks c))" using ts(1) sts(1) by simp
  from record_ids_pairs [OF rm ne this sts(2), of d now] show ?thesis
    using result_ids_pairs [OF rm] ts by (simp add: ids_recorded_def d' rev_map)
qed

lemma generate_inputs_records:
  assumes celery: "\<And>c. dispatched_tasks c \<noteq> [] \<Longrightarrow> result_matches (rev (dispatched_tasks c)) (Some (celery c))"
    and start: "controller_generate_inputs celery sg d now uuid a u ll = Inr (d', a', c, prio)"
  shows "ids_recorded celery d' (an_id a) c \<and> an_generate_inputs_task_id a' = result_id (celery c)"
proof -
  obtain s where s: "inputs_generation_stage sg d a u uuid ll ''READY'' = Inr s"
    and c: "c = Chain (create_stage_chain a u s)" "an_generate_inputs_task_id a' = result_id (celery c)"
    and d': "db_subtasks d' = db_subtasks (record_subtask_ids (replace_subtask_statuses d now a (stage_statuses s)) a (celery c))"
    using start by (auto simp: controller_generate_inputs_def start_stage_def exn_simps Let_def frame_simps)
  have "distinct (inputs_slugs (nat (stage_num_chunks s)))" using slugs_distinct by (simp only: distinct_append)
  then show ?thesis
    using dispatch_records [OF celery, of c "inputs_slugs (nat (stage_num_chunks s))", OF _ _ _ _ _ _ d'] inputs_stage_ok [OF s] c by simp
qed

lemma generate_losses_records:
  assumes celery: "\<And>c. dispatched_tasks c \<noteq> [] \<Longrightarrow> result_matches (rev (dispatched_tasks c)) (Some (celery c))"
    and start: "controller_generate_losses celery sg d now uuid a u ev = Inr (d', a', c, prio)"
  shows "ids_recorded celery d' (an_id a) c \<and> an_run_task_id a' = result_id (celery c)"
proof -
  obtain s where s: "loss_generation_stage sg d a u uuid ev = Inr s"
    and c: "c = Chain (create_stage_chain a u s)" "an_run_task_id a' = result_id (celery c)"
    and d': "db_subtasks d' = db_subtasks (record_subtask_ids (replace_subtask_statuses d now a (stage_statuses s)) a (celery c))"
    using start by (auto simp: controller_generate_losses_def start_stage_def exn_simps Let_def frame_simps)
  have "distinct (losses_slugs (nat (stage_num_chunks s)))" using slugs_distinct by (simp only: distinct_append)
  moreover have "losses_slugs n \<noteq> []" for n by (simp add: losses_slugs_def)
  ultimately show ?thesis
    using dispatch_records [OF celery, of c "losses_slugs (nat (stage_num_chunks s))", OF _ _ _ _ _ _ d'] losses_stage_ok [OF s] c by simp
qed

lemma generate_both_records:
  assumes celery: "\<And>c. dispatched_tasks c \<noteq> [] \<Longrightarrow> result_matches (rev (dispatched_tasks c)) (Some (celery c))"
    and start: "generate_input_and_losses celery sg d now uuid1 uuid2 a u ll ev = Inr (d', a', c, prio)"
  shows "ids_recorded celery d' (an_id a) c \<and>
    an_generate_inputs_task_id a' = result_id (celery c) \<and> an_run_task_id a' = result_id (celery c)"
proof -
  obtain s1 s2 where s1: "inputs_generation_stage sg d a u uuid1 ll ''RUN_STARTED'' = Inr s1"
    and s2: "loss_generation_stage sg d a u uuid2 ev = Inr s2"
    and c: "c = join_stage_chains [create_stage_chain a u s1, create_stage_chain a u s2]"
      "an_generate_inputs_task_id a' = result_id (celery c)" "an_run_task_id a' = result_id (celery c)"
    and d': "db_subtasks d' = db_subtasks (record_subtask_ids
        (replace_subtask_statuses d now a (stage_statuses s1 @ stage_statuses s2)) a (celery c))"
    using start by (auto simp: generate_input_and_losses_def exn_simps Let_def frame_simps)
  note i = inputs_stage_ok [OF s1] and l = losses_stage_ok [OF s2]
  let ?slugs = "inputs_slugs (nat (stage_num_chunks s1)) @ losses_slugs (nat (stage_num_chunks s2))"
  have "concat (map canvas_slugs (dispatched_tasks c)) = ?slugs" using i l c(1) by simp
  moreover have "map st_slug (concat (stage_statuses s1 @ stage_statuses s2)) = ?slugs"
    using i l by (simp only: map_append concat_append)
  moreover have "set (map st_analysis (concat (stage_statuses s1 @ stage_statuses s2))) = {an_id a}"
    using i l by (simp only: concat_append map_append set_append) blast
  ultimately show ?thesis
    using dispatch_records [OF celery _ _ _ _ _ d'] slugs_distinct c by simp
qed

text \<open>A concrete broker: every task gets its slug as identifier.\<close>

fun broker_result :: "canvas list \<Rightarrow> celery_result option" where
  "broker_result [] = None"
| "broker_result (Single s # cs) = Some (AsyncResult (sig_slug s) (broker_result cs))"
| "broker_result (Chord hs b q e # cs) =
     Some (AsyncResult (sig_slug b) (Some (GroupResult ''group'' (map sig_slug hs) (broker_result cs))))"

definition demo_broker :: "dispatched \<Rightarrow> celery_result" where
  "demo_broker c = (case broker_result (rev (dispatched_tasks c)) of None \<Rightarrow> AsyncResult [] None | Some r \<Rightarrow> r)"

lemma broker_result_matches: "result_matches cs (broker_result cs)"
  by (induction cs rule: broker_result.induct) auto

lemma demo_broker_matches:
  "dispatched_tasks c \<noteq> [] \<Longrightarrow> result_matches (rev (dispatched_tasks c)) (Some (demo_broker c))"
  using broker_result_matches [of "rev (dispatched_tasks c)"]
  by (auto simp: demo_broker_def split: option.splits)
     (metis broker_result.elims option.distinct(1) rev_is_Nil_conv)

lemma ceil_div_le_self: "0 < b \<Longrightarrow> 1 \<le> n \<Longrightarrow> ceil_div n b \<le> n"
proof -
  assume "0 < b" "1 \<le> n"
  then have "n \<le> n * b" using mult_left_mono [of 1 b n] by simp
  with \<open>0 < b\<close> show ?thesis by (simp add: ceil_div_least)
qed

section \<open>Properties\<close>

text \<open>
  C15: With positive chunking options and at least one location, input generation is split into at
  least one chunk and never into more chunks than locations. With fixed chunks the number is the
  configured one, or the number of locations where that is smaller. With dynamic chunks it is at
  most the maximum, and below the maximum it is the least number of chunks that hold all locations.
\<close>

theorem inputs_chunks_bounds:
  assumes "get_chunking_options d a = Inr c" "1 \<le> n"
    and "lookup_strategy c = FIXED_CHUNKS \<Longrightarrow> fixed_lookup_chunks c = Some k \<and> 1 \<le> k"
    and "lookup_strategy c = DYNAMIC_CHUNKS \<Longrightarrow> 1 \<le> dynamic_locations_per_lookup c \<and> 1 \<le> dynamic_chunks_max c"
  shows "\<exists>m. get_inputs_generation_chunks d a (Some n) = Inr (Some m) \<and> 1 \<le> m \<and> m \<le> n \<and>
    (lookup_strategy c = FIXED_CHUNKS \<longrightarrow> m = min k n) \<and>
    (lookup_strategy c = DYNAMIC_CHUNKS \<longrightarrow> m \<le> dynamic_chunks_max c \<and>
      (m < dynamic_chunks_max c \<longrightarrow> (\<forall>q. n \<le> q * dynamic_locations_per_lookup c \<longleftrightarrow> m \<le> q)))"
proof (cases "lookup_strategy c")
  case FIXED_CHUNKS
  with assms show ?thesis by (simp add: get_inputs_generation_chunks_def)
next
  case DYNAMIC_CHUNKS
  let ?per = "dynamic_locations_per_lookup c"
  have pos: "0 < ?per" "1 \<le> dynamic_chunks_max c" using assms(4) DYNAMIC_CHUNKS by auto
  have eq: "get_inputs_generation_chunks d a (Some n) = Inr (Some (min (ceil_div n ?per) (dynamic_chunks_max c)))"
    using assms(1) DYNAMIC_CHUNKS pos by (simp add: get_inputs_generation_chunks_def scaled_chunks_def)
  have "1 \<le> ceil_div n ?per" "ceil_div n ?per \<le> n"
    using ceil_div_pos [OF pos(1), of n] ceil_div_le_self [OF pos(1) assms(2)] assms(2) by auto
  moreover have "\<forall>q. n \<le> q * ?per \<longleftrightarrow> ceil_div n ?per \<le> q" by (simp add: ceil_div_least [OF pos(1)])
  ultimately show ?thesis
    unfolding eq using pos(2) DYNAMIC_CHUNKS by (cases "ceil_div n ?per \<le> dynamic_chunks_max c") (simp_all add: min_def)
qed

theorem inputs_chunks_bounds_witness:
  "\<exists>m. get_inputs_generation_chunks lc_db demo_analysis (Some 25000) = Inr (Some m) \<and> 1 \<le> m \<and> m \<le> 25000"
proof -
  have c: "get_chunking_options lc_db demo_analysis = Inr (the (mo_chunking_options demo_model))"
    by (simp add: get_chunking_options_def self_model_def get_model_def lc_db_def demo_analysis_def)
       (simp add: demo_model_def)
  show ?thesis
    using inputs_chunks_bounds [OF c, of 25000 1] by (simp add: demo_model_def) blast
qed

text \<open>
  Loss generation with dynamic chunks and positive options is split into at least one chunk, at
  most the configured maximum, and, below the maximum, into the least number of chunks whose
  size covers all events.
\<close>

theorem loss_chunks_bounds:
  assumes "get_chunking_options d a = Inr c" "loss_strategy c = DYNAMIC_CHUNKS"
    "1 \<le> dynamic_events_per_analysis c" "1 \<le> dynamic_chunks_max c" "1 \<le> n"
  shows "\<exists>m. get_loss_generation_chunks d a (Some n) = Inr (Some m) \<and> 1 \<le> m \<and> m \<le> n \<and> m \<le> dynamic_chunks_max c \<and>
    (m < dynamic_chunks_max c \<longrightarrow>
       (\<forall>q. q * dynamic_events_per_analysis c \<ge> n \<longleftrightarrow> m \<le> q))"
proof -
  let ?per = "dynamic_events_per_analysis c"
  have per: "0 < ?per" using assms(3) by simp
  have eq: "get_loss_generation_chunks d a (Some n) = Inr (Some (min (ceil_div n ?per) (dynamic_chunks_max c)))"
    using assms(1, 2) per by (simp add: get_loss_generation_chunks_def scaled_chunks_def)
  have "1 \<le> ceil_div n ?per" "ceil_div n ?per \<le> n"
    using ceil_div_pos [OF per, of n] ceil_div_le_self [OF per assms(5)] assms(5) by auto
  moreover have "\<forall>q. q * ?per \<ge> n \<longleftrightarrow> ceil_div n ?per \<le> q" by (simp add: ceil_div_least [OF per])
  ultimately show ?thesis
    unfolding eq using assms(4) by (cases "ceil_div n ?per \<le> dynamic_chunks_max c") (simp_all add: min_def)
qed

theorem loss_chunks_bounds_witness:
  "\<exists>m. get_loss_generation_chunks lc_db demo_analysis (Some 1447) = Inr (Some m) \<and> 1 \<le> m \<and> m \<le> 200"
proof -
  have c: "get_chunking_options lc_db demo_analysis = Inr (the (mo_chunking_options demo_model))"
    by (simp add: get_chunking_options_def self_model_def get_model_def lc_db_def demo_analysis_def)
       (simp add: demo_model_def)
  show ?thesis
    using loss_chunks_bounds [OF c, of 1447] by (simp add: demo_model_def) blast
qed

text \<open>
  C7: Starting input generation, loss generation or both, one after the other, replaces the sub-task
  rows of the analysis by one row per task that is dispatched, with pairwise distinct slugs, and
  stores in each row the identifier Celery gave to the task with that slug; the analysis gets the
  identifier of the last task. This relies on the shape of the result of a dispatched chain that
  \<open>extract_celery_task_ids\<close> documents.
\<close>

theorem subtask_ids_recorded:
  assumes celery: "\<And>c. dispatched_tasks c \<noteq> [] \<Longrightarrow> result_matches (rev (dispatched_tasks c)) (Some (celery c))"
    and inputs: "inputs = controller_generate_inputs celery sg d now uuid1 a u ll"
    and losses: "losses = controller_generate_losses celery sg d now uuid2 a u ev"
    and both: "both = generate_input_and_losses celery sg d now uuid1 uuid2 a u ll ev"
    and start: "Inr (d', a', c, prio) \<in> {inputs, losses, both}"
  shows "map (\<lambda>s. (st_slug s, st_task_id s)) (filter (\<lambda>s. st_analysis s = an_id a) (db_subtasks d')) =
      task_id_pairs (rev (dispatched_tasks c)) (Some (celery c)) \<and>
    map fst (task_id_pairs (rev (dispatched_tasks c)) (Some (celery c))) = concat (map canvas_slugs (dispatched_tasks c)) \<and>
    distinct (concat (map canvas_slugs (dispatched_tasks c))) \<and>
    (Inr (d', a', c, prio) \<in> {inputs, both} \<longrightarrow> an_generate_inputs_task_id a' = result_id (celery c)) \<and>
    (Inr (d', a', c, prio) \<in> {losses, both} \<longrightarrow> an_run_task_id a' = result_id (celery c))"
proof -
  note i = generate_inputs_records [OF celery] and l = generate_losses_records [OF celery]
    and b = generate_both_records [OF celery]
  have "ids_recorded celery d' (an_id a) c" using start i l b unfolding inputs losses both by (metis empty_iff insert_iff)
  moreover have "Inr (d', a', c, prio) \<in> {inputs, both} \<longrightarrow> an_generate_inputs_task_id a' = result_id (celery c)"
    using i b unfolding inputs both by (metis empty_iff insert_iff)
  moreover have "Inr (d', a', c, prio) \<in> {losses, both} \<longrightarrow> an_run_task_id a' = result_id (celery c)"
    using l b unfolding losses both by (metis empty_iff insert_iff)
  ultimately show ?thesis unfolding ids_recorded_def by blast
qed

theorem subtask_ids_recorded_witness:
  "\<exists>d' a' c prio. controller_generate_inputs demo_broker (le_storage demo_env) lc_db 100 ''u1'' demo_analysis 1
      (Some 2) = Inr (d', a', c, prio) \<and> concat (map canvas_slugs (dispatched_tasks c)) \<noteq> [] \<and>
    map (\<lambda>s. (st_slug s, st_task_id s)) (filter (\<lambda>s. st_analysis s = an_id demo_analysis) (db_subtasks d')) =
      task_id_pairs (rev (dispatched_tasks c)) (Some (demo_broker c))"
proof -
  let ?r = "controller_generate_inputs demo_broker (le_storage demo_env) lc_db 100 ''u1'' demo_analysis 1 (Some 2)"
  have "\<exists>d' a' c prio. ?r = Inr (d', a', c, prio) \<and> concat (map canvas_slugs (dispatched_tasks c)) \<noteq> []"
  proof -
    have "case ?r of Inl e \<Rightarrow> False | Inr (d', a', c, prio) \<Rightarrow> concat (map canvas_slugs (dispatched_tasks c)) \<noteq> []"
      by code_simp
    then show ?thesis by (cases ?r) (auto split: prod.splits)
  qed
  then obtain d' a' c prio where r: "?r = Inr (d', a', c, prio)" "concat (map canvas_slugs (dispatched_tasks c)) \<noteq> []"
    by blast
  then have "Inr (d', a', c, prio) \<in> {?r, controller_generate_losses demo_broker (le_storage demo_env) lc_db 100 ''u2''
      demo_analysis 1 (Some 2), generate_input_and_losses demo_broker (le_storage demo_env) lc_db 100 ''u1'' ''u2''
      demo_analysis 1 (Some 2) (Some 2)}" by simp
  from subtask_ids_recorded [OF demo_broker_matches refl refl refl this] r show ?thesis by blast
qed

end
