(* ===== verification/Analysis_Tasks_V2.thy ===== *)
theory Analysis_Tasks_V2
  imports Task_World Task_Controller
begin

text \<open>
  The Celery tasks of the distributed mode (\<open>analyses/v2_api/tasks.py\<close>): recording inputs, losses
  and errors on the analysis, and the status of the sub-tasks.
\<close>

section \<open>Recording files\<close>

text \<open>The entries of the worker's result dictionary the tasks read; a missing entry is \<open>None\<close>.\<close>

record input_result =
  ir_output_location :: "string option"
  ir_lookup_error_location :: "string option"
  ir_lookup_success_location :: "string option"
  ir_lookup_validation_location :: "string option"
  ir_summary_levels_location :: "string option"
  ir_analysis_settings_location :: "string option"

definition ref_str :: "string option \<Rightarrow> string" where
  "ref_str r = (case r of None \<Rightarrow> ''None'' | Some s \<Rightarrow> s)"

definition store_lookup_errors_file :: "task_env \<Rightarrow> string option \<Rightarrow> pk \<Rightarrow> pk \<Rightarrow> pk option wm" where
  "store_lookup_errors_file te reference initiator i =
     (if ends_with (ref_str reference) ''.parquet''
      then store_fileW te reference ''application/octet-stream'' initiator True
             (Some (analysis_name i ''_keys-errors.parquet''))
      else store_fileW te reference ''text/csv'' initiator True (Some (analysis_name i ''_keys-errors.csv'')))"

definition store_lookup_success_file :: "task_env \<Rightarrow> string option \<Rightarrow> pk \<Rightarrow> pk \<Rightarrow> pk option wm" where
  "store_lookup_success_file te reference initiator i =
     (if ends_with (ref_str reference) ''.parquet''
      then store_fileW te reference ''application/octet-stream'' initiator True
             (Some (analysis_name i ''_gul_summary_map.parquet''))
      else store_fileW te reference ''text/csv'' initiator True (Some (analysis_name i ''_gul_summary_map.csv'')))"

text \<open>The logs of the completed sub-tasks, each under a banner with its slug.\<close>

definition log_section :: "task_env \<Rightarrow> db \<Rightarrow> subtask \<Rightarrow> string" where
  "log_section te d s =
     (case related d (st_output_log s) of None \<Rightarrow> [] | Some f \<Rightarrow> slug_banner (st_slug s) @ te_read te (rf_content f))"

definition completed_logs :: "task_env \<Rightarrow> db \<Rightarrow> pk \<Rightarrow> string" where
  "completed_logs te d i =
     concat (map (log_section te d) (filter (\<lambda>s. st_analysis s = i \<and> st_status s \<in> set [COMPLETED]) (db_subtasks d)))"

definition emit_sub_task_start :: "task_env \<Rightarrow> pk \<Rightarrow> string \<Rightarrow> string \<Rightarrow> unit wm" where
  "emit_sub_task_start te i slug request_id =
     emitW (Delay ''record_sub_task_start'' [(''analysis_id'', A_Int (int i)), (''task_slug'', A_Str slug),
       (''task_id'', A_Str request_id), (''dt'', A_Int (te_now te))])"

definition attach_input_files :: "task_env \<Rightarrow> input_result \<Rightarrow> pk \<Rightarrow> pk \<Rightarrow> analysis \<Rightarrow> analysis wm" where
  "attach_input_files te res i initiator a =
     bindW (store_archiveW te (ir_output_location res) initiator (analysis_name i ''_inputs'')) (\<lambda>f1.
     bindW (store_lookup_errors_file te (ir_lookup_error_location res) initiator i) (\<lambda>f2.
     bindW (store_lookup_success_file te (ir_lookup_success_location res) initiator i) (\<lambda>f3.
     bindW (store_fileW te (ir_lookup_validation_location res) ''application/json'' initiator True
              (Some (analysis_name i ''_exposure_summary_report.json''))) (\<lambda>f4.
     bindW (store_fileW te (ir_summary_levels_location res) ''application/json'' initiator True
              (Some (analysis_name i ''_exposure_summary_levels.json''))) (\<lambda>f5.
       let a1 = a\<lparr>an_input_file := f1, an_lookup_errors_file := f2, an_lookup_success_file := f3,
                  an_lookup_validation_file := f4, an_summary_levels_file := f5\<rparr> in
       if str_truthy (ir_analysis_settings_location res)
       then bindW (store_fileW te (ir_analysis_settings_location res) ''application/json'' initiator False
                    (Some (analysis_name i ''_settings.json''))) (\<lambda>f6. returnW (a1\<lparr>an_settings_file := f6\<rparr>))
       else returnW a1)))))"

text \<open>
  \<open>record_input_files\<close>; the parameter \<open>analysis_finish_status\<close> is accepted and not used.
\<close>

definition record_input_files ::
  "task_env \<Rightarrow> input_result \<Rightarrow> pk \<Rightarrow> pk \<Rightarrow> string \<Rightarrow> string \<Rightarrow> analysis_status \<Rightarrow> unit wm" where
  "record_input_files te res i initiator_id slug request_id analysis_finish_status =
     bindW (emit_sub_task_start te i slug request_id) (\<lambda>_.
     bindW (get_analysisW i) (\<lambda>a.
     bindW (get_userW te initiator_id) (\<lambda>initiator.
     bindW (attach_input_files te res i initiator
              (a\<lparr>an_task_finished := Some (te_now te), an_status := READY\<rparr>)) (\<lambda>a1.
     bindW get_dbW (\<lambda>d.
     bindW (create_fileW (text_file te (analysis_name i ''_generation_traceback.txt'') initiator_id
              (completed_logs te d i))) (\<lambda>tb.
       save_analysisW (a1\<lparr>an_input_generation_traceback_file := Some tb\<rparr>)))))))"

definition opt_store :: "string option \<Rightarrow> (string option \<Rightarrow> pk option wm) \<Rightarrow> pk option \<Rightarrow> pk option wm" where
  "opt_store reference store old = (if str_truthy reference then store reference else returnW old)"

definition record_input_error_files ::
  "task_env \<Rightarrow> pk \<Rightarrow> pk \<Rightarrow> string option \<Rightarrow> string option \<Rightarrow> unit wm" where
  "record_input_error_files te i initiator_id output_location lookup_error_location =
     bindW (get_analysisW i) (\<lambda>a.
     bindW (get_userW te initiator_id) (\<lambda>initiator.
     bindW (opt_store output_location (\<lambda>r. store_archiveW te r initiator (analysis_name i ''_inputs''))
              (an_input_file a)) (\<lambda>f1.
     bindW (opt_store lookup_error_location (\<lambda>r. store_lookup_errors_file te r initiator i)
              (an_lookup_errors_file a)) (\<lambda>f2.
       modify_dbW (\<lambda>d. save_analysis_fields d i
         (\<lambda>row. row\<lparr>an_input_file := f1, an_lookup_errors_file := f2\<rparr>))))))"

text \<open>\<open>result['output_location']\<close>: a missing key raises.\<close>

definition required_key :: "string \<Rightarrow> string option option \<Rightarrow> string option wm" where
  "required_key key v = liftW (case v of None \<Rightarrow> Inl (KeyError key) | Some r \<Rightarrow> Inr r)"

definition record_losses_files ::
  "task_env \<Rightarrow> string option \<Rightarrow> string option option \<Rightarrow> pk \<Rightarrow> pk \<Rightarrow> string \<Rightarrow> string \<Rightarrow> unit wm" where
  "record_losses_files te run_logs output_location i initiator_id slug request_id =
     bindW (emit_sub_task_start te i slug request_id) (\<lambda>_.
     bindW (get_userW te initiator_id) (\<lambda>initiator.
     bindW (get_analysisW i) (\<lambda>a.
     bindW get_dbW (\<lambda>d.
     bindW (create_fileW (text_file te (analysis_name i ''_run_traceback.txt'') initiator_id
              (completed_logs te d i))) (\<lambda>tb.
     bindW (opt_store run_logs (\<lambda>r. store_archiveW te r initiator (analysis_name i ''_logs''))
              (an_run_log_file a)) (\<lambda>logs.
     bindW (required_key ''output_location'' output_location) (\<lambda>loc.
     bindW (store_archiveW te loc initiator (analysis_name i ''_output'')) (\<lambda>out.
       save_analysisW (a\<lparr>an_status := RUN_COMPLETED, an_task_finished := Some (te_now te),
         an_run_traceback_file := Some tb, an_run_log_file := logs, an_output_file := out\<rparr>)))))))))"

definition record_losses_error_files ::
  "task_env \<Rightarrow> pk \<Rightarrow> pk \<Rightarrow> string option \<Rightarrow> string option \<Rightarrow> unit wm" where
  "record_losses_error_files te i initiator_id output_location run_logs =
     bindW (get_analysisW i) (\<lambda>a.
     bindW (get_userW te initiator_id) (\<lambda>initiator.
     bindW (opt_store output_location (\<lambda>r. store_archiveW te r initiator (analysis_name i ''_output''))
              (an_output_file a)) (\<lambda>f1.
     bindW (opt_store run_logs (\<lambda>r. store_archiveW te r initiator (analysis_name i ''_logs''))
              (an_run_log_file a)) (\<lambda>f2.
       modify_dbW (\<lambda>d. save_analysis_fields d i
         (\<lambda>row. row\<lparr>an_output_file := f1, an_run_log_file := f2\<rparr>))))))"

section \<open>Sub-task status\<close>

definition start_subtask :: "time \<Rightarrow> string \<Rightarrow> subtask \<Rightarrow> subtask" where
  "start_subtask t task_id s =
     s\<lparr>st_task_id := task_id,
       st_start_time := (case st_start_time s of None \<Rightarrow> Some t | Some t' \<Rightarrow> Some t'),
       st_status := (if st_status s = QUEUED then STARTED else st_status s)\<rparr>"

definition record_sub_task_start :: "task_env \<Rightarrow> pk \<Rightarrow> string \<Rightarrow> string \<Rightarrow> time option \<Rightarrow> unit wm" where
  "record_sub_task_start te i task_slug task_id dt =
     modify_dbW (update_subtasks (at_slug i task_slug)
       (start_subtask (case dt of None \<Rightarrow> te_now te | Some t \<Rightarrow> if t = 0 then te_now te else t) task_id))"

definition record_sub_task_success ::
  "task_env \<Rightarrow> string option \<Rightarrow> string option \<Rightarrow> pk \<Rightarrow> pk \<Rightarrow> string \<Rightarrow> string \<Rightarrow> unit wm" where
  "record_sub_task_success te log_location error_location i initiator_id task_slug parent_id =
     bindW (get_userW te initiator_id) (\<lambda>initiator.
     bindW (opt_store log_location (\<lambda>r. store_fileW te r ''text/plain'' initiator True
              (Some (parent_id @ ''-output.log''))) None) (\<lambda>out.
     bindW (opt_store error_location (\<lambda>r. store_fileW te r ''text/plain'' initiator True
              (Some (parent_id @ ''-error.log''))) None) (\<lambda>err.
       modify_dbW (update_subtasks (at_slug i task_slug) (\<lambda>s.
         s\<lparr>st_task_id := parent_id, st_status := COMPLETED, st_end_time := Some (te_now te),
           st_output_log := out, st_error_log := err\<rparr>)))))"

definition set_subtask_status ::
  "task_env \<Rightarrow> pk \<Rightarrow> pk \<Rightarrow> string \<Rightarrow> task_status \<Rightarrow> string \<Rightarrow> string \<Rightarrow> unit wm" where
  "set_subtask_status te i initiator_id task_slug subtask_status error_msg request_id =
     bindW (create_fileW (log_text_file te (request_id @ ''-error.log'') initiator_id error_msg)) (\<lambda>f.
       modify_dbW (update_subtasks (at_slug i task_slug) (\<lambda>s.
         s\<lparr>st_status := subtask_status, st_end_time := Some (te_now te), st_error_log := Some f\<rparr>)))"

definition record_sub_task_failure ::
  "task_env \<Rightarrow> string \<Rightarrow> pk \<Rightarrow> pk \<Rightarrow> string \<Rightarrow> string \<Rightarrow> unit wm" where
  "record_sub_task_failure te tb i initiator_id task_slug parent_id =
     bindW (create_fileW (log_text_file te (parent_id @ ''-error.log'') initiator_id tb)) (\<lambda>f.
       modify_dbW (update_subtasks (at_slug i task_slug) (\<lambda>s.
         s\<lparr>st_task_id := parent_id, st_status := ERROR, st_end_time := Some (te_now te), st_error_log := Some f\<rparr>)))"

definition chord_error_callback :: "task_env \<Rightarrow> pk \<Rightarrow> unit wm" where
  "chord_error_callback te i =
     bindW get_dbW (\<lambda>d.
       let unfinished = (\<lambda>s. st_analysis s = i \<and> st_status s \<in> set [QUEUED, STARTED]);
           ids = remdups (map st_task_id (filter unfinished (db_subtasks d))) in
       bindW (\<lambda>w. (w\<lparr>w_effects := w_effects w @ map RevokeTask ids\<rparr>, Inr ())) (\<lambda>_.
         modify_dbW (update_subtasks unfinished (\<lambda>s.
           s\<lparr>st_status := CANCELLED, st_end_time := Some (te_now te)\<rparr>))))"

definition active_subtask :: "pk \<Rightarrow> subtask \<Rightarrow> bool" where
  "active_subtask i s \<longleftrightarrow> st_analysis s = i \<and> st_status s \<in> set [PENDING, QUEUED, STARTED]"

definition cancel_subtasks_task :: "task_env \<Rightarrow> pk \<Rightarrow> unit wm" where
  "cancel_subtasks_task te i =
     bindW (get_analysisW i) (\<lambda>a.
     bindW get_dbW (\<lambda>d.
     bindW (\<lambda>w. (w\<lparr>w_effects := w_effects w @ concat (map (\<lambda>s.
               if st_task_id s \<noteq> [] then [MarkRevoked (st_task_id s), RevokeTask (st_task_id s)] else [])
               (filter (active_subtask i) (db_subtasks d)))\<rparr>, Inr ())) (\<lambda>_.
       modify_dbW (update_subtasks (active_subtask i) (\<lambda>s.
         s\<lparr>st_status := CANCELLED, st_end_time := Some (te_now te)\<rparr>)))))"

definition mark_task_as_queued :: "pk \<Rightarrow> string \<Rightarrow> string \<Rightarrow> time \<Rightarrow> unit wm" where
  "mark_task_as_queued i slug task_id dt =
     modify_dbW (update_subtasks (at_slug i slug) (\<lambda>s.
       s\<lparr>st_task_id := task_id, st_status := QUEUED, st_queue_time := Some dt\<rparr>))"

definition subtask_error_log :: "task_env \<Rightarrow> pk \<Rightarrow> pk \<Rightarrow> string \<Rightarrow> string \<Rightarrow> string option \<Rightarrow> unit wm" where
  "subtask_error_log te i initiator_id slug task_id log_file =
     bindW (get_userW te initiator_id) (\<lambda>initiator.
     bindW (store_fileW te log_file ''text/plain'' initiator True (Some (task_id @ ''-output.log''))) (\<lambda>f.
       modify_dbW (update_subtasks (at_slug i slug) (\<lambda>s. s\<lparr>st_output_log := f\<rparr>))))"

definition retry_text :: "task_env \<Rightarrow> db \<Rightarrow> subtask \<Rightarrow> string \<Rightarrow> string \<Rightarrow> string" where
  "retry_text te d s slug error_trace =
     (case related d (st_retry_log s) of None \<Rightarrow> [] | Some f \<Rightarrow> te_read te (rf_content f)) @
     nl @ ''=== '' @ slug @ '', try='' @ str_int (st_retry_count s) @ ''  ==='' @ nl @ error_trace"

definition subtask_retry_log :: "task_env \<Rightarrow> pk \<Rightarrow> pk \<Rightarrow> string \<Rightarrow> string \<Rightarrow> string \<Rightarrow> unit wm" where
  "subtask_retry_log te i initiator_id slug task_id error_trace =
     bindW get_dbW (\<lambda>d.
       case find (at_slug i slug) (db_subtasks d) of
         None \<Rightarrow> returnW ()
       | Some s \<Rightarrow>
           bindW (create_fileW (text_file te (task_id @ ''-retry.log'') initiator_id (retry_text te d s slug error_trace)))
             (\<lambda>f. modify_dbW (update_subtasks (at_slug i slug) (\<lambda>row.
                row\<lparr>st_retry_count := st_retry_count s + 1, st_retry_log := Some f\<rparr>))))"

definition update_task_id :: "task_env \<Rightarrow> (string \<times> pk \<times> string) list \<Rightarrow> unit wm" where
  "update_task_id te task_update_list =
     (case task_update_list of
        [] \<Rightarrow> raiseW (IndexError ''list index out of range'')
      | (_, i, _) # _ \<Rightarrow>
          bindW (modify_dbW (update_subtasks (\<lambda>s. st_analysis s = i \<and> st_status s \<in> set [PENDING])
                   (\<lambda>s. s\<lparr>st_status := QUEUED\<rparr>))) (\<lambda>_.
            modify_dbW (fold (\<lambda>(task_id, j, slug). update_subtasks (at_slug j slug)
              (\<lambda>s. s\<lparr>st_task_id := task_id, st_queue_time := Some (te_now te)\<rparr>)) task_update_list)))"

section \<open>Errback arguments\<close>

text \<open>
  Celery calls an errback with the request, the exception and the traceback, or in the old style
  with the identifier of the failed task, which is looked up in the result back end
  (\<open>AsyncResult\<close>, a parameter: \<open>None\<close> where it raises \<open>ValueError\<close>).
\<close>

datatype errback_args = New_Style "string option" | Old_Style string | No_Args

definition traceback_from_errback_args ::
  "(string \<Rightarrow> string option option) \<Rightarrow> errback_args \<Rightarrow> string result" where
  "traceback_from_errback_args async_result args =
     (case args of
        New_Style tb \<Rightarrow> Inr (case tb of None \<Rightarrow> [] | Some t \<Rightarrow> t)
      | Old_Style task_id \<Rightarrow>
          Inr (case async_result task_id of None \<Rightarrow> [] | Some None \<Rightarrow> [] | Some (Some t) \<Rightarrow> t)
      | No_Args \<Rightarrow> Inl (IndexError ''tuple index out of range''))"

section \<open>Starting the work of an analysis\<close>

text \<open>
  The three tasks that call the controller; they return the dispatched chain with its priority.
  \<open>celery\<close> gives the result object of a dispatched chain.
\<close>

definition dispatchW :: "(db \<Rightarrow> (db \<times> analysis \<times> 'c) result) \<Rightarrow> 'c wm" where
  "dispatchW f = stepW (\<lambda>d. rbind (f d) (\<lambda>(d', _, c). Inr (d', c)))"

definition start_input_generation_task ::
  "(dispatched \<Rightarrow> celery_result) \<Rightarrow> task_env \<Rightarrow> pk \<Rightarrow> pk \<Rightarrow> int option \<Rightarrow> (dispatched \<times> int) wm" where
  "start_input_generation_task celery te i initiator_pk loc_lines =
     bindW (get_analysisW i) (\<lambda>a. bindW (get_userW te initiator_pk) (\<lambda>u.
       dispatchW (\<lambda>d. controller_generate_inputs celery (te_storage te) d (te_now te) (te_uuid te) a u loc_lines)))"

definition start_loss_generation_task ::
  "(dispatched \<Rightarrow> celery_result) \<Rightarrow> task_env \<Rightarrow> pk \<Rightarrow> pk \<Rightarrow> int option \<Rightarrow> (dispatched \<times> int) wm" where
  "start_loss_generation_task celery te i initiator_pk events_total =
     bindW (get_analysisW i) (\<lambda>a. bindW (get_userW te initiator_pk) (\<lambda>u.
       dispatchW (\<lambda>d. controller_generate_losses celery (te_storage te) d (te_now te) (te_uuid te) a u events_total)))"

definition start_input_and_loss_generation_task ::
  "(dispatched \<Rightarrow> celery_result) \<Rightarrow> task_env \<Rightarrow> string \<Rightarrow> pk \<Rightarrow> pk \<Rightarrow> int option \<Rightarrow> int option \<Rightarrow> (dispatched \<times> int) wm" where
  "start_input_and_loss_generation_task celery te losses_uuid i initiator_pk loc_lines events_total =
     bindW (get_analysisW i) (\<lambda>a. bindW (get_userW te initiator_pk) (\<lambda>u.
       dispatchW (\<lambda>d. generate_input_and_losses celery (te_storage te) d (te_now te) (te_uuid te) losses_uuid a u
         loc_lines events_total)))"

section \<open>Status of the analysis\<close>

definition set_task_status :: "pk \<Rightarrow> analysis_status \<Rightarrow> time \<Rightarrow> unit wm" where
  "set_task_status i task_status dt =
     tryW (bindW (get_analysisW i) (\<lambda>a.
       whenW (an_status a \<notin> set [INPUTS_GENERATION_CANCELLED, RUN_CANCELLED])
         (modify_dbW (\<lambda>d. save_analysis_fields d i
            (\<lambda>row. row\<lparr>an_status := task_status, an_task_started := Some dt\<rparr>)))))"

text \<open>
  \<open>handle_task_failure\<close>. The first argument is the number of retries so far; the outcome says
  whether the task was put back or has recorded the failure. The error is logged when recording
  raises.
\<close>

datatype failure_outcome = Retried | Handled

definition max_retries :: nat where
  "max_retries = 8"

definition failed_subtasks :: "db \<Rightarrow> pk \<Rightarrow> subtask list" where
  "failed_subtasks d i = filter (\<lambda>s. st_analysis s = i \<and> st_status s = ERROR) (db_subtasks d)"

definition logs_pending :: "db \<Rightarrow> subtask list \<Rightarrow> bool" where
  "logs_pending d failed \<longleftrightarrow> failed = [] \<or> list_ex (\<lambda>s. related d (st_output_log s) = None) failed"

definition failure_text :: "task_env \<Rightarrow> db \<Rightarrow> string \<Rightarrow> subtask list \<Rightarrow> string" where
  "failure_text te d tb failed =
     (if tb \<noteq> [] then nl @ ''=== Trace Back ==='' @ nl @ tb else []) @
     concat (map (\<lambda>s. slug_banner (st_slug s) @
       (case related d (st_output_log s) of None \<Rightarrow> [] | Some f \<Rightarrow> te_read te (rf_content f)) @
       (case related d (st_error_log s) of None \<Rightarrow> [] | Some f \<Rightarrow> te_read te (rf_content f))) failed)"

definition record_failure ::
  "task_env \<Rightarrow> string \<Rightarrow> pk \<Rightarrow> pk \<Rightarrow> analysis_field \<Rightarrow> analysis_status \<Rightarrow> analysis \<Rightarrow> subtask list \<Rightarrow> unit wm" where
  "record_failure te tb i initiator_id traceback_property failure_status a failed =
     (let a1 = (if an_status a \<notin> set [INPUTS_GENERATION_CANCELLED, RUN_CANCELLED, INPUTS_GENERATION_NO_KEYS]
                then a\<lparr>an_status := failure_status\<rparr> else a)\<lparr>an_task_finished := Some (te_now te)\<rparr> in
      bindW (get_userW te initiator_id) (\<lambda>creator.
      bindW get_dbW (\<lambda>d.
      bindW (create_fileW (text_file te (analysis_name i ''_worker_traceback.txt'') creator (failure_text te d tb failed)))
        (\<lambda>log_file.
          let a2 = set_field traceback_property (Some log_file) a1 in
          if traceback_property = run_traceback_file then
            bindW (case an_run_log_file a2 of
                     None \<Rightarrow> returnW () | Some f \<Rightarrow> modify_dbW (\<lambda>d. delete_file d f)) (\<lambda>_.
              save_analysisW (a2\<lparr>an_run_log_file := Some log_file\<rparr>))
          else save_analysisW a2))))"

definition handle_task_failure ::
  "task_env \<Rightarrow> nat \<Rightarrow> string \<Rightarrow> pk \<Rightarrow> pk \<Rightarrow> string option \<Rightarrow> analysis_field \<Rightarrow> analysis_status \<Rightarrow> failure_outcome wm" where
  "handle_task_failure te retries tb i initiator_id run_data_uuid traceback_property failure_status =
     bindW (get_analysisW i) (\<lambda>a.
     bindW get_dbW (\<lambda>d.
       let failed = failed_subtasks d i in
       if logs_pending d failed \<and> retries < max_retries then returnW Retried
       else
         bindW (tryW (record_failure te tb i initiator_id traceback_property failure_status a failed)) (\<lambda>_.
         bindW (whenW (\<not> te_keep_local_data te \<and> str_truthy run_data_uuid)
                  (emitW (RemoveTree (path_join (te_run_data_dir te)
                    (''analysis-'' @ str_nat i @ ''-'' @ the run_data_uuid))))) (\<lambda>_.
           returnW Handled))))"

end
