(* ===== verification/Analysis_Tasks_V1.thy ===== *)
theory Analysis_Tasks_V1
  imports Task_World
begin

text \<open>
  The Celery tasks of the single-instance mode (\<open>analyses/v1_api/tasks.py\<close>): recording the result
  or failure of a run and of input generation, the status update sent by workers, the failure
  hook of the recording tasks, and the deprecated success tasks.
\<close>

definition delete_prev_output_v1W :: "analysis \<Rightarrow> analysis_field list \<Rightarrow> analysis wm" where
  "delete_prev_output_v1W a fs = stepW (\<lambda>d. Inr (delete_prev_output_v1 d a fs))"

definition set_task_status_v1 :: "task_env \<Rightarrow> pk \<Rightarrow> analysis_status \<Rightarrow> unit wm" where
  "set_task_status_v1 te i task_status =
     tryW (bindW (get_analysisW i) (\<lambda>a.
       modify_dbW (\<lambda>d. save_analysis_fields d i
         (\<lambda>row. row\<lparr>an_status := task_status, an_task_started := Some (te_now te)\<rparr>))))"

record run_result =
  rr_output_location :: "string option"
  rr_traceback_location :: "string option"
  rr_log_location :: "string option"
  rr_return_code :: int

definition when_store :: "bool \<Rightarrow> pk option wm \<Rightarrow> pk option \<Rightarrow> pk option wm" where
  "when_store b m old = (if b then m else returnW old)"

definition record_run_analysis_result :: "task_env \<Rightarrow> run_result \<Rightarrow> pk \<Rightarrow> pk \<Rightarrow> unit wm" where
  "record_run_analysis_result te res i initiator_pk =
     bindW (get_userW te initiator_pk) (\<lambda>initiator.
     bindW (get_analysisW i) (\<lambda>a.
     bindW (delete_prev_output_v1W
              (a\<lparr>an_status := (if rr_return_code res = 0 then RUN_COMPLETED else RUN_ERROR),
                 an_task_finished := Some (te_now te)\<rparr>)
              [output_file, run_log_file, run_traceback_file]) (\<lambda>a1.
     bindW (when_store (rr_return_code res = 0)
              (store_archive_v1W te (rr_output_location res) initiator (analysis_name i ''_output''))
              (an_output_file a1)) (\<lambda>out.
     bindW (when_store (str_truthy (rr_log_location res))
              (store_archive_v1W te (rr_log_location res) initiator (analysis_name i ''_logs''))
              (an_run_log_file a1)) (\<lambda>logs.
     bindW (when_store (str_truthy (rr_traceback_location res))
              (store_file_v1W te (rr_traceback_location res) ''text/plain'' initiator True
                (Some (analysis_name i ''_run_traceback.txt'')))
              (an_run_traceback_file a1)) (\<lambda>tb.
       save_analysisW (a1\<lparr>an_output_file := out, an_run_log_file := logs, an_run_traceback_file := tb\<rparr>)))))))"

definition ref_str_v1 :: "string option \<Rightarrow> string" where
  "ref_str_v1 r = (case r of None \<Rightarrow> ''None'' | Some s \<Rightarrow> s)"

definition store_lookup_errors_file_v1 :: "task_env \<Rightarrow> string option \<Rightarrow> pk \<Rightarrow> pk \<Rightarrow> pk option wm" where
  "store_lookup_errors_file_v1 te reference initiator i =
     (if ends_with (ref_str_v1 reference) ''.parquet''
      then store_file_v1W te reference ''application/octet-stream'' initiator False
             (Some (analysis_name i ''_keys-errors.parquet''))
      else store_file_v1W te reference ''text/csv'' initiator False (Some (analysis_name i ''_keys-errors.csv'')))"

definition store_lookup_success_file_v1 :: "task_env \<Rightarrow> string option \<Rightarrow> pk \<Rightarrow> pk \<Rightarrow> pk option wm" where
  "store_lookup_success_file_v1 te reference initiator i =
     (if ends_with (ref_str_v1 reference) ''.parquet''
      then store_file_v1W te reference ''application/octet-stream'' initiator True
             (Some (analysis_name i ''_gul_summary_map.parquet''))
      else store_file_v1W te reference ''text/csv'' initiator True (Some (analysis_name i ''_gul_summary_map.csv'')))"

record generate_result =
  gr_input_location :: "string option"
  gr_lookup_error_fp :: "string option"
  gr_lookup_success_fp :: "string option"
  gr_lookup_validation_fp :: "string option"
  gr_summary_levels_fp :: "string option"
  gr_traceback_fp :: "string option"
  gr_return_code :: int
  gr_additional_args :: "string option list"

definition if_given :: "string option \<Rightarrow> pk option wm \<Rightarrow> pk option wm" where
  "if_given r m = (if str_truthy r then m else returnW None)"

definition analysis_settings_fp :: "generate_result \<Rightarrow> string option" where
  "analysis_settings_fp res = (case gr_additional_args res of [] \<Rightarrow> None | fp # _ \<Rightarrow> fp)"

definition old_rm_list :: "generate_result \<Rightarrow> analysis_field list" where
  "old_rm_list res =
     [output_file, input_file, lookup_errors_file, lookup_success_file, lookup_validation_file,
      summary_levels_file, input_generation_traceback_file, run_traceback_file, run_log_file] @
     (if str_truthy (analysis_settings_fp res) then [settings_file] else [])"

definition generate_status :: "generate_result \<Rightarrow> analysis_status \<Rightarrow> analysis_status" where
  "generate_status res old =
     (if gr_return_code res = 0 then READY
      else if old \<noteq> INPUTS_GENERATION_NO_KEYS then INPUTS_GENERATION_ERROR
      else old)"

definition record_generate_input_result :: "task_env \<Rightarrow> generate_result \<Rightarrow> pk \<Rightarrow> pk \<Rightarrow> unit wm" where
  "record_generate_input_result te res i initiator_pk =
     bindW (get_analysisW i) (\<lambda>a.
     bindW (get_userW te initiator_pk) (\<lambda>initiator.
     bindW (delete_prev_output_v1W a (old_rm_list res)) (\<lambda>a1.
     bindW (if_given (gr_input_location res)
              (store_archive_v1W te (gr_input_location res) initiator (analysis_name i ''_inputs''))) (\<lambda>f1.
     bindW (if_given (gr_lookup_success_fp res)
              (store_lookup_success_file_v1 te (gr_lookup_success_fp res) initiator i)) (\<lambda>f2.
     bindW (if_given (gr_lookup_error_fp res)
              (store_lookup_errors_file_v1 te (gr_lookup_error_fp res) initiator i)) (\<lambda>f3.
     bindW (if_given (gr_lookup_validation_fp res)
              (store_file_v1W te (gr_lookup_validation_fp res) ''application/json'' initiator False
                (Some (analysis_name i ''_exposure_summary_report.json'')))) (\<lambda>f4.
     bindW (if_given (gr_summary_levels_fp res)
              (store_file_v1W te (gr_summary_levels_fp res) ''application/json'' initiator False
                (Some (analysis_name i ''_exposure_summary_levels.json'')))) (\<lambda>f5.
     bindW (when_store (str_truthy (analysis_settings_fp res))
              (store_file_v1W te (analysis_settings_fp res) ''application/json'' initiator False
                (Some (analysis_name i ''_settings.json''))) (an_settings_file a1)) (\<lambda>f6.
     bindW (when_store (str_truthy (gr_traceback_fp res))
              (store_file_v1W te (gr_traceback_fp res) ''text/plain'' initiator True
                (Some (analysis_name i ''_generation_traceback.txt''))) (an_input_generation_traceback_file a1)) (\<lambda>tb.
       save_analysisW (a1\<lparr>an_status := generate_status res (an_status a1), an_input_file := f1,
         an_lookup_success_file := f2, an_lookup_errors_file := f3, an_lookup_validation_file := f4,
         an_summary_levels_file := f5, an_task_finished := Some (te_now te), an_settings_file := f6,
         an_input_generation_traceback_file := tb\<rparr>)))))))))))"

definition store_traceback ::
  "task_env \<Rightarrow> string option \<Rightarrow> pk \<Rightarrow> pk \<Rightarrow> string \<Rightarrow> analysis_field \<Rightarrow> analysis \<Rightarrow> analysis wm" where
  "store_traceback te traceback i initiator_pk suffix fld a =
     (if str_truthy traceback
      then bindW (get_userW te initiator_pk) (\<lambda>creator.
           bindW (create_fileW (text_file te (analysis_name i suffix) creator (the traceback))) (\<lambda>f.
             returnW (set_field fld (Some f) a)))
      else returnW a)"

definition record_run_analysis_failure :: "task_env \<Rightarrow> pk \<Rightarrow> pk \<Rightarrow> string option \<Rightarrow> unit wm" where
  "record_run_analysis_failure te i initiator_pk traceback =
     tryW (bindW (get_analysisW i) (\<lambda>a.
       bindW (store_traceback te traceback i initiator_pk ''_run_traceback.txt'' run_traceback_file
                (a\<lparr>an_status := RUN_ERROR, an_task_finished := Some (te_now te)\<rparr>)) (\<lambda>a1.
       case an_run_log_file a1 of
         None \<Rightarrow> save_analysisW a1
       | Some f \<Rightarrow>
           bindW (modify_dbW (\<lambda>d. delete_file d f)) (\<lambda>_. save_analysisW (a1\<lparr>an_run_log_file := None\<rparr>)))))"

definition record_generate_input_failure :: "task_env \<Rightarrow> pk \<Rightarrow> pk \<Rightarrow> string option \<Rightarrow> unit wm" where
  "record_generate_input_failure te i initiator_pk traceback =
     tryW (bindW (get_analysisW i) (\<lambda>a.
       bindW (store_traceback te traceback i initiator_pk ''_generation_traceback.txt'' input_generation_traceback_file
                (a\<lparr>an_status := INPUTS_GENERATION_ERROR, an_task_finished := Some (te_now te)\<rparr>)) (\<lambda>a1.
       save_analysisW a1)))"

text \<open>
  \<open>LogTaskError.handle_task_failure\<close>: when a recording task itself raises. The status is saved even
  when storing the traceback raises; \<open>storage_error\<close> is the exception of
  \<open>RelatedFile.objects.create\<close>, if it raises one.
\<close>

datatype recording_task = RecordRunAnalysisResult | RecordGenerateInputResult

definition error_status :: "recording_task \<Rightarrow> analysis_status" where
  "error_status name =
     (case name of RecordGenerateInputResult \<Rightarrow> INPUTS_GENERATION_ERROR | RecordRunAnalysisResult \<Rightarrow> RUN_ERROR)"

definition log_traceback :: "task_env \<Rightarrow> string \<Rightarrow> pk \<Rightarrow> related_file" where
  "log_traceback te traceback initiator =
     text_file te (te_uuid te @ ''.txt'') initiator (''worker-monitor error:'' @ nl @ '' '' @ traceback)"

definition store_log_traceback :: "related_file \<Rightarrow> recording_task \<Rightarrow> analysis \<Rightarrow> unit wm" where
  "store_log_traceback tb name a =
     bindW (create_fileW tb) (\<lambda>f.
       case name of
         RecordGenerateInputResult \<Rightarrow> save_analysisW (a\<lparr>an_input_generation_traceback_file := Some f\<rparr>)
       | RecordRunAnalysisResult \<Rightarrow>
           bindW (delete_prev_output_v1W (a\<lparr>an_run_traceback_file := Some f\<rparr>) [run_log_file]) save_analysisW)"

definition log_task_failure ::
  "task_env \<Rightarrow> py_exn option \<Rightarrow> recording_task option \<Rightarrow> string \<Rightarrow> pk \<Rightarrow> pk \<Rightarrow> unit wm" where
  "log_task_failure te storage_error task_name traceback i initiator_pk =
     (case task_name of
        None \<Rightarrow> returnW ()
      | Some name \<Rightarrow>
          bindW (get_userW te initiator_pk) (\<lambda>initiator.
          bindW (get_analysisW i) (\<lambda>a.
            let a1 = a\<lparr>an_task_finished := Some (te_now te), an_status := error_status name\<rparr> in
            case storage_error of
              None \<Rightarrow> store_log_traceback (log_traceback te traceback initiator) name a1
            | Some e \<Rightarrow> bindW (save_analysisW a1) (\<lambda>_. raiseW e))))"

text \<open>The class of the same name in \<open>analyses/v2_api/tasks.py\<close> names the file after the analysis.\<close>

definition log_traceback_v2 :: "task_env \<Rightarrow> recording_task \<Rightarrow> string \<Rightarrow> pk \<Rightarrow> pk \<Rightarrow> related_file" where
  "log_traceback_v2 te name traceback i initiator =
     text_file te (analysis_name i (case name of RecordGenerateInputResult \<Rightarrow> ''_generation_traceback.txt''
         | RecordRunAnalysisResult \<Rightarrow> ''_run_traceback.txt''))
       initiator (''worker-monitor error:'' @ nl @ '' '' @ traceback)"

definition store_log_traceback_v2 :: "related_file \<Rightarrow> recording_task \<Rightarrow> analysis \<Rightarrow> unit wm" where
  "store_log_traceback_v2 tb name a =
     bindW (create_fileW tb) (\<lambda>f.
       case name of
         RecordGenerateInputResult \<Rightarrow> save_analysisW (a\<lparr>an_input_generation_traceback_file := Some f\<rparr>)
       | RecordRunAnalysisResult \<Rightarrow>
           bindW (delete_prev_outputW (a\<lparr>an_run_traceback_file := Some f\<rparr>) [run_log_file]) save_analysisW)"

definition log_task_failure_v2 ::
  "task_env \<Rightarrow> py_exn option \<Rightarrow> recording_task option \<Rightarrow> string \<Rightarrow> pk \<Rightarrow> pk \<Rightarrow> unit wm" where
  "log_task_failure_v2 te storage_error task_name traceback i initiator_pk =
     (case task_name of
        None \<Rightarrow> returnW ()
      | Some name \<Rightarrow>
          bindW (get_userW te initiator_pk) (\<lambda>initiator.
          bindW (get_analysisW i) (\<lambda>a.
            let a1 = a\<lparr>an_task_finished := Some (te_now te), an_status := error_status name\<rparr> in
            case storage_error of
              None \<Rightarrow> store_log_traceback_v2 (log_traceback_v2 te name traceback i initiator) name a1
            | Some e \<Rightarrow> bindW (save_analysisW a1) (\<lambda>_. raiseW e))))"

text \<open>
  \<open>LogTaskError.on_failure\<close>: an exception of the handler is logged and goes no further.
\<close>

definition on_failure ::
  "task_env \<Rightarrow> py_exn option \<Rightarrow> recording_task option \<Rightarrow> string \<Rightarrow> pk \<Rightarrow> pk \<Rightarrow> unit wm" where
  "on_failure te storage_error task_name traceback i initiator_pk =
     tryW (log_task_failure te storage_error task_name traceback i initiator_pk)"

definition on_failure_v2 ::
  "task_env \<Rightarrow> py_exn option \<Rightarrow> recording_task option \<Rightarrow> string \<Rightarrow> pk \<Rightarrow> pk \<Rightarrow> unit wm" where
  "on_failure_v2 te storage_error task_name traceback i initiator_pk =
     tryW (log_task_failure_v2 te storage_error task_name traceback i initiator_pk)"

section \<open>Deprecated tasks\<close>

definition plain_file :: "string \<Rightarrow> string \<Rightarrow> string \<Rightarrow> pk \<Rightarrow> file_content \<Rightarrow> related_file" where
  "plain_file name filename content_type creator content =
     blank_file\<lparr>rf_file := name, rf_filename := filename, rf_content_type := content_type,
       rf_creator := Some creator, rf_content := content\<rparr>"

definition drop_traceback :: "analysis_field \<Rightarrow> analysis \<Rightarrow> analysis wm" where
  "drop_traceback fld a =
     (case get_field fld a of
        None \<Rightarrow> returnW a
      | Some f \<Rightarrow> bindW (modify_dbW (\<lambda>d. delete_file d f)) (\<lambda>_. returnW (set_field fld None a)))"

definition run_analysis_success :: "task_env \<Rightarrow> string \<Rightarrow> pk \<Rightarrow> pk \<Rightarrow> unit wm" where
  "run_analysis_success te output_location i initiator_pk =
     tryW (bindW (get_analysisW i) (\<lambda>a.
       bindW (get_userW te initiator_pk) (\<lambda>u.
       bindW (create_fileW (plain_file output_location output_location ''application/gzip'' u
                (sg_object (te_storage te) output_location))) (\<lambda>f.
       bindW (drop_traceback run_traceback_file (a\<lparr>an_status := RUN_COMPLETED,
                an_task_finished := Some (te_now te), an_output_file := Some f\<rparr>)) (\<lambda>a1.
       save_analysisW a1)))))"

definition generate_input_success ::
  "task_env \<Rightarrow> string \<times> string \<times> string \<times> string \<times> string \<Rightarrow> pk \<Rightarrow> pk \<Rightarrow> unit wm" where
  "generate_input_success te res i initiator_pk =
     (case res of (inp, err, ok, val, lev) \<Rightarrow>
     tryW (bindW (get_analysisW i) (\<lambda>a.
       bindW (get_userW te initiator_pk) (\<lambda>u.
       bindW (create_fileW (plain_file inp inp ''application/gzip'' u (sg_object (te_storage te) inp))) (\<lambda>f1.
       bindW (create_fileW (plain_file err ''keys-errors.csv'' ''text/csv'' u (sg_object (te_storage te) err))) (\<lambda>f2.
       bindW (create_fileW (plain_file ok ''gul_summary_map.csv'' ''text/csv'' u (sg_object (te_storage te) ok))) (\<lambda>f3.
       bindW (create_fileW (plain_file val ''exposure_summary_report.json'' ''application/json'' u
                (sg_object (te_storage te) val))) (\<lambda>f4.
       bindW (create_fileW (plain_file lev ''exposure_summary_levels.json'' ''application/json'' u
                (sg_object (te_storage te) lev))) (\<lambda>f5.
       bindW (drop_traceback input_generation_traceback_file (a\<lparr>an_status := READY,
                an_task_finished := Some (te_now te), an_input_file := Some f1, an_lookup_errors_file := Some f2,
                an_lookup_success_file := Some f3, an_lookup_validation_file := Some f4,
                an_summary_levels_file := Some f5\<rparr>)) (\<lambda>a1.
       save_analysisW a1))))))))))"

end
