(* ===== verification/Analysis_Reach.thy ===== *)
theory Analysis_Reach
  imports Analysis_Tasks_V2 Analysis_Tasks_V1
begin

text \<open>
  The distributed life cycle as a state machine over the database: requests of users interleaved
  with the messages of workers, in any order. An invariant of the database is a predicate that
  file creation, file deletion and sub-task updates keep; the locale collects what follows for
  the recording tasks.
\<close>

section \<open>Invariants of the database\<close>

text \<open>
  \<open>wspec I m P\<close>: the task keeps the invariant, also when it raises, and a result satisfies \<open>P\<close>.
\<close>

definition wspec :: "(db \<Rightarrow> bool) \<Rightarrow> 'a wm \<Rightarrow> ('a \<Rightarrow> bool) \<Rightarrow> bool" where
  "wspec I m P \<longleftrightarrow> (\<forall>w w' r. I (w_db w) \<longrightarrow> m w = (w', r) \<longrightarrow> I (w_db w') \<and> (\<forall>x. r = Inr x \<longrightarrow> P x))"

lemma wspec_bind:
  assumes "wspec I m P" "\<And>x. P x \<Longrightarrow> wspec I (f x) Q"
  shows "wspec I (bindW m f) Q"
  unfolding wspec_def
proof (intro allI impI)
  fix w w' r
  assume w: "I (w_db w)" "bindW m f w = (w', r)"
  obtain w1 r1 where m: "m w = (w1, r1)" by fastforce
  show "I (w_db w') \<and> (\<forall>x. r = Inr x \<longrightarrow> Q x)"
  proof (cases r1)
    case (Inl ex)
    with w m assms(1) show ?thesis by (auto simp: wspec_def)
  next
    case (Inr x)
    with w m assms(1) have "P x" "I (w_db w1)" "f x w1 = (w', r)" by (auto simp: wspec_def)
    with assms(2) show ?thesis unfolding wspec_def by blast
  qed
qed

lemma wspec_pure:
  "P x \<Longrightarrow> wspec I (returnW x) P" "wspec I (raiseW ex) P" "wspec I get_dbW (\<lambda>_. True)"
  "wspec I (emitW e) (\<lambda>_. True)"
  by (auto simp: wspec_def)

lemma wspec_get:
  "wspec I (get_analysisW i) (\<lambda>_. True)" "wspec I (get_userW te i) (\<lambda>_. True)"
  by (auto simp: wspec_def get_analysisW_def get_userW_def split: option.splits if_splits)

lemma wspec_key: "wspec I (required_key k v) (\<lambda>_. True)"
  by (auto simp: wspec_def required_key_def)

lemma wspec_modify: "(\<And>d. I d \<Longrightarrow> I (f d)) \<Longrightarrow> wspec I (modify_dbW f) (\<lambda>_. True)"
  by (auto simp: wspec_def)

lemma wspec_try: "wspec I m P \<Longrightarrow> wspec I (tryW m) (\<lambda>_. True)"
  by (auto simp: wspec_def tryW_def) (metis prod.collapse)

lemma wspec_when: "wspec I m (\<lambda>_. True) \<Longrightarrow> wspec I (whenW b m) (\<lambda>_. True)"
  by (simp add: whenW_def wspec_pure)

lemma wspec_weaken: "wspec I m P \<Longrightarrow> (\<And>x. P x \<Longrightarrow> Q x) \<Longrightarrow> wspec I m Q"
  unfolding wspec_def by blast

lemma wspecD: "wspec I m P \<Longrightarrow> I (w_db w) \<Longrightarrow> m w = (w', Inr x) \<Longrightarrow> I (w_db w') \<and> P x"
  unfolding wspec_def by blast

lemma wspec_apply: "wspec I m P \<Longrightarrow> I (w_db w) \<Longrightarrow> I (w_db (fst (m w)))"
  unfolding wspec_def by (metis prod.collapse)

locale file_invariant =
  fixes I :: "db \<Rightarrow> bool"
  assumes create_keeps: "I d \<Longrightarrow> I (fst (create_file d f))"
begin

lemma create_fileW_keeps: "wspec I (create_fileW f) (\<lambda>_. True)"
  by (auto simp: wspec_def create_fileW_def stepW_def split: prod.splits sum.splits)
     (metis create_keeps fst_conv)

lemma store_file_keeps: "store_file sg d r t c req n = Inr (d', v) \<Longrightarrow> I d \<Longrightarrow> I d'"
  by (auto dest!: store_file_effect intro: create_keeps)

lemma store_file_Some: "store_file sg d r t c True n = Inr (d', v) \<Longrightarrow> v \<noteq> None"
  by (auto dest!: store_file_effect)

lemma store_fileW_keeps: "wspec I (store_fileW te r t c req n) (\<lambda>v. req \<longrightarrow> v \<noteq> None)"
  unfolding wspec_def store_fileW_def stepW_def
  by (auto split: sum.splits dest: store_file_keeps store_file_Some)

lemma store_archiveW_keeps: "wspec I (store_archiveW te r c n) (\<lambda>v. v \<noteq> None)"
  unfolding wspec_def store_archiveW_def stepW_def store_archive_def
  by (auto simp: Let_def split: sum.splits option.splits dest: store_file_keeps store_file_Some)

lemma opt_store_keeps:
  "(\<And>r. wspec I (st r) (\<lambda>v. v \<noteq> None)) \<Longrightarrow> wspec I (opt_store reference st old) (\<lambda>v. v = old \<or> v \<noteq> None)"
  unfolding opt_store_def by (auto intro: wspec_pure wspec_weaken)

lemma store_lookup_keeps:
  "wspec I (store_lookup_errors_file te r u i) (\<lambda>v. v \<noteq> None)"
  "wspec I (store_lookup_success_file te r u i) (\<lambda>v. v \<noteq> None)"
  unfolding store_lookup_errors_file_def store_lookup_success_file_def
  by (auto intro!: wspec_weaken [OF store_fileW_keeps])

lemma attach_input_files_keeps:
  "wspec I (attach_input_files te res i u a) (\<lambda>a'. an_status a' = an_status a \<and> an_id a' = an_id a \<and> an_input_file a' \<noteq> None)"
  unfolding attach_input_files_def
  apply (rule wspec_bind [OF store_archiveW_keeps])
  apply (rule wspec_bind [OF store_lookup_keeps(1)])
  apply (rule wspec_bind [OF store_lookup_keeps(2)])
  apply (rule wspec_bind [OF store_fileW_keeps])+
  apply (auto simp: Let_def intro!: wspec_pure wspec_bind [OF store_fileW_keeps])
  done

end

locale db_invariant = file_invariant +
  assumes delete_keeps: "I d \<Longrightarrow> I (delete_file d i)"
    and set_subtasks_keep: "I d \<Longrightarrow> I (d\<lparr>db_subtasks := ss\<rparr>)"
begin

lemma subtasks_keep: "I d \<Longrightarrow> I (update_subtasks S g d)"
  unfolding update_subtasks_def by (rule set_subtasks_keep)

lemma fold_subtasks_keep: "I d \<Longrightarrow> I (fold (\<lambda>(x, y, z). update_subtasks (S x y z) (g x y z)) us d)"
  by (induction us arbitrary: d) (auto intro: subtasks_keep)

lemma task_logs_keep: "I d \<Longrightarrow> I (delete_connected_task_logs d s)"
  unfolding delete_connected_task_logs_def by (auto intro: delete_keeps split: option.splits)

lemma replace_subtask_statuses_keep: "I d \<Longrightarrow> I (replace_subtask_statuses d t a sts)"
proof -
  assume d: "I d"
  have "I e \<Longrightarrow> I (fold (\<lambda>s e. delete_connected_task_logs e s) olds e)" for olds e
    by (induction olds arbitrary: e) (auto intro: task_logs_keep)
  with d show ?thesis
    unfolding replace_subtask_statuses_def Let_def by (simp add: set_subtasks_keep)
qed

lemma record_subtask_ids_keep: "I d \<Longrightarrow> I (record_subtask_ids d a r)"
  unfolding record_subtask_ids_def by (rule set_subtasks_keep)

lemma subtasksW_keeps: "wspec I (modify_dbW (update_subtasks S g)) (\<lambda>_. True)"
  by (rule wspec_modify) (rule subtasks_keep)

lemma deleteW_keeps: "wspec I (modify_dbW (\<lambda>d. delete_file d i)) (\<lambda>_. True)"
  by (rule wspec_modify) (rule delete_keeps)

lemma subtask_tasks_keep:
  "wspec I (record_sub_task_start te i slug tid dt) (\<lambda>_. True)"
  "wspec I (record_sub_task_success te l er i u slug p) (\<lambda>_. True)"
  "wspec I (record_sub_task_failure te tb i u slug p) (\<lambda>_. True)"
  "wspec I (set_subtask_status te i u slug st msg rid) (\<lambda>_. True)"
  "wspec I (mark_task_as_queued i slug tid t) (\<lambda>_. True)"
  "wspec I (subtask_error_log te i u slug tid lf) (\<lambda>_. True)"
  "wspec I (chord_error_callback te i) (\<lambda>_. True)"
  "wspec I (cancel_subtasks_task te i) (\<lambda>_. True)"
  "wspec I (subtask_retry_log te i u slug tid tr) (\<lambda>_. True)"
  "wspec I (update_task_id te us) (\<lambda>_. True)"
proof -
  have effects: "wspec I (\<lambda>w. (w\<lparr>w_effects := g w\<rparr>, Inr ())) (\<lambda>_. True)" for g by (simp add: wspec_def)
  show "wspec I (chord_error_callback te i) (\<lambda>_. True)"
    unfolding chord_error_callback_def Let_def
    by (rule wspec_bind [OF wspec_pure(3)], rule wspec_bind [OF effects], rule subtasksW_keeps)
  show "wspec I (cancel_subtasks_task te i) (\<lambda>_. True)"
    unfolding cancel_subtasks_task_def
    by (rule wspec_bind [OF wspec_get(1)], rule wspec_bind [OF wspec_pure(3)], rule wspec_bind [OF effects], rule subtasksW_keeps)
  show "wspec I (subtask_retry_log te i u slug tid tr) (\<lambda>_. True)"
    unfolding subtask_retry_log_def
    by (rule wspec_bind [OF wspec_pure(3)])
       (auto intro: wspec_pure wspec_bind [OF create_fileW_keeps] subtasksW_keeps split: option.splits)
  show "wspec I (update_task_id te us) (\<lambda>_. True)"
    unfolding update_task_id_def
    by (auto intro!: wspec_pure wspec_bind [OF subtasksW_keeps] wspec_modify fold_subtasks_keep subtasks_keep split: list.splits)
  show "wspec I (record_sub_task_start te i slug tid dt) (\<lambda>_. True)"
    unfolding record_sub_task_start_def by (rule subtasksW_keeps)
  show "wspec I (mark_task_as_queued i slug tid t) (\<lambda>_. True)"
    unfolding mark_task_as_queued_def by (rule subtasksW_keeps)
  show "wspec I (record_sub_task_failure te tb i u slug p) (\<lambda>_. True)"
    "wspec I (set_subtask_status te i u slug st msg rid) (\<lambda>_. True)"
    unfolding record_sub_task_failure_def set_subtask_status_def
    by (rule wspec_bind [OF create_fileW_keeps], rule subtasksW_keeps)+
  show "wspec I (subtask_error_log te i u slug tid lf) (\<lambda>_. True)"
    unfolding subtask_error_log_def
    by (rule wspec_bind [OF wspec_get(2)], rule wspec_bind [OF store_fileW_keeps], rule subtasksW_keeps)
  show "wspec I (record_sub_task_success te l er i u slug p) (\<lambda>_. True)"
    unfolding record_sub_task_success_def
    by (rule wspec_bind [OF wspec_get(2)], (rule wspec_bind [OF opt_store_keeps],
        rule wspec_weaken [OF store_fileW_keeps], simp)+, rule subtasksW_keeps)
qed

end

text \<open>The table of analyses is such an invariant for tasks that only create files.\<close>

interpretation rows: file_invariant "\<lambda>d. db_analyses d = xs \<and> db_next_analysis d = n"
  by unfold_locales (simp add: create_file_def)

section \<open>A queued run has its inputs\<close>

definition queued_has_inputs :: "db \<Rightarrow> bool" where
  "queued_has_inputs d \<longleftrightarrow> distinct (map an_id (db_analyses d)) \<and>
     (\<forall>a \<in> set (db_analyses d). an_id a < db_next_analysis d) \<and>
     (\<forall>a \<in> set (db_analyses d). an_status a = RUN_QUEUED \<longrightarrow> an_input_file a \<noteq> None)"

lemma analysis_set_null_input [simp]: "an_input_file (analysis_set_null i a) = an_input_file a"
  by (simp add: analysis_set_null_def)

lemma map_id_set_null: "map an_id (map (analysis_set_null i) xs) = map an_id xs"
  by simp

interpretation qi: db_invariant queued_has_inputs
proof unfold_locales
  fix d f i ss
  assume d: "queued_has_inputs d"
  then show "queued_has_inputs (fst (create_file d f))"
    by (simp add: queued_has_inputs_def create_file_def)
  show "queued_has_inputs (d\<lparr>db_subtasks := ss\<rparr>)"
    using d by (simp add: queued_has_inputs_def)
  show "queued_has_inputs (delete_file d i)"
    using d by (auto simp: queued_has_inputs_def delete_file_def Let_def comp_def distinct_map_filter)
qed

lemma queued_intro:
  assumes "queued_has_inputs d" "map an_id (db_analyses d') = map an_id (db_analyses d)"
    "db_next_analysis d' = db_next_analysis d"
    "\<And>a. a \<in> set (db_analyses d') \<Longrightarrow> an_status a = RUN_QUEUED \<Longrightarrow> an_input_file a \<noteq> None"
  shows "queued_has_inputs d'"
proof -
  have "an_id a < db_next_analysis d'" if "a \<in> set (db_analyses d')" for a
  proof -
    have "an_id a \<in> set (map an_id (db_analyses d))" unfolding assms(2) [symmetric] using that by simp
    then show ?thesis using assms(1) by (auto simp: queued_has_inputs_def assms(3))
  qed
  then show ?thesis using assms by (simp add: queued_has_inputs_def)
qed

lemma save_keeps_queued:
  assumes d: "queued_has_inputs d" and a: "an_status a = RUN_QUEUED \<Longrightarrow> an_input_file a \<noteq> None"
  shows "queued_has_inputs (save_analysis d a)"
proof (rule queued_intro [OF d])
  show "map an_id (db_analyses (save_analysis d a)) = map an_id (db_analyses d)" by (simp add: frame_simps)
qed (use d a in \<open>auto simp: save_analysis_def queued_has_inputs_def\<close>)

lemma save_fields_keeps_queued:
  assumes d: "queued_has_inputs d" and id: "\<And>r. an_id (f r) = an_id r"
    and f: "\<And>r. r \<in> set (db_analyses d) \<Longrightarrow> an_id r = i \<Longrightarrow> an_status (f r) = RUN_QUEUED \<Longrightarrow> an_input_file (f r) \<noteq> None"
  shows "queued_has_inputs (save_analysis_fields d i f)"
proof (rule queued_intro [OF d])
  show "map an_id (db_analyses (save_analysis_fields d i f)) = map an_id (db_analyses d)"
    by (simp add: save_analysis_fields_def id)
qed (use d f in \<open>auto simp: save_analysis_fields_def queued_has_inputs_def\<close>)

lemma save_analysisW_keeps:
  "(an_status a = RUN_QUEUED \<Longrightarrow> an_input_file a \<noteq> None) \<Longrightarrow> wspec queued_has_inputs (save_analysisW a) (\<lambda>_. True)"
  unfolding save_analysisW_def by (rule wspec_modify) (rule save_keeps_queued)

lemma record_input_files_keeps: "wspec queued_has_inputs (record_input_files te res i u slug rid fin) (\<lambda>_. True)"
  unfolding record_input_files_def emit_sub_task_start_def
  apply (rule wspec_bind [OF wspec_pure(4)])
  apply (rule wspec_bind [OF wspec_get(1)])
  apply (rule wspec_bind [OF wspec_get(2)])
  apply (rule wspec_bind [OF qi.attach_input_files_keeps])
  apply (rule wspec_bind [OF wspec_pure(3)])
  apply (rule wspec_bind [OF qi.create_fileW_keeps])
  apply (rule save_analysisW_keeps)
  apply simp
  done

lemma record_losses_files_keeps: "wspec queued_has_inputs (record_losses_files te logs out i u slug rid) (\<lambda>_. True)"
  unfolding record_losses_files_def emit_sub_task_start_def
  apply (rule wspec_bind [OF wspec_pure(4)])
  apply (rule wspec_bind [OF wspec_get(2)])
  apply (rule wspec_bind [OF wspec_get(1)])
  apply (rule wspec_bind [OF wspec_pure(3)])
  apply (rule wspec_bind [OF qi.create_fileW_keeps])
  apply (rule wspec_bind [OF qi.opt_store_keeps [OF qi.store_archiveW_keeps]])
  apply (rule wspec_bind [OF wspec_key])
  apply (rule wspec_bind [OF qi.store_archiveW_keeps])
  apply (rule save_analysisW_keeps)
  apply simp
  done

lemma record_losses_error_files_keeps: "wspec queued_has_inputs (record_losses_error_files te i u out logs) (\<lambda>_. True)"
  unfolding record_losses_error_files_def
  apply (rule wspec_bind [OF wspec_get(1)])
  apply (rule wspec_bind [OF wspec_get(2)])
  apply (rule wspec_bind [OF qi.opt_store_keeps [OF qi.store_archiveW_keeps]])+
  apply (rule wspec_modify)
  apply (rule save_fields_keeps_queued)
  apply (auto simp: queued_has_inputs_def)
  done

lemma set_task_status_keeps:
  assumes "st \<noteq> RUN_QUEUED"
  shows "wspec queued_has_inputs (set_task_status i st t) (\<lambda>_. True)"
  unfolding set_task_status_def
  apply (rule wspec_try)
  apply (rule wspec_bind [OF wspec_get(1)])
  apply (rule wspec_when)
  apply (rule wspec_modify)
  apply (rule save_fields_keeps_queued)
  apply (use assms in auto)
  done

lemma record_failure_keeps:
  assumes "st \<noteq> RUN_QUEUED"
  shows "wspec queued_has_inputs (record_failure te tb i u fld st a failed) (\<lambda>_. True)"
proof -
  define b where "b = (if an_status a \<notin> set [INPUTS_GENERATION_CANCELLED, RUN_CANCELLED, INPUTS_GENERATION_NO_KEYS]
    then a\<lparr>an_status := st\<rparr> else a)\<lparr>an_task_finished := Some (te_now te)\<rparr>"
  have b: "an_status b \<noteq> RUN_QUEUED" using assms by (auto simp: b_def)
  have drop: "wspec queued_has_inputs (case v of None \<Rightarrow> returnW () | Some f \<Rightarrow> modify_dbW (\<lambda>d. delete_file d f)) (\<lambda>_. True)" for v
    by (cases v) (auto intro: wspec_pure qi.deleteW_keeps)
  show ?thesis
    unfolding record_failure_def b_def [symmetric] Let_def
    apply (rule wspec_bind [OF wspec_get(2)])
    apply (rule wspec_bind [OF wspec_pure(3)])
    apply (rule wspec_bind [OF qi.create_fileW_keeps])
    apply (cases "fld = run_traceback_file")
    using b by (auto intro!: wspec_bind [OF drop] save_analysisW_keeps)
qed

lemma handle_task_failure_keeps:
  assumes "st \<noteq> RUN_QUEUED"
  shows "wspec queued_has_inputs (handle_task_failure te n tb i u uuid fld st) (\<lambda>_. True)"
  unfolding handle_task_failure_def Let_def
  apply (rule wspec_bind [OF wspec_get(1)])
  apply (rule wspec_bind [OF wspec_pure(3)])
  apply (simp split: if_splits, intro conjI impI wspec_pure(1) TrueI)
   apply (rule wspec_bind [OF wspec_try [OF record_failure_keeps [OF assms]]])
   apply (rule wspec_bind [OF wspec_when [OF wspec_pure(4)]])
   apply (simp add: wspec_pure)
  done

lemma record_input_error_files_keeps:
  "wspec queued_has_inputs (record_input_error_files te i u out err) (\<lambda>_. True)"
proof -
  have "queued_has_inputs (w_db (fst (record_input_error_files te i u out err w)))" if I: "queued_has_inputs (w_db w)" for w
  proof (cases "get_analysis (w_db w) i")
    case None
    with I show ?thesis by (simp add: record_input_error_files_def get_analysisW_def)
  next
    case (Some a)
    let ?J = "\<lambda>d. db_analyses d = db_analyses (w_db w) \<and> db_next_analysis d = db_next_analysis (w_db w)"
    let ?m1 = "opt_store out (\<lambda>r. store_archiveW te r u (analysis_name i ''_inputs'')) (an_input_file a)"
    let ?m2 = "opt_store err (\<lambda>r. store_lookup_errors_file te r u i) (an_lookup_errors_file a)"
    have J: "queued_has_inputs d" if "?J d" for d
      using that I by (simp add: queued_has_inputs_def)
    have s1: "wspec ?J ?m1 (\<lambda>v. v = an_input_file a \<or> v \<noteq> None)"
      by (rule rows.opt_store_keeps [OF rows.store_archiveW_keeps])
    have s2: "wspec ?J ?m2 (\<lambda>v. v = an_lookup_errors_file a \<or> v \<noteq> None)"
      by (rule rows.opt_store_keeps [OF rows.store_lookup_keeps(1)])
    have upd: "queued_has_inputs (save_analysis_fields d i (\<lambda>row. row\<lparr>an_input_file := v, an_lookup_errors_file := v'\<rparr>))"
      if d: "?J d" and v: "v = an_input_file a \<or> v \<noteq> None" for d v v'
    proof (rule save_fields_keeps_queued)
      fix r assume "r \<in> set (db_analyses d)" "an_id r = i" "an_status (r\<lparr>an_input_file := v, an_lookup_errors_file := v'\<rparr>) = RUN_QUEUED"
      moreover have "a \<in> set (db_analyses d)" "an_id a = i"
        using get_analysis_mem [OF Some] get_analysis_id [OF Some] d by auto
      ultimately have "r = a" using J [OF d] by (auto simp: queued_has_inputs_def distinct_map inj_on_def)
      with \<open>r \<in> set (db_analyses d)\<close> J [OF d] v \<open>an_status _ = RUN_QUEUED\<close>
      show "an_input_file (r\<lparr>an_input_file := v, an_lookup_errors_file := v'\<rparr>) \<noteq> None"
        by (auto simp: queued_has_inputs_def)
    qed (simp_all add: J [OF d])
    show ?thesis
    proof (cases "te_users te u")
      case True
      have eq: "record_input_error_files te i u out err w = bindW ?m1 (\<lambda>f1. bindW ?m2 (\<lambda>f2.
          modify_dbW (\<lambda>d. save_analysis_fields d i (\<lambda>row. row\<lparr>an_input_file := f1, an_lookup_errors_file := f2\<rparr>)))) w"
        using Some True by (simp add: record_input_error_files_def get_analysisW_def get_userW_def)
      obtain w1 r1 where m1: "?m1 w = (w1, r1)" by fastforce
      with s1 have J1: "?J (w_db w1)" "\<forall>x. r1 = Inr x \<longrightarrow> x = an_input_file a \<or> x \<noteq> None"
        unfolding wspec_def by blast+
      show ?thesis
      proof (cases r1)
        case (Inl ex)
        with m1 eq J [OF J1(1)] show ?thesis by simp
      next
        case (Inr f1)
        obtain w2 r2 where m2: "?m2 w1 = (w2, r2)" by fastforce
        with s2 J1(1) have J2: "?J (w_db w2)" unfolding wspec_def by blast
        with m1 m2 eq Inr J1(2) J [OF J2] upd [OF J2] show ?thesis by (cases r2) auto
      qed
    qed (use Some I in \<open>simp add: record_input_error_files_def get_analysisW_def get_userW_def\<close>)
  qed
  then show ?thesis unfolding wspec_def by (metis fst_conv)
qed

lemma chunks_save_keeps:
  assumes "queued_has_inputs d" "\<And>r. an_id (f r) = an_id r \<and> an_status (f r) = an_status r \<and> an_input_file (f r) = an_input_file r"
  shows "queued_has_inputs (save_analysis_fields d i f)"
  using assms by (intro save_fields_keeps_queued) (auto simp: queued_has_inputs_def)

lemma controller_keeps:
  assumes "queued_has_inputs d"
  shows "controller_generate_inputs cel sg d t uu a u lines = Inr (d', r) \<Longrightarrow> queued_has_inputs d'"
    "controller_generate_losses cel sg d t uu a u events = Inr (d', r) \<Longrightarrow> queued_has_inputs d'"
    "generate_input_and_losses cel sg d t uu uv a u lines events = Inr (d', r) \<Longrightarrow> queued_has_inputs d'"
  using assms
  by (auto simp: controller_generate_inputs_def controller_generate_losses_def generate_input_and_losses_def
      start_stage_def Let_def exn_simps
      intro!: chunks_save_keeps qi.record_subtask_ids_keep qi.replace_subtask_statuses_keep)

lemma dispatchW_keeps:
  "(\<And>d d' r. queued_has_inputs d \<Longrightarrow> f d = Inr (d', r) \<Longrightarrow> queued_has_inputs d') \<Longrightarrow>
   wspec queued_has_inputs (dispatchW f) (\<lambda>_. True)"
  by (auto simp: wspec_def dispatchW_def stepW_def exn_simps split: sum.splits) 

lemma start_tasks_keep:
  "wspec queued_has_inputs (start_input_generation_task cel te i u lines) (\<lambda>_. True)"
  "wspec queued_has_inputs (start_loss_generation_task cel te i u events) (\<lambda>_. True)"
  "wspec queued_has_inputs (start_input_and_loss_generation_task cel te uuid i u lines events) (\<lambda>_. True)"
  unfolding start_input_generation_task_def start_loss_generation_task_def start_input_and_loss_generation_task_def
  by (rule wspec_bind [OF wspec_get(1)], rule wspec_bind [OF wspec_get(2)], rule dispatchW_keeps,
      erule (1) controller_keeps)+

section \<open>Steps\<close>

text \<open>
  One request (to run, generate inputs, do both, cancel, copy or delete) or one message of a worker
  or of the task monitor. The statuses a worker reports are the ones \<open>notify_api_status_v2\<close> is
  called with; a stage fails with one of the two error statuses.
\<close>

inductive v2_step :: "db \<Rightarrow> db \<Rightarrow> bool" where
  request_run: "get_analysis d i = Some a \<Longrightarrow> v2_step d (fst (run e d a u ov))"
| request_generate: "get_analysis d i = Some a \<Longrightarrow> v2_step d (fst (generate_inputs e d a u ov))"
| request_generate_and_run: "get_analysis d i = Some a \<Longrightarrow> v2_step d (fst (generate_and_run e d a u))"
| request_cancel: "get_analysis d i = Some a \<Longrightarrow> v2_step d (fst (cancel_any e d a))"
| request_copy: "get_analysis d i = Some a \<Longrightarrow> copy e d a = (d', c) \<Longrightarrow> v2_step d (insert_analysis d' c)"
| request_delete: "get_analysis d i = Some a \<Longrightarrow> v2_step d (delete_analysis d a)"
| worker_status: "st \<in> {INPUTS_GENERATION_STARTED, INPUTS_GENERATION_NO_KEYS, RUN_STARTED, INPUTS_GENERATION_ERROR, RUN_ERROR} \<Longrightarrow>
    v2_step (w_db w) (w_db (fst (set_task_status i st t w)))"
| worker_inputs: "v2_step (w_db w) (w_db (fst (record_input_files te res i u slug rid fin w)))"
| worker_input_errors: "v2_step (w_db w) (w_db (fst (record_input_error_files te i u out err w)))"
| worker_losses: "v2_step (w_db w) (w_db (fst (record_losses_files te logs out i u slug rid w)))"
| worker_loss_errors: "v2_step (w_db w) (w_db (fst (record_losses_error_files te i u out logs w)))"
| stage_failed: "st \<in> {INPUTS_GENERATION_ERROR, RUN_ERROR} \<Longrightarrow>
    v2_step (w_db w) (w_db (fst (handle_task_failure te n tb i u uuid fld st w)))"
| subtask_start: "v2_step (w_db w) (w_db (fst (record_sub_task_start te i slug tid dt w)))"
| subtask_success: "v2_step (w_db w) (w_db (fst (record_sub_task_success te l er i u slug p w)))"
| subtask_failure: "v2_step (w_db w) (w_db (fst (record_sub_task_failure te tb i u slug p w)))"
| subtask_status: "v2_step (w_db w) (w_db (fst (set_subtask_status te i u slug tst msg rid w)))"
| subtask_queued: "v2_step (w_db w) (w_db (fst (mark_task_as_queued i slug tid t w)))"
| subtask_log: "v2_step (w_db w) (w_db (fst (subtask_error_log te i u slug tid lf w)))"
| subtask_retry: "v2_step (w_db w) (w_db (fst (subtask_retry_log te i u slug tid tr w)))"
| subtask_ids: "v2_step (w_db w) (w_db (fst (update_task_id te us w)))"
| subtasks_cancelled: "v2_step (w_db w) (w_db (fst (cancel_subtasks_task te i w)))"
| chord_failed: "v2_step (w_db w) (w_db (fst (chord_error_callback te i w)))"
| start_inputs: "v2_step (w_db w) (w_db (fst (start_input_generation_task cel te i u lines w)))"
| start_losses: "v2_step (w_db w) (w_db (fst (start_loss_generation_task cel te i u events w)))"
| start_both: "v2_step (w_db w) (w_db (fst (start_input_and_loss_generation_task cel te uuid i u lines events w)))"

inductive v2_reach :: "db \<Rightarrow> db \<Rightarrow> bool" for d0 where
  start: "v2_reach d0 d0"
| step: "v2_reach d0 d \<Longrightarrow> v2_step d d' \<Longrightarrow> v2_reach d0 d'"

inductive_cases v2_stepE: "v2_step d d'"

lemma run_keeps: "queued_has_inputs d \<Longrightarrow> queued_has_inputs (fst (run e d a u ov))"
proof -
  assume d: "queued_has_inputs d"
  obtain d' r where run: "run e d a u ov = (d', r)" by fastforce
  show ?thesis
  proof (cases r)
    case (Inl ex)
    have "d' = d \<or> an_input_file a \<noteq> None \<and> (\<exists>b. d' = save_analysis d b \<and> an_input_file b = an_input_file a)"
    proof (cases "run_checks d a ov")
      case (Inl ex')
      with run show ?thesis by (simp add: run_def)
    next
      case (Inr p)
      obtain rm ev where p: "p = (rm, ev)" by fastforce
      let ?a1 = "reset_loss_progress (a\<lparr>an_status := RUN_QUEUED\<rparr>)"
      have "d' = save_analysis d ?a1"
        using run \<open>r = Inl ex\<close> Inr p
        by (cases "run_dispatch e (save_analysis d ?a1) ?a1 u rm ev")
           (auto simp: run_def Let_def record_dispatch_def split: prod.splits)
      moreover have "an_input_file ?a1 = an_input_file a" by (simp add: reset_loss_progress_def)
      ultimately show ?thesis using run_checks_ok Inr p by blast
    qed
    with d run show ?thesis by (auto intro: save_keeps_queued)
  next
    case (Inr q)
    obtain a' effs where q: "q = (a', effs)" by fastforce
    obtain rm ev where c: "run_checks d a ov = Inr (rm, ev)" and d': "d' = save_analysis d a'"
      and f: "\<forall>f. get_field f a' = get_field f a"
      using run_ok run Inr q by blast
    have "an_input_file a' \<noteq> None" using run_checks_ok [OF c] f [rule_format, of input_file] by simp
    with d run d' show ?thesis by (auto intro: save_keeps_queued)
  qed
qed

text \<open>The other requests save a status that is not \<open>RUN_QUEUED\<close>, or nothing.\<close>

lemma generate_inputs_keeps: "queued_has_inputs d \<Longrightarrow> queued_has_inputs (fst (generate_inputs e d a u ov))"
proof -
  assume d: "queued_has_inputs d"
  have "\<exists>b. an_status b = INPUTS_GENERATION_QUEUED \<and> fst (generate_inputs e d a u ov) \<in> {d, save_analysis d b}"
  proof (cases "generate_inputs_checks d a ov")
    case (Inr p)
    obtain rm ll where p: "p = (rm, ll)" by fastforce
    let ?a1 = "reset_input_generation a"
    show ?thesis
    proof (cases "generate_inputs_dispatch e (save_analysis d ?a1) ?a1 u rm ll")
      case (Inl ex)
      with Inr p show ?thesis
        by (intro exI [of _ ?a1]) (simp add: generate_inputs_def Let_def)
    next
      case (Inr q)
      with \<open>generate_inputs_checks d a ov = Inr p\<close> p obtain a' effs
        where "generate_inputs e d a u ov = (fst (generate_inputs e d a u ov), Inr (a', effs))"
        by (cases q) (auto simp: generate_inputs_def Let_def record_dispatch_def)
      from generate_inputs_ok [OF this] show ?thesis by blast
    qed
  qed (auto simp: generate_inputs_def intro!: exI [of _ "reset_input_generation a"])
  with d show ?thesis by (auto intro!: save_keeps_queued)
qed

lemma generate_and_run_keeps: "queued_has_inputs d \<Longrightarrow> queued_has_inputs (fst (generate_and_run e d a u))"
proof (cases "generate_and_run_checks d a")
  case (Inr p)
  assume d: "queued_has_inputs d"
  obtain a' effs where "generate_and_run e d a u = (fst (generate_and_run e d a u), Inr (a', effs))"
    using Inr by (cases p) (auto simp: generate_and_run_def Let_def dispatch_v2_def record_dispatch_def)
  from generate_and_run_ok [OF this] obtain
    "fst (generate_and_run e d a u) = save_analysis d a'" "an_status a' = INPUTS_GENERATION_QUEUED" by blast
  with d show ?thesis by (auto intro: save_keeps_queued)
qed (simp add: generate_and_run_def)

lemma cancel_any_keeps: "queued_has_inputs d \<Longrightarrow> queued_has_inputs (fst (cancel_any e d a))"
  by (cases "an_status a")
     (auto simp: cancel_any_def cancel_generate_inputs_def cancel_analysis_def Let_def intro!: save_keeps_queued)

lemma copy_keeps: "queued_has_inputs d \<Longrightarrow> copy e d a = (d', c) \<Longrightarrow> queued_has_inputs (insert_analysis d' c)"
proof -
  assume d: "queued_has_inputs d" and c: "copy e d a = (d', c)"
  have "db_analyses d' = db_analyses d" "db_next_analysis d' = db_next_analysis d"
    using c by (auto simp: copy_def copy_file_def create_file_def Let_def split: option.splits)
  moreover have "an_id c = db_next_analysis d" "an_status c = NEW" using c by (auto simp: copy_def split: prod.splits)
  ultimately show ?thesis using d by (auto simp: queued_has_inputs_def insert_analysis_def less_Suc_eq)
qed

lemma delete_analysis_keeps: "queued_has_inputs d \<Longrightarrow> queued_has_inputs (delete_analysis d a)"
proof -
  assume d: "queued_has_inputs d"
  have *: "queued_has_inputs e \<Longrightarrow> queued_has_inputs (fold (\<lambda>i e. delete_file e i) is e)" for "is" e
    by (induction "is" arbitrary: e) (auto intro: qi.delete_keeps)
  show ?thesis
    unfolding delete_analysis_fold
    by (rule *) (use d in \<open>auto simp: queued_has_inputs_def distinct_map_filter\<close>)
qed

lemma v2_step_keeps: "v2_step d d' \<Longrightarrow> queued_has_inputs d \<Longrightarrow> queued_has_inputs d'"
proof (induction rule: v2_step.induct)
  case (worker_status st w i t)
  then show ?case by (intro wspec_apply [OF set_task_status_keeps]) auto
next
  case (stage_failed st w te n tb i u uuid fld)
  then show ?case by (intro wspec_apply [OF handle_task_failure_keeps]) auto
qed (auto intro: run_keeps generate_inputs_keeps generate_and_run_keeps cancel_any_keeps copy_keeps
    delete_analysis_keeps wspec_apply [OF record_input_files_keeps] wspec_apply [OF record_input_error_files_keeps]
    wspec_apply [OF record_losses_files_keeps] wspec_apply [OF record_losses_error_files_keeps]
    qi.subtask_tasks_keep [THEN wspec_apply] start_tasks_keep [THEN wspec_apply])

lemma v2_reach_keeps: "v2_reach d0 d \<Longrightarrow> queued_has_inputs d0 \<Longrightarrow> queued_has_inputs d"
  by (induction rule: v2_reach.induct) (auto intro: v2_step_keeps)

section \<open>Properties\<close>

definition demo_te :: task_env where
  "demo_te = \<lparr>te_storage = le_storage demo_env, te_now = 200, te_uuid = ''abc'', te_users = (\<lambda>_. True),
     te_read = (\<lambda>c. case c of Opaque s \<Rightarrow> s | _ \<Rightarrow> []), te_keep_local_data = False, te_run_data_dir = ''/data''\<rparr>"

text \<open>
  C4: In every database reachable by requests (run, generate inputs, both, cancel, copy, delete) and
  messages of workers and monitor in any order, also delayed or repeated ones, an analysis whose run is queued has an input file.
\<close>

theorem queued_run_has_inputs:
  assumes "v2_reach d0 d" "queued_has_inputs d0" "a \<in> set (db_analyses d)" "an_status a = RUN_QUEUED"
  shows "an_input_file a \<noteq> None"
  using v2_reach_keeps [OF assms(1, 2)] assms(3, 4) by (simp add: queued_has_inputs_def)

theorem queued_run_has_inputs_witness:
  "\<exists>a \<in> set (db_analyses (fst (run demo_env lc_db demo_analysis 1 None))). an_status a = RUN_QUEUED \<and> an_input_file a \<noteq> None"
proof -
  have q: "queued_has_inputs lc_db" by (simp add: queued_has_inputs_def lc_db_def demo_db_def demo_analysis_def)
  have g: "get_analysis lc_db 1 = Some demo_analysis" by (simp add: get_analysis_def lc_db_def demo_db_def demo_analysis_def)
  have r: "v2_reach lc_db (fst (run demo_env lc_db demo_analysis 1 None))"
    by (rule v2_reach.step [OF v2_reach.start request_run [OF g]])
  have "list_ex (\<lambda>a. an_status a = RUN_QUEUED) (db_analyses (fst (run demo_env lc_db demo_analysis 1 None)))" by code_simp
  then obtain a where "a \<in> set (db_analyses (fst (run demo_env lc_db demo_analysis 1 None)))" "an_status a = RUN_QUEUED"
    by (auto simp: list_ex_iff)
  with queued_run_has_inputs [OF r q] show ?thesis by blast
qed

text \<open>
  A cancelled analysis ignores late status messages of distributed workers: the database does
  not change. The single-instance task has no such guard and overwrites the cancelled status.
\<close>

theorem cancelled_ignores_status_messages:
  assumes "get_analysis (w_db w) i = Some a" "an_status a \<in> {INPUTS_GENERATION_CANCELLED, RUN_CANCELLED}"
  shows "w_db (fst (set_task_status i st t w)) = w_db w \<and>
    (\<exists>b. get_analysis (w_db (fst (set_task_status_v1 te i st w))) i = Some b \<and> an_status b = st)"
proof -
  have "get_analysis (save_analysis_fields (w_db w) i (\<lambda>row. row\<lparr>an_status := st, an_task_started := Some (te_now te)\<rparr>)) i =
      Some (a\<lparr>an_status := st, an_task_started := Some (te_now te)\<rparr>)"
    using assms(1) by (subst get_save_analysis_fields) auto
  then show ?thesis
    using assms by (auto simp: set_task_status_def set_task_status_v1_def tryW_def whenW_def get_analysisW_def)
qed

theorem cancelled_ignores_status_messages_witness:
  "w_db (fst (set_task_status 1 RUN_STARTED 5
      \<lparr>w_db = lc_db\<lparr>db_analyses := [demo_analysis\<lparr>an_status := RUN_CANCELLED\<rparr>]\<rparr>, w_effects = []\<rparr>)) =
    lc_db\<lparr>db_analyses := [demo_analysis\<lparr>an_status := RUN_CANCELLED\<rparr>]\<rparr> \<and>
   (\<exists>b. get_analysis (w_db (fst (set_task_status_v1 demo_te 1 RUN_STARTED
      \<lparr>w_db = lc_db\<lparr>db_analyses := [demo_analysis\<lparr>an_status := RUN_CANCELLED\<rparr>]\<rparr>, w_effects = []\<rparr>))) 1 = Some b \<and>
      an_status b = RUN_STARTED)"
  using cancelled_ignores_status_messages
    [of "\<lparr>w_db = lc_db\<lparr>db_analyses := [demo_analysis\<lparr>an_status := RUN_CANCELLED\<rparr>]\<rparr>, w_effects = []\<rparr>" 1
      "demo_analysis\<lparr>an_status := RUN_CANCELLED\<rparr>" RUN_STARTED 5 demo_te]
  by (simp add: get_analysis_def demo_analysis_def)

text \<open>The row and the combined log after a failure is recorded, for either stage.\<close>

definition old_log_disposable :: "db \<Rightarrow> analysis \<Rightarrow> bool" where
  "old_log_disposable d a \<longleftrightarrow>
     (case an_run_log_file a of None \<Rightarrow> True | Some f \<Rightarrow> get_file d f \<noteq> None \<and> file_unreferenced d f)"

lemma get_file_dropped:
  "get_file (d\<lparr>db_files := filter (\<lambda>f. rf_id f \<noteq> j) (db_files d)\<rparr>) k = (if k = j then None else get_file d k)"
proof -
  have "find (\<lambda>f. rf_id f = k) (filter (\<lambda>f. rf_id f \<noteq> j) xs) = (if k = j then None else find (\<lambda>f. rf_id f = k) xs)" for xs
    by (induction xs) auto
  from this [of "db_files d"] show ?thesis by (auto simp: get_file_def)
qed

lemma get_file_cong: "db_files d = db_files d' \<Longrightarrow> get_file d k = get_file d' k"
  by (simp add: get_file_def)

lemma get_file_bound: "db_ok d \<Longrightarrow> get_file d f \<noteq> None \<Longrightarrow> f < db_next_file d"
  by (auto simp: db_ok_def get_file_def find_Some_iff)

lemma new_file_fresh: "db_ok d \<Longrightarrow> get_file d (snd (create_file d tf)) = None"
  using get_file_bound [of d "db_next_file d"] by (cases "get_file d (db_next_file d)") (auto simp: create_file_def)

lemma delete_old_log:
  assumes ok: "db_ok d" and f: "get_file d f \<noteq> None" "file_unreferenced d f"
  shows "get_file (delete_file (fst (create_file d tf)) f) (snd (create_file d tf)) = Some (tf\<lparr>rf_id := db_next_file d\<rparr>)"
    "get_file (delete_file (fst (create_file d tf)) f) f = None"
    "get_analysis (delete_file (fst (create_file d tf)) f) i = map_option (analysis_set_null f) (get_analysis d i)"
proof -
  let ?d1 = "fst (create_file d tf)"
  have un: "file_unreferenced ?d1 f" using f(2) by (simp add: file_unreferenced_def frame_simps)
  have files: "get_file (delete_file ?d1 f) k = (if k = f then None else get_file ?d1 k)" for k
    using get_file_dropped [where d = ?d1 and j = f and k = k] get_file_cong [of "delete_file ?d1 f" "?d1\<lparr>db_files := filter (\<lambda>g. rf_id g \<noteq> f) (db_files ?d1)\<rparr>" k]
    by (simp add: delete_unreferenced [OF un])
  have "snd (create_file d tf) \<noteq> f" using get_file_bound [OF ok f(1)] by (simp add: create_file_def)
  then show "get_file (delete_file ?d1 f) (snd (create_file d tf)) = Some (tf\<lparr>rf_id := db_next_file d\<rparr>)"
    "get_file (delete_file ?d1 f) f = None" using get_create_file [OF ok, of tf] by (simp_all add: files)
  show "get_analysis (delete_file ?d1 f) i = map_option (analysis_set_null f) (get_analysis d i)"
    using find_map_key [of an_id "analysis_set_null f" i] by (simp add: delete_unreferenced [OF un] get_analysis_def frame_simps)
qed

lemma record_failure_row:
  assumes ok: "db_ok (w_db w)" and a: "get_analysis (w_db w) i = Some a" and u: "te_users te u"
    and old: "fld = run_traceback_file \<Longrightarrow> old_log_disposable (w_db w) a"
  shows "\<exists>b k g. get_analysis (w_db (fst (record_failure te tb i u fld st a failed w))) i = Some b \<and>
    get_field fld b = Some k \<and> get_file (w_db w) k = None \<and>
    get_file (w_db (fst (record_failure te tb i u fld st a failed w))) k = Some g \<and>
    rf_content g = Opaque (failure_text te (w_db w) tb failed) \<and> rf_creator g = Some u \<and>
    an_status b = (if an_status a \<in> {INPUTS_GENERATION_CANCELLED, RUN_CANCELLED, INPUTS_GENERATION_NO_KEYS}
                   then an_status a else st) \<and>
    (fld = run_traceback_file \<longrightarrow> an_run_log_file b = Some k \<and>
       (\<forall>f. an_run_log_file a = Some f \<longrightarrow>
          get_file (w_db (fst (record_failure te tb i u fld st a failed w))) f = None))"
proof -
  let ?d = "w_db w" and ?w' = "fst (record_failure te tb i u fld st a failed w)"
  define b where "b = (if an_status a \<notin> set [INPUTS_GENERATION_CANCELLED, RUN_CANCELLED, INPUTS_GENERATION_NO_KEYS]
    then a\<lparr>an_status := st\<rparr> else a)\<lparr>an_task_finished := Some (te_now te)\<rparr>"
  define tf where "tf = text_file te (analysis_name i ''_worker_traceback.txt'') u (failure_text te ?d tb failed)"
  define k where "k = snd (create_file ?d tf)"
  define c where "c = set_field fld (Some k) b"
  have id: "an_id c = i" using get_analysis_id [OF a] by (simp add: c_def b_def)
  have stc: "an_status c = (if an_status a \<in> {INPUTS_GENERATION_CANCELLED, RUN_CANCELLED, INPUTS_GENERATION_NO_KEYS}
      then an_status a else st)" by (simp add: c_def b_def)
  have fc: "get_field fld c = Some k" by (simp add: c_def)
  have fresh: "get_file ?d k = None" using new_file_fresh [OF ok] by (simp add: k_def)
  have new: "get_file (fst (create_file ?d tf)) k = Some (tf\<lparr>rf_id := db_next_file ?d\<rparr>)"
    unfolding k_def by (rule get_create_file [OF ok])
  have txt_row: "rf_content (tf\<lparr>rf_id := n\<rparr>) = Opaque (failure_text te ?d tb failed)" "rf_creator (tf\<lparr>rf_id := n\<rparr>) = Some u" for n
    by (simp_all add: tf_def text_file_def)
  have saved: "get_file (save_analysis e x) j = get_file e j" for e x j
    by (rule get_file_cong) (simp add: frame_simps)
  show ?thesis
  proof (cases "fld = run_traceback_file")
    case False
    have "w_db ?w' = save_analysis (fst (create_file ?d tf)) c"
      using u False by (simp add: record_failure_def Let_def get_userW_def create_fileW_def stepW_def split_beta
          save_analysisW_def c_def b_def tf_def k_def)
    then show ?thesis
      using False a id stc fc fresh new txt_row by (simp add: get_save_analysis saved)
  next
    case True
    have log: "an_run_log_file c = an_run_log_file a" by (simp add: c_def b_def True)
    have run: "w_db ?w' = save_analysis (case an_run_log_file a of None \<Rightarrow> fst (create_file ?d tf)
        | Some f \<Rightarrow> delete_file (fst (create_file ?d tf)) f) (c\<lparr>an_run_log_file := Some k\<rparr>)"
      using u True log by (cases "an_run_log_file a")
        (simp_all add: record_failure_def Let_def get_userW_def create_fileW_def stepW_def split_beta
          save_analysisW_def c_def b_def tf_def k_def)
    have fc': "get_field fld (c\<lparr>an_run_log_file := Some k\<rparr>) = Some k" using fc True by simp
    show ?thesis
    proof (cases "an_run_log_file a")
      case None
      then show ?thesis using run True a id stc fc' fresh new txt_row by (simp add: get_save_analysis saved)
    next
      case (Some f)
      then have "get_file ?d f \<noteq> None" "file_unreferenced ?d f" using old [OF True] by (simp_all add: old_log_disposable_def)
      from delete_old_log [OF ok this, of tf] show ?thesis
        using run True Some a id stc fc' fresh txt_row by (simp add: get_save_analysis saved k_def)
    qed
  qed
qed

text \<open>
  C9: The failure handler waits for the logs of the failed sub-tasks by putting itself back, at most
  eight times and without touching anything. Otherwise it records the failure: the analysis gets the
  failure status unless it was cancelled or had no keys, and the traceback field of the stage that
  failed points to a new file that holds the traceback with the output and error logs of the failed
  sub-tasks. When that stage is the run, the file also becomes the log of the run and the log of an
  earlier run is deleted, provided that no row but this log field depends on it.
\<close>

theorem failure_handling:
  assumes "db_ok (w_db w)" "get_analysis (w_db w) i = Some a" "te_users te u"
    and "fld = run_traceback_file \<Longrightarrow> old_log_disposable (w_db w) a"
    and "handle_task_failure te n tb i u uuid fld st w = (w', r)"
  shows "(r = Inr Retried \<longleftrightarrow> logs_pending (w_db w) (failed_subtasks (w_db w) i) \<and> n < 8) \<and>
    (r = Inr Retried \<longrightarrow> w' = w) \<and>
    (r \<noteq> Inr Retried \<longrightarrow> r = Inr Handled \<and> (\<exists>b k g. get_analysis (w_db w') i = Some b \<and>
       get_field fld b = Some k \<and> get_file (w_db w) k = None \<and> get_file (w_db w') k = Some g \<and>
       rf_content g = Opaque (failure_text te (w_db w) tb (failed_subtasks (w_db w) i)) \<and> rf_creator g = Some u \<and>
       an_status b = (if an_status a \<in> {INPUTS_GENERATION_CANCELLED, RUN_CANCELLED, INPUTS_GENERATION_NO_KEYS}
                      then an_status a else st) \<and>
       (fld = run_traceback_file \<longrightarrow> an_run_log_file b = Some k \<and>
          (\<forall>f. an_run_log_file a = Some f \<longrightarrow> get_file (w_db w') f = None))))"
proof (cases "logs_pending (w_db w) (failed_subtasks (w_db w) i) \<and> n < 8")
  case True
  with assms(2, 5) show ?thesis by (auto simp: handle_task_failure_def get_analysisW_def Let_def max_retries_def)
next
  case False
  have "w_db w' = w_db (fst (record_failure te tb i u fld st a (failed_subtasks (w_db w) i) w))" "r = Inr Handled"
    using assms(2, 5) False
    by (auto simp: handle_task_failure_def get_analysisW_def Let_def max_retries_def tryW_def whenW_def split: if_splits)
  then show ?thesis
    using False record_failure_row [OF assms(1-4), where failed = "failed_subtasks (w_db w) i" and tb = tb and st = st] by simp
qed

theorem failure_handling_witness:
  "\<exists>b k g. get_analysis (w_db (fst (handle_task_failure demo_te 8 ''tb'' 1 1 None run_traceback_file
      RUN_ERROR \<lparr>w_db = lc_db, w_effects = []\<rparr>))) 1 = Some b \<and> an_status b = RUN_ERROR \<and>
     an_run_log_file b = Some k \<and>
     get_file (w_db (fst (handle_task_failure demo_te 8 ''tb'' 1 1 None run_traceback_file
      RUN_ERROR \<lparr>w_db = lc_db, w_effects = []\<rparr>))) k = Some g \<and> rf_creator g = Some 1"
proof -
  let ?w = "\<lparr>w_db = lc_db, w_effects = []\<rparr>"
  have g: "get_analysis (w_db ?w) 1 = Some demo_analysis" by (simp add: get_analysis_def lc_db_def demo_db_def demo_analysis_def)
  have ok: "db_ok (w_db ?w)" by (simp add: db_ok_def lc_db_def demo_db_def demo_analysis_def)
  have u: "te_users demo_te 1" by (simp add: demo_te_def)
  have f: "old_log_disposable (w_db ?w) demo_analysis" by (simp add: old_log_disposable_def demo_analysis_def)
  have s: "an_status demo_analysis = READY" by (simp add: demo_analysis_def)
  from failure_handling [OF ok g u f prod.collapse [symmetric], where fld = run_traceback_file and n = 8 and tb = "''tb''" and uuid = None and st = RUN_ERROR]
  show ?thesis unfolding s by auto
qed

lemma cancel_subtasks_active:
  assumes "get_analysis (w_db w) i \<noteq> None"
  shows "\<exists>w'. cancel_subtasks_task te i w = (w', Inr ()) \<and>
    (\<forall>s \<in> set (db_subtasks (w_db w')). \<not> active_subtask i s) \<and>
    db_subtasks (w_db w') = map (\<lambda>s. if active_subtask i s then s\<lparr>st_status := CANCELLED, st_end_time := Some (te_now te)\<rparr> else s)
      (db_subtasks (w_db w)) \<and>
    (\<forall>t. RevokeTask t \<in> set (w_effects w') - set (w_effects w) \<longrightarrow>
       (\<exists>s \<in> set (db_subtasks (w_db w)). active_subtask i s \<and> st_task_id s = t \<and> t \<noteq> [])) \<and>
    (\<forall>s \<in> set (db_subtasks (w_db w)). active_subtask i s \<and> st_task_id s \<noteq> [] \<longrightarrow> RevokeTask (st_task_id s) \<in> set (w_effects w'))"
proof -
  define effs where "effs = concat (map (\<lambda>s. if st_task_id s \<noteq> [] then [MarkRevoked (st_task_id s), RevokeTask (st_task_id s)] else [])
    (filter (active_subtask i) (db_subtasks (w_db w))))"
  define w' where "w' = w\<lparr>w_effects := w_effects w @ effs, w_db := update_subtasks (active_subtask i)
    (\<lambda>s. s\<lparr>st_status := CANCELLED, st_end_time := Some (te_now te)\<rparr>) (w_db w)\<rparr>"
  have run: "cancel_subtasks_task te i w = (w', Inr ())"
    using assms by (auto simp: cancel_subtasks_task_def get_analysisW_def w'_def effs_def)
  have eff: "RevokeTask t \<in> set effs \<longleftrightarrow> (\<exists>s \<in> set (db_subtasks (w_db w)). active_subtask i s \<and> st_task_id s = t \<and> t \<noteq> [])" for t
    unfolding effs_def by (auto split: if_splits)
  have sub: "db_subtasks (w_db w') = map (\<lambda>s. if active_subtask i s then s\<lparr>st_status := CANCELLED,
      st_end_time := Some (te_now te)\<rparr> else s) (db_subtasks (w_db w))"
    by (simp add: w'_def update_subtasks_def)
  have act: "\<forall>s \<in> set (db_subtasks (w_db w')). \<not> active_subtask i s"
  proof -
    have "\<not> active_subtask i (if active_subtask i s then s\<lparr>st_status := CANCELLED, st_end_time := Some (te_now te)\<rparr> else s)" for s
      by (simp add: active_subtask_def)
    then show ?thesis unfolding sub set_map by blast
  qed
  have weffs: "set (w_effects w') = set (w_effects w) \<union> set effs" by (simp add: w'_def)
  have only: "\<forall>t. RevokeTask t \<in> set (w_effects w') - set (w_effects w) \<longrightarrow>
      (\<exists>s \<in> set (db_subtasks (w_db w)). active_subtask i s \<and> st_task_id s = t \<and> t \<noteq> [])"
    unfolding weffs using eff by blast
  have all: "\<forall>s \<in> set (db_subtasks (w_db w)). active_subtask i s \<and> st_task_id s \<noteq> [] \<longrightarrow> RevokeTask (st_task_id s) \<in> set (w_effects w')"
    unfolding weffs using eff by blast
  show ?thesis by (rule exI [of _ w'], intro conjI) (fact run act sub only all)+
qed

text \<open>
  C10: Cancelling the sub-tasks of an analysis leaves none of them pending, queued or started, marks
  exactly those as cancelled, and revokes exactly the ones that have a task identifier.
\<close>

theorem cancel_subtasks_effect:
  assumes "get_analysis (w_db w) i \<noteq> None"
  defines "active \<equiv> \<lambda>s. st_analysis s = i \<and> st_status s \<in> {PENDING, QUEUED, STARTED}"
  shows "\<exists>w'. cancel_subtasks_task te i w = (w', Inr ()) \<and>
    (\<forall>s \<in> set (db_subtasks (w_db w')). \<not> active s) \<and>
    db_subtasks (w_db w') = map (\<lambda>s. if active s then s\<lparr>st_status := CANCELLED, st_end_time := Some (te_now te)\<rparr> else s)
      (db_subtasks (w_db w)) \<and>
    (\<forall>t. RevokeTask t \<in> set (w_effects w') - set (w_effects w) \<longrightarrow>
       (\<exists>s \<in> set (db_subtasks (w_db w)). active s \<and> st_task_id s = t \<and> t \<noteq> [])) \<and>
    (\<forall>s \<in> set (db_subtasks (w_db w)). active s \<and> st_task_id s \<noteq> [] \<longrightarrow> RevokeTask (st_task_id s) \<in> set (w_effects w'))"
proof -
  have "active = active_subtask i" by (auto simp: active_def active_subtask_def fun_eq_iff)
  then show ?thesis using cancel_subtasks_active [OF assms(1), of te] by simp
qed

theorem cancel_subtasks_effect_witness:
  "\<exists>w'. cancel_subtasks_task demo_te 1 \<lparr>w_db = lc_db\<lparr>db_subtasks := [get_subtask_status demo_analysis ''n'' ''s'' ''q'']\<rparr>, w_effects = []\<rparr> = (w', Inr ())"
proof -
  have "get_analysis (w_db \<lparr>w_db = lc_db\<lparr>db_subtasks := [get_subtask_status demo_analysis ''n'' ''s'' ''q'']\<rparr>, w_effects = []\<rparr>) 1 \<noteq> None"
    by (simp add: get_analysis_def lc_db_def demo_db_def demo_analysis_def)
  from cancel_subtasks_effect [OF this, of demo_te] show ?thesis by blast
qed

text \<open>
  Recording generated inputs always makes the analysis \<open>READY\<close> with the input archive attached,
  whatever finish status the controller asked for.
\<close>

theorem record_input_files_sets_ready:
  assumes "record_input_files te res i u slug rid fin w = (w', Inr ())"
  shows "\<exists>b. get_analysis (w_db w') i = Some b \<and> an_status b = READY \<and> an_input_file b \<noteq> None \<and>
    an_input_generation_traceback_file b \<noteq> None"
proof -
  let ?J = "\<lambda>d. db_analyses d = db_analyses (w_db w) \<and> db_next_analysis d = db_next_analysis (w_db w)"
  define w0 where "w0 = w\<lparr>w_effects := w_effects w @ [Delay ''record_sub_task_start'' [(''analysis_id'', A_Int (int i)),
    (''task_slug'', A_Str slug), (''task_id'', A_Str rid), (''dt'', A_Int (te_now te))]]\<rparr>"
  have w0: "w_db w0 = w_db w" by (simp add: w0_def)
  have run: "record_input_files te res i u slug rid fin w =
      bindW (get_analysisW i) (\<lambda>a. bindW (get_userW te u) (\<lambda>initiator.
      bindW (attach_input_files te res i initiator (a\<lparr>an_task_finished := Some (te_now te), an_status := READY\<rparr>)) (\<lambda>a1.
      bindW get_dbW (\<lambda>d.
      bindW (create_fileW (text_file te (analysis_name i ''_generation_traceback.txt'') u (completed_logs te d i))) (\<lambda>tb.
        save_analysisW (a1\<lparr>an_input_generation_traceback_file := Some tb\<rparr>)))))) w0"
    by (simp add: record_input_files_def emit_sub_task_start_def w0_def)
  obtain a where g: "get_analysis (w_db w) i = Some a"
    using assms run w0 by (cases "get_analysis (w_db w) i") (simp_all add: get_analysisW_def)
  have u: "te_users te u" using assms run w0 g by (cases "te_users te u") (simp_all add: get_analysisW_def get_userW_def)
  obtain w1 r1 where att: "attach_input_files te res i u (a\<lparr>an_task_finished := Some (te_now te), an_status := READY\<rparr>) w0 = (w1, r1)"
    by fastforce
  then obtain a1 where r1: "r1 = Inr a1"
    using assms unfolding run
    by (cases r1) (simp_all add: bindW_def get_analysisW_def get_userW_def w0 g u del: bindW_simps)
  define tf where "tf = text_file te (analysis_name i ''_generation_traceback.txt'') u (completed_logs te (w_db w1) i)"
  have w': "w_db w' = save_analysis (fst (create_file (w_db w1) tf))
      (a1\<lparr>an_input_generation_traceback_file := Some (snd (create_file (w_db w1) tf))\<rparr>)"
    using assms run w0 g u att r1
    by (auto simp: get_analysisW_def get_userW_def create_fileW_def stepW_def split_beta save_analysisW_def tf_def)
  have a1: "an_status a1 = READY" "an_id a1 = an_id a" "an_input_file a1 \<noteq> None" and J1: "?J (w_db w1)"
    using wspecD [OF rows.attach_input_files_keeps _ att [unfolded r1],
        of "db_analyses (w_db w)" "db_next_analysis (w_db w)"] w0 by simp_all
  have "db_analyses (fst (create_file (w_db w1) tf)) = db_analyses (w_db w)" using J1 by (simp add: frame_simps)
  then have "get_analysis (fst (create_file (w_db w1) tf)) i = Some a" using g by (simp add: get_analysis_def)
  then show ?thesis using a1 get_analysis_id [OF g] by (simp add: w' get_save_analysis)
qed

definition demo_inputs :: input_result where
  "demo_inputs = \<lparr>ir_output_location = Some ''in.tar.gz'', ir_lookup_error_location = Some ''e.csv'',
     ir_lookup_success_location = Some ''s.csv'', ir_lookup_validation_location = Some ''v.json'',
     ir_summary_levels_location = Some ''l.json'', ir_analysis_settings_location = None\<rparr>"

theorem record_input_files_sets_ready_witness:
  "\<exists>b. get_analysis (w_db (fst (record_input_files demo_te demo_inputs 1 1 ''s'' ''r'' RUN_STARTED
      \<lparr>w_db = lc_db, w_effects = []\<rparr>))) 1 = Some b \<and> an_status b = READY \<and> an_input_file b \<noteq> None"
proof -
  let ?m = "record_input_files demo_te demo_inputs 1 1 ''s'' ''r'' RUN_STARTED \<lparr>w_db = lc_db, w_effects = []\<rparr>"
  have "isl (snd ?m) = False" by code_simp
  then have "?m = (fst ?m, Inr ())" by (cases "snd ?m") (auto simp: prod_eq_iff)
  from record_input_files_sets_ready [OF this] show ?thesis by blast
qed

end
