(* ===== verification/Redoc_Styles.thy ===== *)
theory Redoc_Styles
  imports Redoc_Css
begin

text \<open>
  Styled components of the ReDoc bundle: the layout, headers, tables of properties, tabs and code blocks. Each definition
  is one template literal, token by token; a component that extends another has its tokens after
  those of the base.
\<close>

text \<open>The error box.\<close>

definition ka_css :: "ctx \<Rightarrow> css" where
  "ka_css e =
    [Decl ''padding'' ''20px'',
     Decl ''color'' ''red'']"

text \<open>Key frames of the spinner.\<close>

definition Oa_css :: "ctx \<Rightarrow> css" where
  "Oa_css e =
    [Open ''0%'',
     Decl ''transform'' ''rotate(0deg)'',
     Close,
     Open ''100%'',
     Decl ''transform'' ''rotate(360deg)'',
     Close]"

text \<open>Spinner.\<close>

definition Ea_css :: "ctx \<Rightarrow> css" where
  "Ea_css e =
    [Decl ''animation'' (''2s '' @ keyframes_name e ''Oa'' @ '' linear infinite''),
     Decl ''width'' ''50px'',
     Decl ''height'' ''50px'',
     Decl ''content'' (quoted []),
     Decl ''display'' ''inline-block'',
     Decl ''margin-left'' ''-25px'',
     Open ''path'',
     Decl ''fill'' (str_or (attr e ''color'') []),
     Close]"

text \<open>Loading message.\<close>

definition Loading_a_css :: "ctx \<Rightarrow> css" where
  "Loading_a_css e =
    [Decl ''font-family'' ''helvetica, sans'',
     Decl ''width'' ''100%'',
     Decl ''text-align'' ''center'',
     Decl ''font-size'' ''25px'',
     Decl ''margin'' ''30px 0 20px 0'',
     Decl ''color'' (str_or (attr e ''color'') [])]"

text \<open>Middle panel.\<close>

definition Iu_css :: "ctx \<Rightarrow> css" where
  "Iu_css e =
    [Decl ''width'' (''calc(100% - '' @ th e [''rightPanel'', ''width''] @ '')''),
     Decl ''padding'' (''0 '' @ th e [''spacing'', ''sectionHorizontal''] @ ''px'')] @
    lessThan e ''medium'' True [] ([Decl ''width'' ''100%'',
       Decl ''padding'' ((if flag e ''$compact'' then ''0'' else th e [''spacing'', ''sectionVertical'']) @ ''px '' @
           th e [''spacing'', ''sectionHorizontal''] @ ''px'')]) @
    [Semi]"

text \<open>Section.\<close>

definition Ru_css :: "ctx \<Rightarrow> css" where
  "Ru_css e =
    [Decl ''padding'' (th e [''spacing'', ''sectionVertical''] @ ''px 0''),
     Open ''&:last-child'',
     Decl ''min-height'' ''calc(100vh + 1px)'',
     Close,
     Open ''& > &:last-child'',
     Decl ''min-height'' ''initial'',
     Close] @
    lessThan e ''medium'' True [] ([Decl ''padding'' ''0'']) @
    (if flag e ''$underlined'' then [Decl ''position'' ''relative'',
       Open ''&:not(:last-of-type):after'',
       Decl ''position'' ''absolute'',
       Decl ''bottom'' ''0'',
       Decl ''width'' ''100%'',
       Decl ''display'' ''block'',
       Decl ''content'' (quoted []),
       Decl ''border-bottom'' ''1px solid rgba(0, 0, 0, 0.2)'',
       Close] else [])"

text \<open>Right panel.\<close>

definition Nu_css :: "ctx \<Rightarrow> css" where
  "Nu_css e =
    [Decl ''width'' (th e [''rightPanel'', ''width'']),
     Decl ''color'' (th e [''rightPanel'', ''textColor'']),
     Decl ''background-color'' (th e [''rightPanel'', ''backgroundColor'']),
     Decl ''padding'' (''0 '' @ th e [''spacing'', ''sectionHorizontal''] @ ''px'')] @
    lessThan e ''medium'' True [] ([Decl ''width'' ''100%'',
       Decl ''padding'' (th e [''spacing'', ''sectionVertical''] @ ''px '' @
           th e [''spacing'', ''sectionHorizontal''] @ ''px'')]) @
    [Semi]"

text \<open>Dark right panel.\<close>

definition Dollar_u_css :: "ctx \<Rightarrow> css" where
  "Dollar_u_css e =
    Nu_css e @
    [Decl ''background-color'' (th e [''rightPanel'', ''backgroundColor''])]"

text \<open>Row.\<close>

definition Lu_css :: "ctx \<Rightarrow> css" where
  "Lu_css e =
    [Decl ''display'' ''flex'',
     Decl ''width'' ''100%'',
     Decl ''padding'' ''0''] @
    lessThan e ''medium'' True [] ([Decl ''flex-direction'' ''column'']) @
    [Semi]"

text \<open>Mixin of the headers.\<close>

definition Mu :: "ctx \<Rightarrow> nat \<Rightarrow> css" where
  "Mu e level =
    [Decl ''font-family'' (th e [''typography'', ''headings'', ''fontFamily'']),
     Decl ''font-weight'' (th e [''typography'', ''headings'', ''fontWeight'']),
     Decl ''font-size'' (Du level),
     Decl ''line-height'' (th e [''typography'', ''headings'', ''lineHeight''])]"

text \<open>H1.\<close>

definition Fu_css :: "ctx \<Rightarrow> css" where
  "Fu_css e =
    Mu e 1 @
    [Semi,
     Decl ''color'' (th e [''colors'', ''text'', ''primary''])] @
    wa e ''H1'' @
    [Semi]"

text \<open>H2.\<close>

definition zu_css :: "ctx \<Rightarrow> css" where
  "zu_css e =
    Mu e 2 @
    [Semi,
     Decl ''color'' (th e [''colors'', ''text'', ''primary'']),
     Decl ''margin'' ''0 0 20px''] @
    wa e ''H2'' @
    [Semi]"

text \<open>H3.\<close>

definition Uu_css :: "ctx \<Rightarrow> css" where
  "Uu_css e =
    Mu e 3 @
    [Semi,
     Decl ''color'' (th e [''colors'', ''text'', ''primary''])] @
    wa e ''H3'' @
    [Semi]"

text \<open>Right panel header.\<close>

definition Bu_css :: "ctx \<Rightarrow> css" where
  "Bu_css e =
    [Decl ''color'' (th e [''rightPanel'', ''textColor''])] @
    wa e ''RightPanelHeader'' @
    [Semi]"

text \<open>Underlined header.\<close>

definition qu_css :: "ctx \<Rightarrow> css" where
  "qu_css e =
    [Decl ''border-bottom'' ''1px solid rgba(38, 50, 56, 0.3)'',
     Decl ''margin'' ''1em 0 1em 0'',
     Decl ''color'' ''rgba(38, 50, 56, 0.5)'',
     Decl ''font-weight'' ''normal'',
     Decl ''text-transform'' ''uppercase'',
     Decl ''font-size'' ''0.929em'',
     Decl ''line-height'' ''20px''] @
    wa e ''UnderlinedHeader'' @
    [Semi]"

text \<open>Mixin of the share links.\<close>

definition Gu :: "ctx \<Rightarrow> string \<Rightarrow> css" where
  "Gu e sel =
    [Open sel,
     Decl ''cursor'' ''pointer'',
     Decl ''margin-left'' ''-20px'',
     Decl ''padding'' ''0'',
     Decl ''line-height'' ''1'',
     Decl ''width'' ''20px'',
     Decl ''display'' ''inline-block'',
     Decl ''outline'' ''0'',
     Close,
     Open (sel @ '':before''),
     Decl ''content'' (quoted []),
     Decl ''width'' ''15px'',
     Decl ''height'' ''15px'',
     Decl ''background-size'' ''contain'',
     Decl ''background-image'' (''url('' @
         quoted (''data:image/svg+xml;base64,PHN2ZyB4bWxucz0iaHR0cDovL3d3dy53My5vcmcvMjAwMC9zdmciIHZlcnNpb249'' @
      ''IjEuMSIgeD0iMCIgeT0iMCIgd2lkdGg9IjUxMiIgaGVpZ2h0PSI1MTIiIHZpZXdCb3g9IjAgMCA1MTIgNTEyIiBlbm'' @
      ''FibGUtYmFja2dyb3VuZD0ibmV3IDAgMCA1MTIgNTEyIiB4bWw6c3BhY2U9InByZXNlcnZlIj48cGF0aCBmaWxsPSIj'' @
      ''MDEwMTAxIiBkPSJNNDU5LjcgMjMzLjRsLTkwLjUgOTAuNWMtNTAgNTAtMTMxIDUwLTE4MSAwIC03LjktNy44LTE0LT'' @
      ''E2LjctMTkuNC0yNS44bDQyLjEtNDIuMWMyLTIgNC41LTMuMiA2LjgtNC41IDIuOSA5LjkgOCAxOS4zIDE1LjggMjcu'' @
      ''MiAyNSAyNSA2NS42IDI0LjkgOTAuNSAwbDkwLjUtOTAuNWMyNS0yNSAyNS02NS42IDAtOTAuNSAtMjQuOS0yNS02NS'' @
      ''41LTI1LTkwLjUgMGwtMzIuMiAzMi4yYy0yNi4xLTEwLjItNTQuMi0xMi45LTgxLjYtOC45bDY4LjYtNjguNmM1MC01'' @
      ''MCAxMzEtNTAgMTgxIDBDNTA5LjYgMTAyLjMgNTA5LjYgMTgzLjQgNDU5LjcgMjMzLjR6TTIyMC4zIDM4Mi4ybC0zMi'' @
      ''4yIDMyLjJjLTI1IDI0LjktNjUuNiAyNC45LTkwLjUgMCAtMjUtMjUtMjUtNjUuNiAwLTkwLjVsOTAuNS05MC41YzI1'' @
      ''LTI1IDY1LjUtMjUgOTAuNSAwIDcuOCA3LjggMTIuOSAxNy4yIDE1LjggMjcuMSAyLjQtMS40IDQuOC0yLjUgNi44LT'' @
      ''QuNWw0Mi4xLTQyYy01LjQtOS4yLTExLjYtMTgtMTkuNC0yNS44IC01MC01MC0xMzEtNTAtMTgxIDBsLTkwLjUgOTAu'' @
      ''NWMtNTAgNTAtNTAgMTMxIDAgMTgxIDUwIDUwIDEzMSA1MCAxODEgMGw2OC42LTY4LjZDMjc0LjYgMzk1LjEgMjQ2Lj'' @
      ''QgMzkyLjMgMjIwLjMgMzgyLjJ6Ii8+PC9zdmc+Cg=='') @ '')''),
     Decl ''opacity'' ''0.5'',
     Decl ''visibility'' ''hidden'',
     Decl ''display'' ''inline-block'',
     Decl ''vertical-align'' ''middle'',
     Close,
     Open (''h1:hover > '' @ sel @ ''::before, h2:hover > '' @ sel @ ''::before, '' @ sel @ '':hover::before''),
     Decl ''visibility'' ''visible'',
     Close]"

text \<open>Share link.\<close>

definition Qu_css :: "ctx \<Rightarrow> css" where
  "Qu_css e =
    Gu e ''&'' @
    [Semi]"

text \<open>Shelf icon.\<close>

definition Zu_css :: "ctx \<Rightarrow> css" where
  "Zu_css e =
    [Decl ''height'' (str_or (attr e ''size'') ''18px''),
     Decl ''width'' (str_or (attr e ''size'') ''18px''),
     Decl ''min-width'' (str_or (attr e ''size'') ''18px''),
     Decl ''vertical-align'' ''middle'',
     Decl ''float'' (str_or (attr e ''float'') []),
     Decl ''transition'' ''transform 0.2s ease-out'',
     Decl ''transform'' (''rotateZ('' @ Ku (str_or (attr e ''direction'') ''down'') @ '')''),
     Open ''polygon'',
     Decl ''fill'' (response_color e (attr e ''color'')),
     Close]"

text \<open>Badge.\<close>

definition Ju_css :: "ctx \<Rightarrow> css" where
  "Ju_css e =
    [Decl ''display'' ''inline-block'',
     Decl ''padding'' ''2px 8px'',
     Decl ''margin'' ''0'',
     Decl ''background-color'' (th e [''colors'', attr_key e ''type'', ''main'']),
     Decl ''color'' (th e [''colors'', attr_key e ''type'', ''contrastText'']),
     Decl ''font-size'' (th e [''typography'', ''code'', ''fontSize'']),
     Decl ''vertical-align'' ''middle'',
     Decl ''line-height'' ''1.6'',
     Decl ''border-radius'' ''4px'',
     Decl ''font-weight'' (th e [''typography'', ''fontWeightBold'']),
     Decl ''font-size'' ''12px'',
     Open ''+ span[type]'',
     Decl ''margin-left'' ''4px'',
     Close]"

text \<open>Deprecated text.\<close>

definition ep_css :: "ctx \<Rightarrow> css" where
  "ep_css e =
    [Decl ''text-decoration'' ''line-through'',
     Decl ''color'' ''#707070'']"

text \<open>Caption of a table of properties.\<close>

definition tp_css :: "ctx \<Rightarrow> css" where
  "tp_css e =
    [Decl ''text-align'' ''right'',
     Decl ''font-size'' ''0.9em'',
     Decl ''font-weight'' ''normal'',
     Decl ''color'' (th e [''colors'', ''text'', ''secondary''])]"

text \<open>Cell of a property.\<close>

definition np_css :: "ctx \<Rightarrow> css" where
  "np_css e =
    [Decl ''border-left'' (''1px solid '' @ th e [''schema'', ''linesColor'']),
     Decl ''box-sizing'' ''border-box'',
     Decl ''position'' ''relative'',
     Decl ''padding'' ''10px 10px 10px 0''] @
    lessThan e ''small'' False [] ([Decl ''display'' ''block'',
       Decl ''overflow'' ''hidden'']) @
    [Open ''tr:first-of-type > &, tr.last > &'',
     Decl ''border-left-width'' ''0'',
     Decl ''background-position'' ''top left'',
     Decl ''background-repeat'' ''no-repeat'',
     Decl ''background-size'' ''1px 100%'',
     Close,
     Open ''tr:first-of-type > &'',
     Decl ''background-image'' (''linear-gradient( to bottom, transparent 0%, transparent 22px, '' @
         th e [''schema'', ''linesColor''] @ '' 22px, '' @ th e [''schema'', ''linesColor''] @ '' 100% )''),
     Close,
     Open ''tr.last > &'',
     Decl ''background-image'' (''linear-gradient( to bottom, '' @ th e [''schema'', ''linesColor''] @ '' 0%, '' @
         th e [''schema'', ''linesColor''] @ '' 22px, transparent 22px, transparent 100% )''),
     Close,
     Open ''tr.last + tr > &'',
     Decl ''border-left-color'' ''transparent'',
     Close,
     Open ''tr.last:first-child > &'',
     Decl ''background'' ''none'',
     Decl ''border-left-color'' ''transparent'',
     Close]"

text \<open>Cell with inner properties.\<close>

definition rp_css :: "ctx \<Rightarrow> css" where
  "rp_css e =
    np_css e @
    [Decl ''padding'' ''0'']"

text \<open>Cell of a property name.\<close>

definition ip_css :: "ctx \<Rightarrow> css" where
  "ip_css e =
    np_css e @
    [Decl ''vertical-align'' ''top'',
     Decl ''line-height'' ''20px'',
     Decl ''white-space'' ''nowrap'',
     Decl ''font-size'' ''13px'',
     Decl ''font-family'' (th e [''typography'', ''code'', ''fontFamily'']),
     Open ''&.deprecated''] @
    ep_css e @
    [Semi,
     Close] @
    (if attr e ''kind'' = Some ''patternProperties'' then
      [Open ''> span.property-name'',
       Decl ''display'' ''inline-table'',
       Decl ''white-space'' ''break-spaces'',
       Decl ''margin-right'' ''20px'',
       Open ''::before, ::after'',
       Decl ''content'' (quoted ''/''),
       Decl ''filter'' ''opacity(0.2)'',
       Close,
       Close]
    else []) @
    (if str_or (attr e ''kind'') [] \<in> set [''field'', ''additionalProperties'', ''patternProperties''] then [] else [Decl ''font-style'' ''italic'']) @
    [Semi] @
    wa e ''PropertyNameCell'' @
    [Semi]"

text \<open>Cell of property details.\<close>

definition op_css :: "ctx \<Rightarrow> css" where
  "op_css e =
    [Decl ''border-bottom'' ''1px solid #9fb4be'',
     Decl ''padding'' ''10px 0'',
     Decl ''width'' (th e [''schema'', ''defaultDetailsWidth'']),
     Decl ''box-sizing'' ''border-box'',
     Open ''tr.expanded &'',
     Decl ''border-bottom'' ''none'',
     Close] @
    lessThan e ''small'' False [] ([Decl ''padding'' ''0 20px'',
       Decl ''border-bottom'' ''none'',
       Decl ''border-left'' (''1px solid '' @ th e [''schema'', ''linesColor'']),
       Open ''tr.last > &'',
       Decl ''border-left'' ''none'',
       Close]) @
    wa e ''PropertyDetailsCell'' @
    [Semi]"

text \<open>Bullet of a property.\<close>

definition ap_css :: "ctx \<Rightarrow> css" where
  "ap_css e =
    [Decl ''color'' (th e [''schema'', ''linesColor'']),
     Decl ''font-family'' (th e [''typography'', ''code'', ''fontFamily'']),
     Decl ''margin-right'' ''10px'',
     Open ''&::before'',
     Decl ''content'' (quoted []),
     Decl ''display'' ''inline-block'',
     Decl ''vertical-align'' ''middle'',
     Decl ''width'' ''10px'',
     Decl ''height'' ''1px'',
     Decl ''background'' (th e [''schema'', ''linesColor'']),
     Close,
     Open ''&::after'',
     Decl ''content'' (quoted []),
     Decl ''display'' ''inline-block'',
     Decl ''vertical-align'' ''middle'',
     Decl ''width'' ''1px'',
     Decl ''background'' (th e [''schema'', ''linesColor'']),
     Decl ''height'' ''7px'',
     Close]"

text \<open>Wrapper of inner properties.\<close>

definition sp_css :: "ctx \<Rightarrow> css" where
  "sp_css e =
    [Decl ''padding'' (th e [''schema'', ''nestingSpacing''])]"

text \<open>Table of properties.\<close>

definition lp_css :: "ctx \<Rightarrow> css" where
  "lp_css e =
    [Decl ''border-collapse'' ''separate'',
     Decl ''border-radius'' ''3px'',
     Decl ''font-size'' (th e [''typography'', ''fontSize'']),
     Decl ''border-spacing'' ''0'',
     Decl ''width'' ''100%'',
     Open ''> tr'',
     Decl ''vertical-align'' ''middle'',
     Close] @
    lessThan e ''small'' False [] ([Decl ''display'' ''block'',
       Open ''> tr, > tbody > tr'',
       Decl ''display'' ''block'',
       Close]) @
    lessThan e ''small'' False '' and (-ms-high-contrast:none)'' ([Open ''td'',
       Decl ''float'' ''left'',
       Decl ''width'' ''100%'',
       Close]) @
    [Open (''& '' @ class_of e ''sp'' @ '', & '' @ class_of e ''sp'' @ '' '' @ class_of e ''sp'' @ '' '' @
        class_of e ''sp'' @ '', & '' @ class_of e ''sp'' @ '' '' @ class_of e ''sp'' @ '' '' @ class_of e ''sp'' @
        '' '' @ class_of e ''sp'' @ '' '' @ class_of e ''sp''),
     Decl ''margin'' (th e [''schema'', ''nestingSpacing'']),
     Decl ''margin-right'' ''0'',
     Decl ''background'' (th e [''schema'', ''nestedBackground'']),
     Close,
     Open (''& '' @ class_of e ''sp'' @ '' '' @ class_of e ''sp'' @ '', & '' @ class_of e ''sp'' @ '' '' @
         class_of e ''sp'' @ '' '' @ class_of e ''sp'' @ '' '' @ class_of e ''sp'' @ '', & '' @ class_of e ''sp'' @
         '' '' @ class_of e ''sp'' @ '' '' @ class_of e ''sp'' @ '' '' @ class_of e ''sp'' @ '' '' @
         class_of e ''sp'' @ '' '' @ class_of e ''sp''),
     Decl ''background'' ''#ffffff'',
     Close]"

text \<open>List of alternatives.\<close>

definition cp_css :: "ctx \<Rightarrow> css" where
  "cp_css e =
    [Decl ''margin'' ''0 0 3px 0'',
     Decl ''display'' ''inline-block'']"

text \<open>Label of alternatives.\<close>

definition up_css :: "ctx \<Rightarrow> css" where
  "up_css e =
    [Decl ''font-size'' ''0.9em'',
     Decl ''margin-right'' ''10px'',
     Decl ''color'' (th e [''colors'', ''primary'', ''main'']),
     Decl ''font-family'' (th e [''typography'', ''headings'', ''fontFamily'']),
     Close]"

text \<open>Button of an alternative.\<close>

definition pp_css :: "ctx \<Rightarrow> css" where
  "pp_css e =
    [Decl ''display'' ''inline-block'',
     Decl ''margin-right'' ''10px'',
     Decl ''margin-bottom'' ''5px'',
     Decl ''font-size'' ''0.8em'',
     Decl ''cursor'' ''pointer'',
     Decl ''border'' (''1px solid '' @ th e [''colors'', ''primary'', ''main'']),
     Decl ''padding'' ''2px 10px'',
     Decl ''line-height'' ''1.5em'',
     Decl ''outline'' ''none'',
     Open ''&:focus'',
     Decl ''box-shadow'' (''0 0 0 1px '' @ th e [''colors'', ''primary'', ''main'']),
     Close] @
    (if flag e ''$deprecated'' then ep_css e else []) @
    [Semi] @
    (if flag e ''$active'' then
      [Decl ''color'' ''white'',
       Decl ''background-color'' (th e [''colors'', ''primary'', ''main'']),
       Open ''&:focus'',
       Decl ''box-shadow'' ''none'',
       Decl ''background-color'' (Ur e 15 (th e [''colors'', ''primary'', ''main''])),
       Close]
    else
      [Decl ''color'' (th e [''colors'', ''primary'', ''main'']),
       Decl ''background-color'' ''white''])"

text \<open>Opening of an array.\<close>

definition dp_css :: "ctx \<Rightarrow> css" where
  "dp_css e =
    [Decl ''font-size'' ''0.9em'',
     Decl ''font-family'' (th e [''typography'', ''code'', ''fontFamily'']),
     Open ''&::after'',
     Decl ''content'' (quoted '' [''),
     Close]"

text \<open>Closing of an array.\<close>

definition fp_css :: "ctx \<Rightarrow> css" where
  "fp_css e =
    [Decl ''font-size'' ''0.9em'',
     Decl ''font-family'' (th e [''typography'', ''code'', ''fontFamily'']),
     Open ''&::after'',
     Decl ''content'' (quoted '']''),
     Close]"

text \<open>Tabs.\<close>

definition Vp_css :: "ctx \<Rightarrow> css" where
  "Vp_css e =
    [Open ''> ul'',
     Decl ''list-style'' ''none'',
     Decl ''padding'' ''0'',
     Decl ''margin'' ''0'',
     Decl ''margin'' ''0 -5px'',
     Open ''> li'',
     Decl ''padding'' ''5px 10px'',
     Decl ''display'' ''inline-block'',
     Decl ''background-color'' (th e [''codeBlock'', ''backgroundColor'']),
     Decl ''border-bottom'' ''1px solid rgba(0, 0, 0, 0.5)'',
     Decl ''cursor'' ''pointer'',
     Decl ''text-align'' ''center'',
     Decl ''outline'' ''none'',
     Decl ''color'' (Ur e (theme_num e [''colors'', ''tonalOffset'']) (th e [''rightPanel'', ''textColor''])),
     Decl ''margin'' (''0 '' @ unit_px e 1 @ '' '' @ unit_px e 1 @ '' '' @ unit_px e 1),
     Decl ''border'' (''1px solid '' @ Ur e 5 (th e [''codeBlock'', ''backgroundColor''])),
     Decl ''border-radius'' ''5px'',
     Decl ''min-width'' ''60px'',
     Decl ''font-size'' ''0.9em'',
     Decl ''font-weight'' ''bold'',
     Open ''&.react-tabs__tab--selected'',
     Decl ''color'' (th e [''colors'', ''text'', ''primary'']),
     Decl ''background'' (th e [''rightPanel'', ''textColor'']),
     Open ''&:focus'',
     Decl ''outline'' ''auto'',
     Close,
     Close,
     Open ''&:only-child'',
     Decl ''flex'' ''none'',
     Decl ''min-width'' ''100px'',
     Close,
     Open ''&.tab-success'',
     Decl ''color'' (th e [''colors'', ''responses'', ''success'', ''tabTextColor'']),
     Close,
     Open ''&.tab-redirect'',
     Decl ''color'' (th e [''colors'', ''responses'', ''redirect'', ''tabTextColor'']),
     Close,
     Open ''&.tab-info'',
     Decl ''color'' (th e [''colors'', ''responses'', ''info'', ''tabTextColor'']),
     Close,
     Open ''&.tab-error'',
     Decl ''color'' (th e [''colors'', ''responses'', ''error'', ''tabTextColor'']),
     Close,
     Close,
     Close,
     Open ''> .react-tabs__tab-panel'',
     Decl ''background'' (th e [''codeBlock'', ''backgroundColor'']),
     Open ''& > div, & > pre'',
     Decl ''padding'' (str_num (4 * theme_num e [''spacing'', ''unit'']) @ ''px''),
     Decl ''margin'' ''0'',
     Close,
     Open ''& > div > pre'',
     Decl ''padding'' ''0'',
     Close,
     Close]"

text \<open>Small tabs (the component is built and dropped).\<close>

definition anon468_css :: "ctx \<Rightarrow> css" where
  "anon468_css e =
    Vp_css e @
    [Open ''> ul'',
     Decl ''display'' ''block'',
     Open ''> li'',
     Decl ''padding'' ''2px 5px'',
     Decl ''min-width'' ''auto'',
     Decl ''margin'' ''0 15px 0 0'',
     Decl ''font-size'' ''13px'',
     Decl ''font-weight'' ''normal'',
     Decl ''border-bottom'' ''1px dashed'',
     Decl ''color'' (Ur e (theme_num e [''colors'', ''tonalOffset'']) (th e [''rightPanel'', ''textColor''])),
     Decl ''border-radius'' ''0'',
     Decl ''background'' ''none'',
     Open ''&:last-child'',
     Decl ''margin-right'' ''0'',
     Close,
     Open ''&.react-tabs__tab--selected'',
     Decl ''color'' (th e [''rightPanel'', ''textColor'']),
     Decl ''background'' ''none'',
     Close,
     Close,
     Close,
     Open ''> .react-tabs__tab-panel'',
     Open ''& > div, & > pre'',
     Decl ''padding'' (str_num (2 * theme_num e [''spacing'', ''unit'']) @ ''px 0''),
     Close,
     Close]"

text \<open>Code highlighting.\<close>

definition Wp_css :: "ctx \<Rightarrow> css" where
  "Wp_css e =
    [Comment ''* * Based on prism-dark.css'',
     Open (''code[class*='' @ quoted ''language-'' @ ''], pre[class*='' @ quoted ''language-'' @ '']''),
     Comment ''color: white; background: none;'',
     Decl ''text-shadow'' ''0 -0.1em 0.2em black'',
     Decl ''text-align'' ''left'',
     Decl ''white-space'' ''pre'',
     Decl ''word-spacing'' ''normal'',
     Decl ''word-break'' ''normal'',
     Decl ''word-wrap'' ''normal'',
     Decl ''line-height'' ''1.5'',
     Decl ''-moz-tab-size'' ''4'',
     Decl ''-o-tab-size'' ''4'',
     Decl ''tab-size'' ''4'',
     Decl ''-webkit-hyphens'' ''none'',
     Decl ''-moz-hyphens'' ''none'',
     Decl ''-ms-hyphens'' ''none'',
     Decl ''hyphens'' ''none'',
     Close,
     Open ''@media print'',
     Open (''code[class*='' @ quoted ''language-'' @ ''], pre[class*='' @ quoted ''language-'' @ '']''),
     Decl ''text-shadow'' ''none'',
     Close,
     Close,
     Comment ''Code blocks'',
     Open (''pre[class*='' @ quoted ''language-'' @ '']''),
     Decl ''padding'' ''1em'',
     Decl ''margin'' ''0.5em 0'',
     Decl ''overflow'' ''auto'',
     Close,
     Open ''.token.comment, .token.prolog, .token.doctype, .token.cdata'',
     Decl ''color'' ''hsl(30, 20%, 50%)'',
     Close,
     Open ''.token.punctuation'',
     Decl ''opacity'' ''0.7'',
     Close,
     Open ''.namespace'',
     Decl ''opacity'' ''0.7'',
     Close,
     Open ''.token.property, .token.tag, .token.number, .token.constant, .token.symbol'',
     Decl ''color'' ''#4a8bb3'',
     Close,
     Open ''.token.boolean'',
     Decl ''color'' ''#e64441'',
     Close,
     Open (''.token.selector, .token.attr-name, .token.string, .token.char, .token.builtin, .token.inse'' @
      ''rted''),
     Decl ''color'' ''#a0fbaa'',
     Open ''& + a, & + a:visited'',
     Decl ''color'' ''#4ed2ba'',
     Decl ''text-decoration'' ''underline'',
     Close,
     Close,
     Open ''.token.property.string'',
     Decl ''color'' ''white'',
     Close,
     Open ''.token.operator, .token.entity, .token.url, .token.variable'',
     Decl ''color'' ''hsl(40, 90%, 60%)'',
     Close,
     Open ''.token.atrule, .token.attr-value, .token.keyword'',
     Decl ''color'' ''hsl(350, 40%, 70%)'',
     Close,
     Open ''.token.regex, .token.important'',
     Decl ''color'' ''#e90'',
     Close,
     Open ''.token.important, .token.bold'',
     Decl ''font-weight'' ''bold'',
     Close,
     Open ''.token.italic'',
     Decl ''font-style'' ''italic'',
     Close,
     Open ''.token.entity'',
     Decl ''cursor'' ''help'',
     Close,
     Open ''.token.deleted'',
     Decl ''color'' ''red'',
     Close] @
    wa e ''Prism'' @
    [Semi]"

text \<open>Controls of a sample.\<close>

definition Hp_css :: "ctx \<Rightarrow> css" where
  "Hp_css e =
    [Decl ''opacity'' ''0.7'',
     Decl ''transition'' ''opacity 0.3s ease'',
     Decl ''text-align'' ''right'',
     Open ''&:focus-within'',
     Decl ''opacity'' ''1'',
     Close,
     Open ''> button'',
     Decl ''background-color'' ''transparent'',
     Decl ''border'' ''0'',
     Decl ''color'' ''inherit'',
     Decl ''padding'' ''2px 10px'',
     Decl ''font-family'' (th e [''typography'', ''fontFamily'']),
     Decl ''font-size'' (th e [''typography'', ''fontSize'']),
     Decl ''line-height'' (th e [''typography'', ''lineHeight'']),
     Decl ''cursor'' ''pointer'',
     Decl ''outline'' ''0'',
     Open '':hover, :focus'',
     Decl ''background'' ''rgba(255, 255, 255, 0.1)'',
     Close,
     Close]"

text \<open>Wrapper of the controls.\<close>

definition Yp_css :: "ctx \<Rightarrow> css" where
  "Yp_css e =
    [Open (''&:hover '' @ class_of e ''Hp''),
     Decl ''opacity'' ''1'',
     Close]"

text \<open>Preformatted code.\<close>

definition Gp_css :: "ctx \<Rightarrow> css" where
  "Gp_css e =
    Wp_css e @
    [Decl ''font-family'' (th e [''typography'', ''code'', ''fontFamily'']),
     Decl ''font-size'' (th e [''typography'', ''code'', ''fontSize'']),
     Decl ''overflow-x'' ''auto'',
     Decl ''margin'' ''0'',
     Decl ''white-space'' ((if theme_flag e [''typography'', ''code'', ''wrap''] then ''pre-wrap'' else ''pre''))]"

section \<open>Nesting\<close>

lemma Nu_nested [css_nested]: "hook_ok e \<Longrightarrow> nest n (Nu_css e) = Some n"
  by (simp add: Nu_css_def nest_simps css_nested)

lemma Mu_nested [css_nested]: "nest n (Mu e level) = Some n"
  by (simp add: Mu_def)

lemma Fu_nested [css_nested]: "hook_ok e \<Longrightarrow> nest n (Fu_css e) = Some n"
  by (simp add: Fu_css_def nest_simps css_nested)

lemma qu_nested [css_nested]: "hook_ok e \<Longrightarrow> nest n (qu_css e) = Some n"
  by (simp add: qu_css_def nest_simps css_nested)

lemma Gu_nested [css_nested]: "nest n (Gu e sel) = Some n"
  by (simp add: Gu_def)

lemma ep_nested [css_nested]: "hook_ok e \<Longrightarrow> nest n (ep_css e) = Some n"
  by (simp add: ep_css_def nest_simps css_nested)

lemma np_nested [css_nested]: "hook_ok e \<Longrightarrow> nest n (np_css e) = Some n"
  by (simp add: np_css_def nest_simps css_nested)

lemma ip_nested [css_nested]: "hook_ok e \<Longrightarrow> nest n (ip_css e) = Some n"
  by (simp add: ip_css_def nest_simps css_nested)

lemma Vp_nested [css_nested]: "hook_ok e \<Longrightarrow> nest n (Vp_css e) = Some n"
  by (simp add: Vp_css_def nest_simps css_nested)

lemma Wp_nested [css_nested]: "hook_ok e \<Longrightarrow> nest n (Wp_css e) = Some n"
  by (simp add: Wp_css_def nest_simps css_nested)

lemma redoc_styles_nested_1 [css_nested]:
  assumes "hook_ok e"
  shows "nest n (ka_css e) = Some n"
    "nest n (Oa_css e) = Some n"
    "nest n (Ea_css e) = Some n"
    "nest n (Loading_a_css e) = Some n"
    "nest n (Iu_css e) = Some n"
    "nest n (Ru_css e) = Some n"
    "nest n (Dollar_u_css e) = Some n"
    "nest n (Lu_css e) = Some n"
    "nest n (zu_css e) = Some n"
    "nest n (Uu_css e) = Some n"
    "nest n (Bu_css e) = Some n"
    "nest n (Qu_css e) = Some n"
  using assms
  by (simp_all add: nest_simps css_nested
      ka_css_def Oa_css_def Ea_css_def Loading_a_css_def Iu_css_def Ru_css_def Dollar_u_css_def Lu_css_def zu_css_def Uu_css_def Bu_css_def Qu_css_def)

lemma redoc_styles_nested_2 [css_nested]:
  assumes "hook_ok e"
  shows "nest n (Zu_css e) = Some n"
    "nest n (Ju_css e) = Some n"
    "nest n (tp_css e) = Some n"
    "nest n (rp_css e) = Some n"
    "nest n (op_css e) = Some n"
    "nest n (ap_css e) = Some n"
    "nest n (sp_css e) = Some n"
    "nest n (lp_css e) = Some n"
    "nest n (cp_css e) = Some n"
    "nest n (pp_css e) = Some n"
    "nest n (dp_css e) = Some n"
    "nest n (fp_css e) = Some n"
  using assms
  by (simp_all add: nest_simps css_nested
      Zu_css_def Ju_css_def tp_css_def rp_css_def op_css_def ap_css_def sp_css_def lp_css_def cp_css_def pp_css_def dp_css_def fp_css_def)

lemma redoc_styles_nested_3 [css_nested]:
  assumes "hook_ok e"
  shows "nest n (anon468_css e) = Some n"
    "nest n (Hp_css e) = Some n"
    "nest n (Yp_css e) = Some n"
    "nest n (Gp_css e) = Some n"
  using assms
  by (simp_all add: nest_simps css_nested
      anon468_css_def Hp_css_def Yp_css_def Gp_css_def)

section \<open>Catalogue\<close>

text \<open>The components of this theory with their names in the bundle.\<close>

definition layout_styles :: "(string \<times> (ctx \<Rightarrow> css)) list" where
  "layout_styles =
    [(''ka'', ka_css), (''Oa'', Oa_css), (''Ea'', Ea_css), (''_a'', Loading_a_css), (''Iu'', Iu_css),
     (''Ru'', Ru_css), (''Nu'', Nu_css), (''$u'', Dollar_u_css), (''Lu'', Lu_css), (''Fu'', Fu_css),
     (''zu'', zu_css), (''Uu'', Uu_css), (''Bu'', Bu_css), (''qu'', qu_css), (''Qu'', Qu_css),
     (''Zu'', Zu_css), (''Ju'', Ju_css), (''ep'', ep_css), (''tp'', tp_css), (''np'', np_css),
     (''rp'', rp_css), (''ip'', ip_css), (''op'', op_css), (''ap'', ap_css), (''sp'', sp_css),
     (''lp'', lp_css), (''cp'', cp_css), (''up'', up_css), (''pp'', pp_css), (''dp'', dp_css),
     (''fp'', fp_css), (''Vp'', Vp_css), (''anon468'', anon468_css), (''Wp'', Wp_css), (''Hp'', Hp_css),
     (''Yp'', Yp_css), (''Gp'', Gp_css)]"

end
