(* ===== verification/Redoc_Styles_Content.thy ===== *)
theory Redoc_Styles_Content
  imports Redoc_Styles
begin

text \<open>
  Styled components of the ReDoc bundle: drop-downs, markdown, samples, fields and security requirements. Each definition
  is one template literal, token by token; a component that extends another has its tokens after
  those of the base.
\<close>

text \<open>Scroll bar container.\<close>

definition Ad_css :: "ctx \<Rightarrow> css" where
  "Ad_css e =
    [Decl ''position'' ''relative'']"

text \<open>Arrow of a drop-down.\<close>

definition Pd_css :: "ctx \<Rightarrow> css" where
  "Pd_css e =
    [Decl ''position'' ''absolute'',
     Decl ''pointer-events'' ''none'',
     Decl ''z-index'' ''1'',
     Decl ''top'' ''50%'',
     Decl ''-webkit-transform'' ''translateY(-50%)'',
     Decl ''-ms-transform'' ''translateY(-50%)'',
     Decl ''transform'' ''translateY(-50%)'',
     Decl ''right'' ''8px'',
     Decl ''margin'' ''auto'',
     Decl ''text-align'' ''center'',
     Open ''polyline'',
     Decl ''color'' ((if attr e ''variant'' = Some ''dark'' then ''white'' else [])),
     Close]"

text \<open>Drop-down.\<close>

definition Id_css :: "ctx \<Rightarrow> css" where
  "Id_css e =
    [Open ''label'',
     Decl ''box-sizing'' ''border-box'',
     Decl ''min-width'' ''100px'',
     Decl ''outline'' ''none'',
     Decl ''display'' ''inline-block'',
     Decl ''font-family'' (th e [''typography'', ''headings'', ''fontFamily'']),
     Decl ''color'' (th e [''colors'', ''text'', ''primary'']),
     Decl ''vertical-align'' ''bottom'',
     Decl ''width'' ((if flag e ''fullWidth'' then ''100%'' else ''auto'')),
     Decl ''text-transform'' ''none'',
     Decl ''padding'' ''0 22px 0 4px'',
     Decl ''font-size'' ''0.929em'',
     Decl ''line-height'' ''1.5em'',
     Decl ''font-family'' ''inherit'',
     Decl ''text-overflow'' ''ellipsis'',
     Decl ''overflow'' ''hidden'',
     Decl ''white-space'' ''nowrap'',
     Close,
     Open ''.dropdown-select'',
     Decl ''position'' ''absolute'',
     Decl ''top'' ''0'',
     Decl ''left'' ''0'',
     Decl ''width'' ''100%'',
     Decl ''height'' ''100%'',
     Decl ''opacity'' ''0'',
     Decl ''border'' ''none'',
     Decl ''appearance'' ''none'',
     Decl ''cursor'' ''pointer'',
     Decl ''color'' (th e [''colors'', ''text'', ''primary'']),
     Decl ''line-height'' ''inherit'',
     Decl ''font-family'' ''inherit'',
     Close,
     Decl ''box-sizing'' ''border-box'',
     Decl ''min-width'' ''100px'',
     Decl ''outline'' ''none'',
     Decl ''display'' ''inline-block'',
     Decl ''border-radius'' ''2px'',
     Decl ''border'' ''1px solid rgba(38, 50, 56, 0.5)'',
     Decl ''vertical-align'' ''bottom'',
     Decl ''padding'' ''2px 0px 2px 6px'',
     Decl ''position'' ''relative'',
     Decl ''width'' ''auto'',
     Decl ''background'' ''white'',
     Decl ''color'' ''#263238'',
     Decl ''font-family'' (th e [''typography'', ''headings'', ''fontFamily'']),
     Decl ''font-size'' ''0.929em'',
     Decl ''line-height'' ''1.5em'',
     Decl ''cursor'' ''pointer'',
     Decl ''transition'' ''border 0.25s ease, color 0.25s ease, box-shadow 0.25s ease'',
     Open ''&:hover, &:focus-within'',
     Decl ''border'' (''1px solid '' @ th e [''colors'', ''primary'', ''main'']),
     Decl ''color'' (th e [''colors'', ''primary'', ''main'']),
     Decl ''box-shadow'' (''0px 0px 0px 1px '' @ th e [''colors'', ''primary'', ''main'']),
     Close]"

text \<open>Simple drop-down.\<close>

definition Rd_css :: "ctx \<Rightarrow> css" where
  "Rd_css e =
    Id_css e @
    [Decl ''margin-left'' ''10px'',
     Decl ''text-transform'' ''none'',
     Decl ''font-size'' ''0.969em'',
     Decl ''font-size'' ''1em'',
     Decl ''border'' ''none'',
     Decl ''padding'' ''0 1.2em 0 0'',
     Decl ''background'' ''transparent'',
     Open ''&:hover, &:focus-within'',
     Decl ''border'' ''none'',
     Decl ''box-shadow'' ''none'',
     Open ''label'',
     Decl ''color'' (th e [''colors'', ''primary'', ''main'']),
     Decl ''text-shadow'' (''0px 0px 0px '' @ th e [''colors'', ''primary'', ''main'']),
     Close,
     Close]"

text \<open>MIME type label.\<close>

definition Nd_css :: "ctx \<Rightarrow> css" where
  "Nd_css e =
    [Decl ''margin-left'' ''10px'',
     Decl ''text-transform'' ''none'',
     Decl ''font-size'' ''0.929em'',
     Decl ''color'' ''black'']"

text \<open>Links.\<close>

definition Rf_css :: "ctx \<Rightarrow> css" where
  "Rf_css e =
    [Open ''a'',
     Decl ''text-decoration'' (th e [''typography'', ''links'', ''textDecoration'']),
     Decl ''color'' (th e [''typography'', ''links'', ''color'']),
     Open ''&:visited'',
     Decl ''color'' (th e [''typography'', ''links'', ''visited'']),
     Close,
     Open ''&:hover'',
     Decl ''color'' (th e [''typography'', ''links'', ''hover'']),
     Decl ''text-decoration'' (th e [''typography'', ''links'', ''hoverTextDecoration'']),
     Close,
     Close]"

text \<open>Markdown block.\<close>

definition Nf_css :: "ctx \<Rightarrow> css" where
  "Nf_css e =
    Wp_css e @
    [Decl ''font-family'' (th e [''typography'', ''fontFamily'']),
     Decl ''font-weight'' (th e [''typography'', ''fontWeightRegular'']),
     Decl ''line-height'' (th e [''typography'', ''lineHeight'']),
     Open ''p'',
     Open ''&:last-child'',
     Decl ''margin-bottom'' ''0'',
     Close,
     Close] @
    (if flag e ''$compact'' then [Open ''p:first-child'',
       Decl ''margin-top'' ''0'',
       Close,
       Open ''p:last-child'',
       Decl ''margin-bottom'' ''0'',
       Close] else []) @
    (if flag e ''$inline'' then [Open ''p'',
       Decl ''display'' ''inline-block'',
       Close] else []) @
    [Open ''h1''] @
    Mu e 1 @
    [Semi,
     Decl ''color'' (th e [''colors'', ''primary'', ''main'']),
     Decl ''margin-top'' ''0'',
     Close,
     Open ''h2''] @
    Mu e 2 @
    [Semi,
     Decl ''color'' (th e [''colors'', ''text'', ''primary'']),
     Close,
     Open ''code'',
     Decl ''color'' (th e [''typography'', ''code'', ''color'']),
     Decl ''background-color'' (th e [''typography'', ''code'', ''backgroundColor'']),
     Decl ''font-family'' (th e [''typography'', ''code'', ''fontFamily'']),
     Decl ''border-radius'' ''2px'',
     Decl ''border'' ''1px solid rgba(38, 50, 56, 0.1)'',
     Decl ''padding'' (''0 '' @ th e [''spacing'', ''unit''] @ ''px''),
     Decl ''font-size'' (th e [''typography'', ''code'', ''fontSize'']),
     Decl ''font-weight'' (th e [''typography'', ''code'', ''fontWeight'']),
     Decl ''word-break'' ''break-word'',
     Close,
     Open ''pre'',
     Decl ''font-family'' (th e [''typography'', ''code'', ''fontFamily'']),
     Decl ''white-space'' ((if theme_flag e [''typography'', ''code'', ''wrap''] then ''pre-wrap'' else ''pre'')),
     Decl ''background-color'' (th e [''codeBlock'', ''backgroundColor'']),
     Decl ''color'' ''white'',
     Decl ''padding'' (str_num (4 * theme_num e [''spacing'', ''unit'']) @ ''px''),
     Decl ''overflow-x'' ''auto'',
     Decl ''line-height'' ''normal'',
     Decl ''border-radius'' ''0'',
     Decl ''border'' ''1px solid rgba(38, 50, 56, 0.1)'',
     Open ''code'',
     Decl ''background-color'' ''transparent'',
     Decl ''color'' ''white'',
     Decl ''padding'' ''0'',
     Open ''&:before, &:after'',
     Decl ''content'' ''none'',
     Close,
     Close,
     Close,
     Open ''blockquote'',
     Decl ''margin'' ''0'',
     Decl ''margin-bottom'' ''1em'',
     Decl ''padding'' ''0 15px'',
     Decl ''color'' ''#777'',
     Decl ''border-left'' ''4px solid #ddd'',
     Close,
     Open ''img'',
     Decl ''max-width'' ''100%'',
     Decl ''box-sizing'' ''content-box'',
     Close,
     Open ''ul, ol'',
     Decl ''padding-left'' ''2em'',
     Decl ''margin'' ''0'',
     Decl ''margin-bottom'' ''1em'',
     Open ''ul, ol'',
     Decl ''margin-bottom'' ''0'',
     Decl ''margin-top'' ''0'',
     Close,
     Close,
     Open ''table'',
     Decl ''display'' ''block'',
     Decl ''width'' ''100%'',
     Decl ''overflow'' ''auto'',
     Decl ''word-break'' ''normal'',
     Decl ''word-break'' ''keep-all'',
     Decl ''border-collapse'' ''collapse'',
     Decl ''border-spacing'' ''0'',
     Decl ''margin-top'' ''1.5em'',
     Decl ''margin-bottom'' ''1.5em'',
     Close,
     Open ''table tr'',
     Decl ''background-color'' ''#fff'',
     Decl ''border-top'' ''1px solid #ccc'',
     Open ''&:nth-child(2n)'',
     Decl ''background-color'' (th e [''schema'', ''nestedBackground'']),
     Close,
     Close,
     Open ''table th, table td'',
     Decl ''padding'' ''6px 13px'',
     Decl ''border'' ''1px solid #ddd'',
     Close,
     Open ''table th'',
     Decl ''text-align'' ''left'',
     Decl ''font-weight'' ''bold'',
     Close] @
    Gu e ''.share-link'' @
    [Semi] @
    Rf_css e @
    wa e ''Markdown'' @
    [Semi]"

text \<open>Inline markdown.\<close>

definition qf_css :: "ctx \<Rightarrow> css" where
  "qf_css e =
    [Decl ''display'' ''inline'']"

text \<open>Tooltip wrapper.\<close>

definition Hf_css :: "ctx \<Rightarrow> css" where
  "Hf_css e =
    [Decl ''position'' ''relative'']"

text \<open>Tooltip.\<close>

definition Yf_css :: "ctx \<Rightarrow> css" where
  "Yf_css e =
    [Decl ''position'' ''absolute'',
     Decl ''min-width'' ''80px'',
     Decl ''max-width'' ''500px'',
     Decl ''background'' ''#fff'',
     Decl ''bottom'' ''100%'',
     Decl ''left'' ''50%'',
     Decl ''margin-bottom'' ''10px'',
     Decl ''transform'' ''translateX(-50%)'',
     Decl ''border-radius'' ''4px'',
     Decl ''padding'' ''0.3em 0.6em'',
     Decl ''text-align'' ''center'',
     Decl ''box-shadow'' ''0px 0px 5px 0px rgba(204, 204, 204, 1)'']"

text \<open>Tooltip content.\<close>

definition Gf_css :: "ctx \<Rightarrow> css" where
  "Gf_css e =
    [Decl ''background'' ''#fff'',
     Decl ''color'' ''#000'',
     Decl ''display'' ''inline'',
     Decl ''font-size'' ''0.85em'',
     Decl ''white-space'' ''nowrap'']"

text \<open>Tooltip arrow.\<close>

definition Qf_css :: "ctx \<Rightarrow> css" where
  "Qf_css e =
    [Decl ''position'' ''absolute'',
     Decl ''width'' ''0'',
     Decl ''height'' ''0'',
     Decl ''bottom'' ''-5px'',
     Decl ''left'' ''50%'',
     Decl ''margin-left'' ''-5px'',
     Decl ''border-left'' ''solid transparent 5px'',
     Decl ''border-right'' ''solid transparent 5px'',
     Decl ''border-top'' ''solid #fff 5px'']"

text \<open>Tooltip gap.\<close>

definition Xf_css :: "ctx \<Rightarrow> css" where
  "Xf_css e =
    [Decl ''position'' ''absolute'',
     Decl ''width'' ''100%'',
     Decl ''height'' ''20px'',
     Decl ''bottom'' ''-20px'']"

text \<open>JSON viewer.\<close>

definition lh_css :: "ctx \<Rightarrow> css" where
  "lh_css e =
    [Open ''.redoc-json code > .collapser'',
     Decl ''display'' ''none'',
     Decl ''pointer-events'' ''none'',
     Close,
     Decl ''font-family'' (th e [''typography'', ''code'', ''fontFamily'']),
     Decl ''font-size'' (th e [''typography'', ''code'', ''fontSize'']),
     Decl ''white-space'' ((if theme_flag e [''typography'', ''code'', ''wrap''] then ''pre-wrap'' else ''pre'')),
     Decl ''contain'' ''content'',
     Decl ''overflow-x'' ''auto'',
     Open ''.callback-function'',
     Decl ''color'' ''gray'',
     Close,
     Open ''.collapser:after'',
     Decl ''content'' (quoted ''-''),
     Decl ''cursor'' ''pointer'',
     Close,
     Open ''.collapsed > .collapser:after'',
     Decl ''content'' (quoted ''+''),
     Decl ''cursor'' ''pointer'',
     Close,
     Open ''.ellipsis:after'',
     Decl ''content'' (quoted ('' '' @ [CHR 0xE2, CHR 0x80, CHR 0xA6] @ '' '')),
     Close,
     Open ''.collapsible'',
     Decl ''margin-left'' ''2em'',
     Close,
     Open ''.hoverable'',
     Decl ''padding-top'' ''1px'',
     Decl ''padding-bottom'' ''1px'',
     Decl ''padding-left'' ''2px'',
     Decl ''padding-right'' ''2px'',
     Decl ''border-radius'' ''2px'',
     Close,
     Open ''.hovered'',
     Decl ''background-color'' ''rgba(235, 238, 249, 1)'',
     Close,
     Open ''.collapser'',
     Decl ''background-color'' ''transparent'',
     Decl ''border'' ''0'',
     Decl ''color'' ''#fff'',
     Decl ''font-family'' (th e [''typography'', ''code'', ''fontFamily'']),
     Decl ''font-size'' (th e [''typography'', ''code'', ''fontSize'']),
     Decl ''padding-right'' ''6px'',
     Decl ''padding-left'' ''6px'',
     Decl ''padding-top'' ''0'',
     Decl ''padding-bottom'' ''0'',
     Decl ''display'' ''flex'',
     Decl ''align-items'' ''center'',
     Decl ''justify-content'' ''center'',
     Decl ''width'' ''15px'',
     Decl ''height'' ''15px'',
     Decl ''position'' ''absolute'',
     Decl ''top'' ''4px'',
     Decl ''left'' ''-1.5em'',
     Decl ''cursor'' ''default'',
     Decl ''user-select'' ''none'',
     Decl ''-webkit-user-select'' ''none'',
     Decl ''padding'' ''2px'',
     Open ''&:focus'',
     Decl ''outline-color'' ''#fff'',
     Decl ''outline-style'' ''dotted'',
     Decl ''outline-width'' ''1px'',
     Close,
     Close,
     Open ''ul'',
     Decl ''list-style-type'' ''none'',
     Decl ''padding'' ''0px'',
     Decl ''margin'' ''0px 0px 0px 26px'',
     Close,
     Open ''li'',
     Decl ''position'' ''relative'',
     Decl ''display'' ''block'',
     Close,
     Open ''.hoverable'',
     Decl ''display'' ''inline-block'',
     Close,
     Open ''.selected'',
     Decl ''outline-style'' ''solid'',
     Decl ''outline-width'' ''1px'',
     Decl ''outline-style'' ''dotted'',
     Close,
     Open ''.collapsed > .collapsible'',
     Decl ''display'' ''none'',
     Close,
     Open ''.ellipsis'',
     Decl ''display'' ''none'',
     Close,
     Open ''.collapsed > .ellipsis'',
     Decl ''display'' ''inherit'',
     Close]"

text \<open>Wrapper of the JSON viewer.\<close>

definition ch_css :: "ctx \<Rightarrow> css" where
  "ch_css e =
    [Open (''&:hover > '' @ class_of e ''Hp''),
     Decl ''opacity'' ''1'',
     Close]"

text \<open>JSON viewer component.\<close>

definition uh_css :: "ctx \<Rightarrow> css" where
  "uh_css e =
    lh_css e @
    [Semi]"

text \<open>MIME type of a sample.\<close>

definition yh_css :: "ctx \<Rightarrow> css" where
  "yh_css e =
    [Decl ''padding'' ''0.9em'',
     Decl ''background-color'' (Kr e 60 (th e [''rightPanel'', ''backgroundColor''])),
     Decl ''margin'' ''0 0 10px 0'',
     Decl ''display'' ''block'',
     Decl ''font-family'' (th e [''typography'', ''headings'', ''fontFamily'']),
     Decl ''font-size'' ''0.929em'',
     Decl ''line-height'' ''1.5em'']"

text \<open>Label of a sample drop-down.\<close>

definition bh_css :: "ctx \<Rightarrow> css" where
  "bh_css e =
    [Decl ''font-family'' (th e [''typography'', ''headings'', ''fontFamily'']),
     Decl ''font-size'' ''12px'',
     Decl ''position'' ''absolute'',
     Decl ''z-index'' ''1'',
     Decl ''top'' ''-11px'',
     Decl ''left'' ''12px'',
     Decl ''font-weight'' (th e [''typography'', ''fontWeightBold'']),
     Decl ''color'' (Kr e 30 (th e [''rightPanel'', ''textColor'']))]"

text \<open>Wrapper of a sample drop-down.\<close>

definition vh_css :: "ctx \<Rightarrow> css" where
  "vh_css e =
    [Decl ''position'' ''relative'']"

text \<open>Inverted drop-down.\<close>

definition xh_css :: "ctx \<Rightarrow> css" where
  "xh_css e =
    Id_css e @
    [Open ''label'',
     Decl ''color'' (th e [''rightPanel'', ''textColor'']),
     Decl ''text-overflow'' ''ellipsis'',
     Decl ''white-space'' ''nowrap'',
     Decl ''overflow'' ''hidden'',
     Decl ''font-size'' ''1em'',
     Decl ''text-transform'' ''none'',
     Decl ''border'' ''none'',
     Close,
     Decl ''margin'' ''0 0 10px 0'',
     Decl ''display'' ''block'',
     Decl ''background-color'' (Kr e 60 (th e [''rightPanel'', ''backgroundColor''])),
     Decl ''border'' ''none'',
     Decl ''padding'' ''0.9em 1.6em 0.9em 0.9em'',
     Decl ''box-shadow'' ''none'',
     Open ''&:hover, &:focus-within'',
     Decl ''border'' ''none'',
     Decl ''box-shadow'' ''none'',
     Decl ''background-color'' (Kr e 30 (th e [''rightPanel'', ''backgroundColor''])),
     Close]"

text \<open>Missing sample.\<close>

definition wh_css :: "ctx \<Rightarrow> css" where
  "wh_css e =
    [Decl ''font-family'' (th e [''typography'', ''code'', ''fontFamily'']),
     Decl ''font-size'' ''12px'',
     Decl ''color'' ''#ee807f'']"

text \<open>Wrapper of samples.\<close>

definition Sh_css :: "ctx \<Rightarrow> css" where
  "Sh_css e =
    [Decl ''margin-top'' ''15px'']"

text \<open>Cell of a clickable property name.\<close>

definition tm_css :: "ctx \<Rightarrow> css" where
  "tm_css e =
    ip_css e @
    [Open ''&.deprecated'',
     Open ''span.property-name''] @
    ep_css e @
    [Close,
     Close,
     Open ''button'',
     Decl ''background-color'' ''transparent'',
     Decl ''border'' ''0'',
     Decl ''outline'' ''0'',
     Decl ''font-size'' ''13px'',
     Decl ''font-family'' (th e [''typography'', ''code'', ''fontFamily'']),
     Decl ''cursor'' ''pointer'',
     Decl ''padding'' ''0'',
     Decl ''color'' (th e [''colors'', ''text'', ''primary'']),
     Open ''&:focus'',
     Decl ''font-weight'' (th e [''typography'', ''fontWeightBold'']),
     Close] @
    (if attr e ''kind'' = Some ''patternProperties'' then
      [Decl ''display'' ''inline-flex'',
       Decl ''margin-right'' ''20px'',
       Open ''> span.property-name'',
       Decl ''white-space'' ''break-spaces'',
       Decl ''text-align'' ''left'',
       Open ''::before, ::after'',
       Decl ''content'' (quoted ''/''),
       Decl ''filter'' ''opacity(0.2)'',
       Close,
       Close,
       Open ''> svg'',
       Decl ''align-self'' ''center'',
       Close]
    else []) @
    [Close,
     Open (class_of e ''Zu''),
     Decl ''height'' (th e [''schema'', ''arrow'', ''size'']),
     Decl ''width'' (th e [''schema'', ''arrow'', ''size'']),
     Open ''polygon'',
     Decl ''fill'' (th e [''schema'', ''arrow'', ''color'']),
     Close,
     Close]"

text \<open>Label of a field.\<close>

definition nm_css :: "ctx \<Rightarrow> css" where
  "nm_css e =
    [Decl ''vertical-align'' ''middle'',
     Decl ''font-size'' (th e [''typography'', ''code'', ''fontSize'']),
     Decl ''line-height'' ''20px'']"

text \<open>Prefix of a type.\<close>

definition rm_css :: "ctx \<Rightarrow> css" where
  "rm_css e =
    nm_css e @
    [Decl ''color'' (Kr e 10 (th e [''schema'', ''typeNameColor'']))]"

text \<open>Name of a type.\<close>

definition im_css :: "ctx \<Rightarrow> css" where
  "im_css e =
    nm_css e @
    [Decl ''color'' (th e [''schema'', ''typeNameColor''])]"

text \<open>Title of a type.\<close>

definition om_css :: "ctx \<Rightarrow> css" where
  "om_css e =
    nm_css e @
    [Decl ''color'' (th e [''schema'', ''typeTitleColor'']),
     Decl ''word-break'' ''break-word'']"

text \<open>Required label.\<close>

definition sm_css :: "ctx \<Rightarrow> css" where
  "sm_css e =
    nm_css e @
    [Decl ''color'' (th e [''schema'', ''requireLabelColor'']),
     Decl ''font-size'' (th e [''schema'', ''labelsTextSize'']),
     Decl ''font-weight'' ''normal'',
     Decl ''margin-left'' ''20px'',
     Decl ''line-height'' ''1'']"

text \<open>Recursive label.\<close>

definition lm_css :: "ctx \<Rightarrow> css" where
  "lm_css e =
    sm_css e @
    [Decl ''color'' (th e [''colors'', ''primary'', ''light''])]"

text \<open>Label with a warning.\<close>

definition cm_css :: "ctx \<Rightarrow> css" where
  "cm_css e =
    nm_css e @
    [Decl ''color'' (th e [''colors'', ''warning'', ''main'']),
     Decl ''font-size'' ''13px'']"

text \<open>Pattern label.\<close>

definition um_css :: "ctx \<Rightarrow> css" where
  "um_css e =
    nm_css e @
    [Decl ''color'' ''#0e7c86'',
     Open ''&::before, &::after'',
     Decl ''font-weight'' ''bold'',
     Close]"

text \<open>Example value.\<close>

definition pm_css :: "ctx \<Rightarrow> css" where
  "pm_css e =
    nm_css e @
    [Decl ''border-radius'' ''2px'',
     Decl ''word-break'' ''break-word''] @
    ([Decl ''background-color'' (Kr e 95 (th e [''colors'', ''text'', ''primary''])),
       Decl ''color'' (Kr e 10 (th e [''colors'', ''text'', ''primary''])),
       Decl ''padding'' (''0 '' @ th e [''spacing'', ''unit''] @ ''px''),
       Decl ''border'' (''1px solid '' @ Kr e 90 (th e [''colors'', ''text'', ''primary''])),
       Decl ''font-family'' (th e [''typography'', ''code'', ''fontFamily'']),
       Close]) @
    [Semi,
     Open ''& + &'',
     Decl ''margin-left'' ''0'',
     Close] @
    wa e ''ExampleValue'' @
    [Semi]"

text \<open>A constant value is shown like an example.\<close>

definition dm_css :: "ctx \<Rightarrow> css" where
  "dm_css e = pm_css e"

text \<open>Constraint.\<close>

definition fm_css :: "ctx \<Rightarrow> css" where
  "fm_css e =
    nm_css e @
    [Decl ''border-radius'' ''2px''] @
    ([Decl ''background-color'' (Kr e 95 (th e [''colors'', ''primary'', ''light''])),
       Decl ''color'' (Kr e 10 (th e [''colors'', ''primary'', ''main''])),
       Decl ''margin'' (''0 '' @ th e [''spacing'', ''unit''] @ ''px''),
       Decl ''padding'' (''0 '' @ th e [''spacing'', ''unit''] @ ''px''),
       Decl ''border'' (''1px solid '' @ Kr e 90 (th e [''colors'', ''primary'', ''main''])),
       Close]) @
    [Semi,
     Open ''& + &'',
     Decl ''margin-left'' ''0'',
     Close] @
    wa e ''ConstraintItem'' @
    [Semi]"

text \<open>Toggle button.\<close>

definition hm_css :: "ctx \<Rightarrow> css" where
  "hm_css e =
    [Decl ''background-color'' ''transparent'',
     Decl ''border'' ''0'',
     Decl ''color'' (th e [''colors'', ''text'', ''secondary'']),
     Decl ''margin-left'' (th e [''spacing'', ''unit''] @ ''px''),
     Decl ''border-radius'' ''2px'',
     Decl ''cursor'' ''pointer'',
     Decl ''outline-color'' (th e [''colors'', ''text'', ''secondary'']),
     Decl ''font-size'' ''12px'']"

text \<open>External documentation.\<close>

definition mm_css :: "ctx \<Rightarrow> css" where
  "mm_css e =
    Rf_css e @
    [Semi] @
    (if flag e ''$compact'' then [] else [Decl ''margin'' ''1em 0''])"

text \<open>Toggle of enum values.\<close>

definition bm_css :: "ctx \<Rightarrow> css" where
  "bm_css e =
    [Decl ''color'' (th e [''colors'', ''primary'', ''main'']),
     Decl ''vertical-align'' ''middle'',
     Decl ''font-size'' ''13px'',
     Decl ''line-height'' ''20px'',
     Decl ''padding'' ''0 5px'',
     Decl ''cursor'' ''pointer'']"

text \<open>Extension.\<close>

definition vm_css :: "ctx \<Rightarrow> css" where
  "vm_css e =
    Nf_css e @
    [Decl ''margin'' ''2px 0'']"

text \<open>List of examples.\<close>

definition km_css :: "ctx \<Rightarrow> css" where
  "km_css e =
    [Decl ''margin-top'' ''1em'',
     Decl ''list-style-position'' ''outside'']"

text \<open>Separator of a constant.\<close>

definition jm_css :: "ctx \<Rightarrow> css" where
  "jm_css e =
    rm_css e @
    [Decl ''margin'' ''0 5px'',
     Decl ''vertical-align'' ''text-top'']"

text \<open>Padded schema.\<close>

definition eg_css :: "ctx \<Rightarrow> css" where
  "eg_css e =
    [Decl ''padding-left'' (str_num (2 * theme_num e [''spacing'', ''unit'']) @ ''px'')]"

text \<open>Sample panel.\<close>

definition Ig_css :: "ctx \<Rightarrow> css" where
  "Ig_css e =
    [Decl ''background'' (th e [''codeBlock'', ''backgroundColor'']),
     Open ''& > div, & > pre'',
     Decl ''padding'' (str_num (4 * theme_num e [''spacing'', ''unit'']) @ ''px''),
     Decl ''margin'' ''0'',
     Close,
     Open ''& > div > pre'',
     Decl ''padding'' ''0'',
     Close]"

text \<open>Grey box (built and dropped).\<close>

definition anon1221_css :: "ctx \<Rightarrow> css" where
  "anon1221_css e =
    [Decl ''background-color'' ''#e4e7eb'']"

text \<open>Inline list (built and dropped).\<close>

definition anon1223_css :: "ctx \<Rightarrow> css" where
  "anon1223_css e =
    [Decl ''display'' ''inline'',
     Decl ''list-style'' ''none'',
     Decl ''padding'' ''0'',
     Open ''li'',
     Decl ''display'' ''inherit'',
     Open ''&:after'',
     Decl ''content'' (quoted '',''),
     Close,
     Open ''&:last-child:after'',
     Decl ''content'' ''none'',
     Close,
     Close]"

text \<open>Scope name.\<close>

definition Rg_css :: "ctx \<Rightarrow> css" where
  "Rg_css e =
    [Decl ''font-size'' (th e [''typography'', ''code'', ''fontSize'']),
     Decl ''font-family'' (th e [''typography'', ''code'', ''fontFamily'']),
     Decl ''margin'' ''0 3px'',
     Decl ''padding'' ''0.2em'',
     Decl ''display'' ''inline-block'',
     Decl ''line-height'' ''1'',
     Open ''&:after'',
     Decl ''content'' (quoted '',''),
     Decl ''font-weight'' ''normal'',
     Close,
     Open ''&:last-child:after'',
     Decl ''content'' ''none'',
     Close]"

text \<open>Conjunction of security schemes.\<close>

definition Ng_css :: "ctx \<Rightarrow> css" where
  "Ng_css e =
    [Open ''&:after'',
     Decl ''content'' (quoted '' and ''),
     Decl ''font-weight'' ''normal'',
     Close,
     Open ''&:last-child:after'',
     Decl ''content'' ''none'',
     Close] @
    Rf_css e @
    [Semi]"

text \<open>Alternative of security schemes.\<close>

definition Dollar_g_css :: "ctx \<Rightarrow> css" where
  "Dollar_g_css e =
    (if flag e ''$expanded'' then [] else [Decl ''white-space'' ''nowrap'']) @
    [Open ''&:after'',
     Decl ''content'' (quoted '' or '')] @
    (if flag e ''$expanded'' then [Decl ''content'' (quoted ('' or '' @ [CHR 0x5C] @ ''a''))] else []) @
    [Decl ''white-space'' ''pre'',
     Close,
     Open ''&:last-child:after, &:only-child:after'',
     Decl ''content'' ''none'',
     Close] @
    Rf_css e @
    [Semi]"

text \<open>Column of security requirements.\<close>

definition Lg_css :: "ctx \<Rightarrow> css" where
  "Lg_css e =
    [Decl ''flex'' ''1 1 auto'',
     Decl ''cursor'' ''pointer'']"

text \<open>Details of security requirements.\<close>

definition Dg_css :: "ctx \<Rightarrow> css" where
  "Dg_css e =
    [Decl ''width'' (th e [''schema'', ''defaultDetailsWidth'']),
     Decl ''text-overflow'' ''ellipsis'',
     Decl ''border-radius'' ''4px'',
     Decl ''overflow'' ''hidden''] @
    (if flag e ''$expanded'' then [Decl ''background'' (th e [''colors'', ''gray'', ''100'']),
       Decl ''padding'' ''8px 9.6px'',
       Decl ''margin'' ''20px 0'',
       Decl ''width'' ''100%''] else []) @
    [Semi] @
    lessThan e ''small'' False [] ([Decl ''margin-top'' ''10px''])"

text \<open>Header of security requirements.\<close>

definition Mg_css :: "ctx \<Rightarrow> css" where
  "Mg_css e =
    qu_css e @
    [Decl ''display'' ''inline-block'',
     Decl ''margin'' ''0'']"

text \<open>Security requirements.\<close>

definition Fg_css :: "ctx \<Rightarrow> css" where
  "Fg_css e =
    [Decl ''width'' ''100%'',
     Decl ''display'' ''flex'',
     Decl ''margin'' ''1em 0'',
     Decl ''flex-direction'' ((if flag e ''$expanded'' then ''column'' else ''row''))] @
    lessThan e ''small'' False [] ([Decl ''flex-direction'' ''column''])"

text \<open>Row of security details.\<close>

definition zg_css :: "ctx \<Rightarrow> css" where
  "zg_css e =
    [Decl ''margin'' ''0.5em 0'']"

text \<open>Details of a security scheme.\<close>

definition Ug_css :: "ctx \<Rightarrow> css" where
  "Ug_css e =
    [Decl ''border-bottom'' (''1px solid '' @ th e [''colors'', ''border'', ''dark'']),
     Decl ''margin-bottom'' ''1.5em'',
     Decl ''padding-bottom'' ''0.7em'',
     Open ''h5'',
     Decl ''line-height'' ''1em'',
     Decl ''margin'' ''0 0 0.6em'',
     Decl ''font-size'' (th e [''typography'', ''fontSize'']),
     Close,
     Open ''.redoc-markdown p:first-child'',
     Decl ''display'' ''inline'',
     Close]"

text \<open>Collapsible text.\<close>

definition qg_css :: "ctx \<Rightarrow> css" where
  "qg_css e =
    [Decl ''overflow-y'' ''hidden'']"

text \<open>Fade of a collapsible text.\<close>

definition Vg_css :: "ctx \<Rightarrow> css" where
  "Vg_css e =
    [Decl ''text-align'' ''center'',
     Decl ''line-height'' ''1.5em''] @
    (if flag e ''$dimmed'' then [Decl ''background-image'' ''linear-gradient(to bottom, transparent,rgb(255 255 255))'',
       Decl ''position'' ''relative'',
       Decl ''top'' ''-0.5em'',
       Decl ''padding-top'' ''0.5em'',
       Decl ''background-position-y'' ''-1em''] else [])"

text \<open>Link of a collapsible text.\<close>

definition Wg_css :: "ctx \<Rightarrow> css" where
  "Wg_css e =
    [Decl ''cursor'' ''pointer'']"

section \<open>Nesting\<close>

lemma Id_nested [css_nested]: "hook_ok e \<Longrightarrow> nest n (Id_css e) = Some n"
  by (simp add: Id_css_def nest_simps css_nested)

lemma Rf_nested [css_nested]: "hook_ok e \<Longrightarrow> nest n (Rf_css e) = Some n"
  by (simp add: Rf_css_def nest_simps css_nested)

lemma Nf_nested [css_nested]: "hook_ok e \<Longrightarrow> nest n (Nf_css e) = Some n"
  by (simp add: Nf_css_def nest_simps css_nested)

lemma lh_nested [css_nested]: "hook_ok e \<Longrightarrow> nest n (lh_css e) = Some n"
  by (simp add: lh_css_def nest_simps css_nested)

lemma nm_nested [css_nested]: "hook_ok e \<Longrightarrow> nest n (nm_css e) = Some n"
  by (simp add: nm_css_def nest_simps css_nested)

lemma rm_nested [css_nested]: "hook_ok e \<Longrightarrow> nest n (rm_css e) = Some n"
  by (simp add: rm_css_def nest_simps css_nested)

lemma sm_nested [css_nested]: "hook_ok e \<Longrightarrow> nest n (sm_css e) = Some n"
  by (simp add: sm_css_def nest_simps css_nested)

lemma redoc_styles_content_nested_1 [css_nested]:
  assumes "hook_ok e"
  shows "nest n (Ad_css e) = Some n"
    "nest n (Pd_css e) = Some n"
    "nest n (Rd_css e) = Some n"
    "nest n (Nd_css e) = Some n"
    "nest n (qf_css e) = Some n"
    "nest n (Hf_css e) = Some n"
    "nest n (Yf_css e) = Some n"
    "nest n (Gf_css e) = Some n"
    "nest n (Qf_css e) = Some n"
    "nest n (Xf_css e) = Some n"
    "nest n (ch_css e) = Some n"
    "nest n (uh_css e) = Some n"
  using assms
  by (simp_all add: nest_simps css_nested
      Ad_css_def Pd_css_def Rd_css_def Nd_css_def qf_css_def Hf_css_def Yf_css_def Gf_css_def Qf_css_def Xf_css_def ch_css_def uh_css_def)

lemma redoc_styles_content_nested_2 [css_nested]:
  assumes "hook_ok e"
  shows "nest n (yh_css e) = Some n"
    "nest n (bh_css e) = Some n"
    "nest n (vh_css e) = Some n"
    "nest n (xh_css e) = Some n"
    "nest n (wh_css e) = Some n"
    "nest n (Sh_css e) = Some n"
    "nest n (tm_css e) = Some n"
    "nest n (im_css e) = Some n"
    "nest n (om_css e) = Some n"
    "nest n (lm_css e) = Some n"
    "nest n (cm_css e) = Some n"
    "nest n (um_css e) = Some n"
  using assms
  by (simp_all add: nest_simps css_nested
      yh_css_def bh_css_def vh_css_def xh_css_def wh_css_def Sh_css_def tm_css_def im_css_def om_css_def lm_css_def cm_css_def um_css_def)

lemma redoc_styles_content_nested_3 [css_nested]:
  assumes "hook_ok e"
  shows "nest n (hm_css e) = Some n"
    "nest n (mm_css e) = Some n"
    "nest n (bm_css e) = Some n"
    "nest n (vm_css e) = Some n"
    "nest n (km_css e) = Some n"
    "nest n (jm_css e) = Some n"
    "nest n (eg_css e) = Some n"
    "nest n (Ig_css e) = Some n"
    "nest n (anon1221_css e) = Some n"
    "nest n (anon1223_css e) = Some n"
    "nest n (Rg_css e) = Some n"
    "nest n (Ng_css e) = Some n"
  using assms
  by (simp_all add: nest_simps css_nested
      hm_css_def mm_css_def bm_css_def vm_css_def km_css_def jm_css_def eg_css_def Ig_css_def anon1221_css_def anon1223_css_def Rg_css_def Ng_css_def)

lemma redoc_styles_content_nested_4 [css_nested]:
  assumes "hook_ok e"
  shows "nest n (Dollar_g_css e) = Some n"
    "nest n (Lg_css e) = Some n"
    "nest n (Dg_css e) = Some n"
    "nest n (Mg_css e) = Some n"
    "nest n (Fg_css e) = Some n"
    "nest n (zg_css e) = Some n"
    "nest n (Ug_css e) = Some n"
    "nest n (qg_css e) = Some n"
    "nest n (Vg_css e) = Some n"
    "nest n (Wg_css e) = Some n"
  using assms
  by (simp_all add: nest_simps css_nested
      Dollar_g_css_def Lg_css_def Dg_css_def Mg_css_def Fg_css_def zg_css_def Ug_css_def qg_css_def Vg_css_def Wg_css_def)

section \<open>Catalogue\<close>

text \<open>The components of this theory with their names in the bundle.\<close>

definition content_styles :: "(string \<times> (ctx \<Rightarrow> css)) list" where
  "content_styles =
    [(''Ad'', Ad_css), (''Pd'', Pd_css), (''Id'', Id_css), (''Rd'', Rd_css), (''Nd'', Nd_css),
     (''Rf'', Rf_css), (''Nf'', Nf_css), (''qf'', qf_css), (''Hf'', Hf_css), (''Yf'', Yf_css),
     (''Gf'', Gf_css), (''Qf'', Qf_css), (''Xf'', Xf_css), (''lh'', lh_css), (''ch'', ch_css),
     (''uh'', uh_css), (''yh'', yh_css), (''bh'', bh_css), (''vh'', vh_css), (''xh'', xh_css),
     (''wh'', wh_css), (''Sh'', Sh_css), (''tm'', tm_css), (''nm'', nm_css), (''rm'', rm_css),
     (''im'', im_css), (''om'', om_css), (''sm'', sm_css), (''lm'', lm_css), (''cm'', cm_css),
     (''um'', um_css), (''pm'', pm_css), (''dm'', dm_css), (''fm'', fm_css), (''hm'', hm_css),
     (''mm'', mm_css), (''bm'', bm_css), (''vm'', vm_css), (''km'', km_css), (''jm'', jm_css),
     (''eg'', eg_css), (''Ig'', Ig_css), (''anon1221'', anon1221_css), (''anon1223'', anon1223_css), (''Rg'', Rg_css),
     (''Ng'', Ng_css), (''$g'', Dollar_g_css), (''Lg'', Lg_css), (''Dg'', Dg_css), (''Mg'', Mg_css),
     (''Fg'', Fg_css), (''zg'', zg_css), (''Ug'', Ug_css), (''qg'', qg_css), (''Vg'', Vg_css),
     (''Wg'', Wg_css)]"

end
