(* ===== verification/Redoc_Styles_Page.thy ===== *)
theory Redoc_Styles_Page
  imports Redoc_Styles_Content
begin

text \<open>
  Styled components of the ReDoc bundle: the API information, menu, operations, responses, sidebar, page and search. Each definition
  is one template literal, token by token; a component that extends another has its tokens after
  those of the base.
\<close>

text \<open>API header.\<close>

definition Zg_css :: "ctx \<Rightarrow> css" where
  "Zg_css e =
    Fu_css e @
    [Decl ''margin-top'' ''0'',
     Decl ''margin-bottom'' ''0.5em''] @
    wa e ''ApiHeader'' @
    [Semi]"

text \<open>Download button.\<close>

definition Jg_css :: "ctx \<Rightarrow> css" where
  "Jg_css e =
    [Decl ''border'' (''1px solid '' @ th e [''colors'', ''primary'', ''main'']),
     Decl ''color'' (th e [''colors'', ''primary'', ''main'']),
     Decl ''font-weight'' ''normal'',
     Decl ''margin-left'' ''0.5em'',
     Decl ''padding'' ''4px 8px 4px'',
     Decl ''display'' ''inline-block'',
     Decl ''text-decoration'' ''none'',
     Decl ''cursor'' ''pointer''] @
    wa e ''DownloadButton'' @
    [Semi]"

text \<open>Item of the API information.\<close>

definition ey_css :: "ctx \<Rightarrow> css" where
  "ey_css e =
    [Open ''&::before'',
     Decl ''content'' (quoted ''|''),
     Decl ''display'' ''inline-block'',
     Decl ''opacity'' ''0.5'',
     Decl ''width'' (''15'' @ ''px''),
     Decl ''text-align'' ''center'',
     Close,
     Open ''&:last-child::after'',
     Decl ''display'' ''none'',
     Close]"

text \<open>Wrapper of the API information.\<close>

definition ty_css :: "ctx \<Rightarrow> css" where
  "ty_css e =
    [Decl ''overflow'' ''hidden'']"

text \<open>List of the API information.\<close>

definition ny_css :: "ctx \<Rightarrow> css" where
  "ny_css e =
    [Decl ''display'' ''flex'',
     Decl ''flex-wrap'' ''wrap'',
     Comment ''hide separator on new lines: idea from https://stackoverflow.com/a/31732902/1749888'',
     Decl ''margin-left'' (''-'' @ ''15'' @ ''px'')]"

text \<open>Logo.\<close>

definition iy_css :: "ctx \<Rightarrow> css" where
  "iy_css e =
    [Decl ''max-height'' (th e [''logo'', ''maxHeight'']),
     Decl ''max-width'' (th e [''logo'', ''maxWidth'']),
     Decl ''padding'' (th e [''logo'', ''gutter'']),
     Decl ''width'' ''100%'',
     Decl ''display'' ''block'']"

text \<open>Wrapper of the logo.\<close>

definition oy_css :: "ctx \<Rightarrow> css" where
  "oy_css e =
    [Decl ''text-align'' ''center'']"

text \<open>Link of the logo.\<close>

definition ay_css :: "ctx \<Rightarrow> css" where
  "ay_css e =
    [Decl ''display'' ''inline-block'']"

text \<open>Badge of an operation.\<close>

definition gy_css :: "ctx \<Rightarrow> css" where
  "gy_css e =
    [Decl ''width'' ''9ex'',
     Decl ''display'' ''inline-block'',
     Decl ''height'' (th e [''typography'', ''code'', ''fontSize'']),
     Decl ''line-height'' (th e [''typography'', ''code'', ''fontSize'']),
     Decl ''background-color'' ''#333'',
     Decl ''border-radius'' ''3px'',
     Decl ''background-repeat'' ''no-repeat'',
     Decl ''background-position'' ''6px 4px'',
     Decl ''font-size'' ''7px'',
     Decl ''font-family'' ''Verdana, sans-serif'',
     Comment ''web-safe'',
     Decl ''color'' ''white'',
     Decl ''text-transform'' ''uppercase'',
     Decl ''text-align'' ''center'',
     Decl ''font-weight'' ''bold'',
     Decl ''vertical-align'' ''middle'',
     Decl ''margin-right'' ''6px'',
     Decl ''margin-top'' ''2px'',
     Open ''&.get'',
     Decl ''background-color'' (th e [''colors'', ''http'', ''get'']),
     Close,
     Open ''&.post'',
     Decl ''background-color'' (th e [''colors'', ''http'', ''post'']),
     Close,
     Open ''&.put'',
     Decl ''background-color'' (th e [''colors'', ''http'', ''put'']),
     Close,
     Open ''&.options'',
     Decl ''background-color'' (th e [''colors'', ''http'', ''options'']),
     Close,
     Open ''&.patch'',
     Decl ''background-color'' (th e [''colors'', ''http'', ''patch'']),
     Close,
     Open ''&.delete'',
     Decl ''background-color'' (th e [''colors'', ''http'', ''delete'']),
     Close,
     Open ''&.basic'',
     Decl ''background-color'' (th e [''colors'', ''http'', ''basic'']),
     Close,
     Open ''&.link'',
     Decl ''background-color'' (th e [''colors'', ''http'', ''link'']),
     Close,
     Open ''&.head'',
     Decl ''background-color'' (th e [''colors'', ''http'', ''head'']),
     Close,
     Open ''&.hook'',
     Decl ''background-color'' (th e [''colors'', ''primary'', ''main'']),
     Close,
     Open ''&.schema'',
     Decl ''background-color'' (th e [''colors'', ''http'', ''basic'']),
     Close]"

text \<open>Menu items.\<close>

definition by_css :: "ctx \<Rightarrow> css" where
  "by_css e =
    [Decl ''margin'' ''0'',
     Decl ''padding'' ''0'',
     Open ''&:first-child'',
     Decl ''padding-bottom'' ''32px'',
     Close,
     Open ''& &'',
     Decl ''font-size'' ''0.929em'',
     Close] @
    (if flag e ''$expanded'' then [] else [Decl ''display'' ''none'']) @
    [Semi]"

text \<open>Menu item.\<close>

definition vy_css :: "ctx \<Rightarrow> css" where
  "vy_css e =
    [Decl ''list-style'' ''none inside none'',
     Decl ''overflow'' ''hidden'',
     Decl ''text-overflow'' ''ellipsis'',
     Decl ''padding'' ''0''] @
    (if attr_num e ''depth'' = Some 0 then [Decl ''margin-top'' ''15px''] else []) @
    [Semi]"

text \<open>The style by depth of a menu item; other depths have none.\<close>

definition xy :: "ctx \<Rightarrow> int option \<Rightarrow> css" where
  "xy e depth =
    (if depth = Some 0 then
    [Decl ''opacity'' ''0.7'',
     Decl ''text-transform'' (th e [''sidebar'', ''groupItems'', ''textTransform'']),
     Decl ''font-size'' ''0.8em'',
     Decl ''padding-bottom'' ''0'',
     Decl ''cursor'' ''default'']
    else if depth = Some 1 then
    [Decl ''font-size'' ''0.929em'',
     Decl ''text-transform'' (th e [''sidebar'', ''level1Items'', ''textTransform''])]
    else [])"

text \<open>Label of a menu item.\<close>

definition wy_css :: "ctx \<Rightarrow> css" where
  "wy_css e =
    [Decl ''cursor'' ''pointer'',
     Decl ''color'' ((if flag e ''$active'' then yy (num e ''$depth'') e ''activeTextColor'' else th e [''sidebar'', ''textColor''])),
     Decl ''margin'' ''0'',
     Decl ''padding'' (''12.5px '' @ str_num (4 * theme_num e [''spacing'', ''unit'']) @ ''px'')] @
    (if attr e ''$type'' = Some ''section'' \<and> 1 < num e ''$depth''
     then [Decl ''padding-left'' (unit_px e 8)] else []) @
    [Decl ''display'' ''flex'',
     Decl ''justify-content'' ''space-between'',
     Decl ''font-family'' (th e [''typography'', ''headings'', ''fontFamily''])] @
    xy e (attr_num e ''$depth'') @
    [Semi,
     Decl ''background-color'' ((if flag e ''$active'' then yy (num e ''$depth'') e ''activeBackgroundColor'' else th e [''sidebar'', ''backgroundColor'']))] @
    (if flag e ''$deprecated'' then ep_css e else []) @
    [Semi,
     Open ''&:hover'',
     Decl ''color'' (yy (num e ''$depth'') e ''activeTextColor''),
     Decl ''background-color'' (yy (num e ''$depth'') e ''activeBackgroundColor''),
     Close,
     Open (class_of e ''Zu''),
     Decl ''height'' (th e [''sidebar'', ''arrow'', ''size'']),
     Decl ''width'' (th e [''sidebar'', ''arrow'', ''size'']),
     Open ''polygon'',
     Decl ''fill'' (th e [''sidebar'', ''arrow'', ''color'']),
     Close,
     Close]"

text \<open>Title of a menu item.\<close>

definition ky_css :: "ctx \<Rightarrow> css" where
  "ky_css e =
    [Decl ''display'' ''inline-block'',
     Decl ''vertical-align'' ''middle'',
     Decl ''width'' (str_or (attr e ''width'') ''auto''),
     Decl ''overflow'' ''hidden'',
     Decl ''text-overflow'' ''ellipsis'']"

text \<open>Attribution.\<close>

definition Sy_css :: "ctx \<Rightarrow> css" where
  "Sy_css e =
    ([Decl ''font-size'' ''0.8em'',
       Decl ''margin-top'' (str_num (2 * theme_num e [''spacing'', ''unit'']) @ ''px''),
       Decl ''text-align'' ''center'',
       Decl ''position'' ''fixed'',
       Decl ''width'' (th e [''sidebar'', ''width'']),
       Decl ''bottom'' ''0'',
       Decl ''background'' (th e [''sidebar'', ''backgroundColor'']),
       Open ''a, a:visited, a:hover'',
       Decl ''color'' (th e [''sidebar'', ''textColor''] @ '' !important''),
       Decl ''padding'' (th e [''spacing'', ''unit''] @ ''px 0''),
       Decl ''border-top'' (''1px solid '' @ Ur e 10 (th e [''sidebar'', ''backgroundColor''])),
       Decl ''text-decoration'' ''none'',
       Decl ''display'' ''flex'',
       Decl ''align-items'' ''center'',
       Decl ''justify-content'' ''center'',
       Close]) @
    [Semi,
     Open ''img'',
     Decl ''width'' ''15px'',
     Decl ''margin-right'' ''5px'',
     Close] @
    lessThan e ''small'' False [] ([Decl ''width'' ''100%'']) @
    [Semi]"

text \<open>Header of a callback.\<close>

definition Oy_css :: "ctx \<Rightarrow> css" where
  "Oy_css e =
    [Decl ''border'' ''0'',
     Decl ''width'' ''100%'',
     Decl ''text-align'' ''left'',
     Open ''& > *'',
     Decl ''vertical-align'' ''middle'',
     Close,
     Open (class_of e ''Zu''),
     Open ''polygon'',
     Decl ''fill'' (Ur e (theme_num e [''colors'', ''tonalOffset'']) (th e [''colors'', ''gray'', ''100''])),
     Close,
     Close]"

text \<open>Name of a callback.\<close>

definition Ey_css :: "ctx \<Rightarrow> css" where
  "Ey_css e =
    [Decl ''text-decoration'' ((if flag e ''$deprecated'' then ''line-through'' else ''none'')),
     Decl ''margin-right'' ''8px'']"

text \<open>Badge of a callback.\<close>

definition Badge_y_css :: "ctx \<Rightarrow> css" where
  "Badge_y_css e =
    gy_css e @
    [Decl ''margin'' ''0 5px 0 0'']"

text \<open>Title of a callback.\<close>

definition Ay_css :: "ctx \<Rightarrow> css" where
  "Ay_css e =
    [Decl ''padding'' ''10px'',
     Decl ''border-radius'' ''2px'',
     Decl ''margin-bottom'' ''4px'',
     Decl ''line-height'' ''1.5em'',
     Decl ''background-color'' (th e [''colors'', ''gray'', ''100'']),
     Decl ''cursor'' ''pointer'',
     Decl ''outline-color'' (Ur e (theme_num e [''colors'', ''tonalOffset'']) (th e [''colors'', ''gray'', ''100'']))]"

text \<open>Details of a callback.\<close>

definition jy_css :: "ctx \<Rightarrow> css" where
  "jy_css e =
    [Decl ''padding'' ''10px 25px'',
     Decl ''background-color'' (th e [''colors'', ''gray'', ''50'']),
     Decl ''margin-bottom'' ''5px'',
     Decl ''margin-top'' ''5px'']"

text \<open>Endpoint.\<close>

definition Py_css :: "ctx \<Rightarrow> css" where
  "Py_css e =
    [Decl ''cursor'' ''pointer'',
     Decl ''position'' ''relative'',
     Decl ''margin-bottom'' ''5px'']"

text \<open>Relative path of a server.\<close>

definition Ty_css :: "ctx \<Rightarrow> css" where
  "Ty_css e =
    [Decl ''font-family'' (th e [''typography'', ''code'', ''fontFamily'']),
     Decl ''margin-left'' ''10px'',
     Decl ''flex'' ''1'',
     Decl ''overflow-x'' ''hidden'',
     Decl ''text-overflow'' ''ellipsis'']"

text \<open>Endpoint info.\<close>

definition Iy_css :: "ctx \<Rightarrow> css" where
  "Iy_css e =
    [Decl ''outline'' ''0'',
     Decl ''color'' ''inherit'',
     Decl ''width'' ''100%'',
     Decl ''text-align'' ''left'',
     Decl ''cursor'' ''pointer'',
     Decl ''padding'' (''10px 30px 10px '' @ (if flag e ''$inverted'' then ''10px'' else ''20px'')),
     Decl ''border-radius'' ((if flag e ''$inverted'' then ''0'' else ''4px 4px 0 0'')),
     Decl ''background-color'' ((if flag e ''$inverted'' then ''transparent'' else th e [''codeBlock'', ''backgroundColor''])),
     Decl ''display'' ''flex'',
     Decl ''white-space'' ''nowrap'',
     Decl ''align-items'' ''center'',
     Decl ''border'' ((if flag e ''$inverted'' then ''0'' else ''1px solid transparent'')),
     Decl ''border-bottom'' ((if flag e ''$inverted'' then ''1px solid #ccc'' else ''0'')),
     Decl ''transition'' ''border-color 0.25s ease''] @
    (if flag e ''$expanded'' \<and> \<not> flag e ''$inverted''
     then [Decl ''border-color'' (th e [''colors'', ''border'', ''dark''])] else []) @
    [Open (''.'' @ class_of e ''Ty''),
     Decl ''color'' ((if flag e ''$inverted'' then th e [''colors'', ''text'', ''primary''] else ''#ffffff'')),
     Close,
     Open ''&:focus'',
     Decl ''box-shadow'' ''inset 0 2px 2px rgba(0, 0, 0, 0.45), 0 2px 0 rgba(128, 128, 128, 0.25)'',
     Close]"

text \<open>HTTP verb.\<close>

definition Ry_css :: "ctx \<Rightarrow> css" where
  "Ry_css e =
    [Decl ''font-size'' ((if flag e ''$compact'' then ''0.8em'' else ''0.929em'')),
     Decl ''line-height'' ((if flag e ''$compact'' then ''18px'' else ''20px'')),
     Decl ''background-color'' (str_or (Some (th e [''colors'', ''http'', attr_key e ''type''])) ''#999999''),
     Decl ''color'' ''#ffffff'',
     Decl ''padding'' ((if flag e ''$compact'' then ''2px 8px'' else ''3px 10px'')),
     Decl ''text-transform'' ''uppercase'',
     Decl ''font-family'' (th e [''typography'', ''headings'', ''fontFamily'']),
     Decl ''margin'' ''0'']"

text \<open>Overlay of the servers.\<close>

definition Ny_css :: "ctx \<Rightarrow> css" where
  "Ny_css e =
    [Decl ''position'' ''absolute'',
     Decl ''width'' ''100%'',
     Decl ''z-index'' ''100'',
     Decl ''background'' (th e [''rightPanel'', ''servers'', ''overlay'', ''backgroundColor'']),
     Decl ''color'' (th e [''rightPanel'', ''servers'', ''overlay'', ''textColor'']),
     Decl ''box-sizing'' ''border-box'',
     Decl ''box-shadow'' ''0 0 6px rgba(0, 0, 0, 0.33)'',
     Decl ''overflow'' ''hidden'',
     Decl ''border-bottom-left-radius'' ''4px'',
     Decl ''border-bottom-right-radius'' ''4px'',
     Decl ''transition'' ''all 0.25s ease'',
     Decl ''visibility'' ''hidden''] @
    (if flag e ''$expanded'' then [Decl ''visibility'' ''visible''] else [Decl ''transform'' ''translateY(-50%) scaleY(0)''])"

text \<open>Item of the servers.\<close>

definition DollarBadge_y_css :: "ctx \<Rightarrow> css" where
  "DollarBadge_y_css e =
    [Decl ''padding'' ''10px'']"

text \<open>URL of a server.\<close>

definition Ly_css :: "ctx \<Rightarrow> css" where
  "Ly_css e =
    [Decl ''padding'' ''5px'',
     Decl ''border'' ''1px solid #ccc'',
     Decl ''background'' (th e [''rightPanel'', ''servers'', ''url'', ''backgroundColor'']),
     Decl ''word-break'' ''break-all'',
     Decl ''color'' (th e [''colors'', ''primary'', ''main'']),
     Open ''> span'',
     Decl ''color'' (th e [''colors'', ''text'', ''primary'']),
     Close]"

text \<open>Shared by the labels of a request body.\<close>

definition Ky_css :: "ctx \<Rightarrow> css" where
  "Ky_css e =
    [Decl ''text-transform'' ''lowercase'',
     Decl ''margin-left'' ''0'',
     Decl ''line-height'' ''1.5em'']"

text \<open>Required label of a body.\<close>

definition Zy_css :: "ctx \<Rightarrow> css" where
  "Zy_css e =
    sm_css e @
    Ky_css e"

text \<open>Optional label of a body.\<close>

definition Jy_css :: "ctx \<Rightarrow> css" where
  "Jy_css e =
    Ky_css e @
    [Decl ''color'' (th e [''colors'', ''text'', ''secondary'']),
     Decl ''font-size'' (th e [''schema'', ''labelsTextSize''])]"

text \<open>Title of a response.\<close>

definition eb_css :: "ctx \<Rightarrow> css" where
  "eb_css e =
    [Decl ''display'' ''block'',
     Decl ''border'' ''0'',
     Decl ''width'' ''100%'',
     Decl ''text-align'' ''left'',
     Decl ''padding'' ''10px'',
     Decl ''border-radius'' ''2px'',
     Decl ''margin-bottom'' ''4px'',
     Decl ''line-height'' ''1.5em'',
     Decl ''cursor'' ''pointer'',
     Decl ''color'' (th e [''colors'', ''responses'', attr_key e ''type'', ''color'']),
     Decl ''background-color'' (th e [''colors'', ''responses'', attr_key e ''type'', ''backgroundColor'']),
     Open ''&:focus'',
     Decl ''outline'' (''auto '' @ th e [''colors'', ''responses'', attr_key e ''type'', ''color'']),
     Close] @
    (if flag e ''empty'' then [Decl ''cursor'' ''default'',
       Open ''&::before'',
       Decl ''content'' ([CHR 0x22] @ [CHR 0xE2, CHR 0x80, CHR 0x94] @ [CHR 0x22]),
       Decl ''font-weight'' ''bold'',
       Decl ''width'' ''1.5em'',
       Decl ''text-align'' ''center'',
       Decl ''display'' ''inline-block'',
       Decl ''vertical-align'' ''top'',
       Close,
       Open ''&:focus'',
       Decl ''outline'' ''0'',
       Close] else []) @
    [Semi]"

text \<open>Details of a response.\<close>

definition tb_css :: "ctx \<Rightarrow> css" where
  "tb_css e =
    [Decl ''padding'' ''10px'']"

text \<open>Caption of response headers.\<close>

definition nb_css :: "ctx \<Rightarrow> css" where
  "nb_css e =
    qu_css e @
    [Decl ''text-align'' ''left'',
     Decl ''margin-top'' ''1em'',
     Decl ''caption-side'' ''top'']"

text \<open>Code of a response.\<close>

definition rb_css :: "ctx \<Rightarrow> css" where
  "rb_css e =
    [Decl ''vertical-align'' ''top'']"

text \<open>Header of the responses.\<close>

definition db_css :: "ctx \<Rightarrow> css" where
  "db_css e =
    [Decl ''font-size'' ''1.3em'',
     Decl ''padding'' ''0.2em 0'',
     Decl ''margin'' ''3em 0 1.1em'',
     Decl ''color'' (th e [''colors'', ''text'', ''primary'']),
     Decl ''font-weight'' ''normal'']"

text \<open>Wrapper of a callback.\<close>

definition xb_css :: "ctx \<Rightarrow> css" where
  "xb_css e =
    [Decl ''margin-bottom'' (str_num (3 * theme_num e [''spacing'', ''unit'']) @ ''px'')]"

text \<open>Header of the callbacks.\<close>

definition Sb_css :: "ctx \<Rightarrow> css" where
  "Sb_css e =
    [Decl ''font-size'' ''1.3em'',
     Decl ''padding'' ''0.2em 0'',
     Decl ''margin'' ''3em 0 1.1em'',
     Decl ''color'' (th e [''colors'', ''text'', ''primary'']),
     Decl ''font-weight'' ''normal'']"

text \<open>Wrapper of payload samples.\<close>

definition Nb_css :: "ctx \<Rightarrow> css" where
  "Nb_css e =
    [Decl ''margin-top'' ''15px'']"

text \<open>Callback sample.\<close>

definition qb_css :: "ctx \<Rightarrow> css" where
  "qb_css e =
    [Decl ''background'' (th e [''codeBlock'', ''backgroundColor'']),
     Decl ''padding'' (str_num (4 * theme_num e [''spacing'', ''unit'']) @ ''px'')]"

text \<open>Description of an operation.\<close>

definition Jb_css :: "ctx \<Rightarrow> css" where
  "Jb_css e =
    [Decl ''margin-bottom'' (str_num (6 * theme_num e [''spacing'', ''unit'']) @ ''px'')]"

text \<open>Icon of the floating button.\<close>

definition Iv_css :: "ctx \<Rightarrow> css" where
  "Iv_css e =
    [Decl ''user-select'' ''none'',
     Decl ''width'' ''20px'',
     Decl ''height'' ''20px'',
     Decl ''align-self'' ''center'',
     Decl ''display'' ''flex'',
     Decl ''flex-direction'' ''column'',
     Decl ''color'' (th e [''colors'', ''primary'', ''main''])]"

text \<open>Sidebar.\<close>

definition Dollar_v_css :: "ctx \<Rightarrow> css" where
  "Dollar_v_css e =
    [Decl ''width'' (th e [''sidebar'', ''width'']),
     Decl ''background-color'' (th e [''sidebar'', ''backgroundColor'']),
     Decl ''overflow'' ''hidden'',
     Decl ''display'' ''flex'',
     Decl ''flex-direction'' ''column'',
     Decl ''backface-visibility'' ''hidden'',
     Comment ''contain: strict; TODO: breaks layout since Chrome 80'',
     Decl ''height'' ''100vh'',
     Decl ''position'' ''sticky'',
     Decl ''position'' ''-webkit-sticky'',
     Decl ''top'' ''0''] @
    lessThan e ''small'' False [] ([Decl ''position'' ''fixed'',
       Decl ''z-index'' ''20'',
       Decl ''width'' ''100%'',
       Decl ''background'' (th e [''sidebar'', ''backgroundColor'']),
       Decl ''display'' ((if flag e ''$open'' then ''flex'' else ''none''))]) @
    [Semi,
     Open ''@media print'',
     Decl ''display'' ''none'',
     Close]"

text \<open>Floating button.\<close>

definition Lv_css :: "ctx \<Rightarrow> css" where
  "Lv_css e =
    [Decl ''outline'' ''none'',
     Decl ''user-select'' ''none'',
     Decl ''background-color'' (th e [''fab'', ''backgroundColor'']),
     Decl ''color'' (th e [''colors'', ''primary'', ''main'']),
     Decl ''display'' ''none'',
     Decl ''cursor'' ''pointer'',
     Decl ''position'' ''fixed'',
     Decl ''right'' ''20px'',
     Decl ''z-index'' ''100'',
     Decl ''border-radius'' ''50%'',
     Decl ''box-shadow'' ''0 0 20px rgba(0, 0, 0, 0.3)''] @
    lessThan e ''small'' False [] ([Decl ''display'' ''flex'']) @
    [Semi,
     Decl ''bottom'' ''44px'',
     Decl ''width'' ''60px'',
     Decl ''height'' ''60px'',
     Decl ''padding'' ''0 20px'',
     Open ''svg'',
     Decl ''color'' (th e [''fab'', ''color'']),
     Close,
     Open ''@media print'',
     Decl ''display'' ''none'',
     Close]"

text \<open>The page.\<close>

definition Mv_css :: "ctx \<Rightarrow> css" where
  "Mv_css e =
    ([Decl ''font-family'' (th e [''typography'', ''fontFamily'']),
       Decl ''font-size'' (th e [''typography'', ''fontSize'']),
       Decl ''font-weight'' (th e [''typography'', ''fontWeightRegular'']),
       Decl ''line-height'' (th e [''typography'', ''lineHeight'']),
       Decl ''color'' (th e [''colors'', ''text'', ''primary'']),
       Decl ''display'' ''flex'',
       Decl ''position'' ''relative'',
       Decl ''text-align'' ''left'',
       Decl ''-webkit-font-smoothing'' (th e [''typography'', ''smoothing'']),
       Decl ''font-smoothing'' (th e [''typography'', ''smoothing''])] @
      (if theme_flag e [''typography'', ''optimizeSpeed''] then [Decl ''text-rendering'' ''optimizeSpeed !important''] else []) @
      [Semi,
       Decl ''tap-highlight-color'' ''rgba(0, 0, 0, 0)'',
       Decl ''text-size-adjust'' ''100%'',
       Open ''*'',
       Decl ''box-sizing'' ''border-box'',
       Decl ''-webkit-tap-highlight-color'' ''rgba(255, 255, 255, 0)'',
       Close]) @
    [Semi]"

text \<open>Content.\<close>

definition Fv_css :: "ctx \<Rightarrow> css" where
  "Fv_css e =
    [Decl ''z-index'' ''1'',
     Decl ''position'' ''relative'',
     Decl ''overflow'' ''hidden'',
     Decl ''width'' (''calc(100% - '' @ th e [''sidebar'', ''width''] @ '')'')] @
    lessThan e ''small'' True [] ([Decl ''width'' ''100%'']) @
    [Semi,
     Decl ''contain'' ''layout'']"

text \<open>Background of the right column.\<close>

definition zv_css :: "ctx \<Rightarrow> css" where
  "zv_css e =
    [Decl ''background'' (th e [''rightPanel'', ''backgroundColor'']),
     Decl ''position'' ''absolute'',
     Decl ''top'' ''0'',
     Decl ''bottom'' ''0'',
     Decl ''right'' ''0'',
     Decl ''width'' (right_background_width e)] @
    lessThan e ''medium'' True [] ([Decl ''display'' ''none'']) @
    [Semi]"

text \<open>Search box.\<close>

definition Uv_css :: "ctx \<Rightarrow> css" where
  "Uv_css e =
    [Decl ''padding'' ''5px 0'']"

text \<open>Search input.\<close>

definition Bv_css :: "ctx \<Rightarrow> css" where
  "Bv_css e =
    [Decl ''width'' (''calc(100% - '' @ str_num (8 * theme_num e [''spacing'', ''unit'']) @ ''px)''),
     Decl ''box-sizing'' ''border-box'',
     Decl ''margin'' (''0 '' @ str_num (4 * theme_num e [''spacing'', ''unit'']) @ ''px''),
     Decl ''padding'' (''5px '' @ str_num (2 * theme_num e [''spacing'', ''unit'']) @ ''px 5px '' @
         str_num (4 * theme_num e [''spacing'', ''unit'']) @ ''px''),
     Decl ''border'' ''0'',
     Decl ''border-bottom'' (''1px solid '' @
         (if 500 < Vr e (th e [''sidebar'', ''backgroundColor'']) then Ur e 10 (th e [''sidebar'', ''backgroundColor'']) else Hr e 10 (th e [''sidebar'', ''backgroundColor'']))),
     Decl ''font-family'' (th e [''typography'', ''fontFamily'']),
     Decl ''font-weight'' ''bold'',
     Decl ''font-size'' ''13px'',
     Decl ''color'' (th e [''sidebar'', ''textColor'']),
     Decl ''background-color'' ''transparent'',
     Decl ''outline'' ''none'']"

text \<open>Search icon.\<close>

definition qv_css :: "ctx \<Rightarrow> css" where
  "qv_css e =
    [Decl ''position'' ''absolute'',
     Decl ''left'' (str_num (4 * theme_num e [''spacing'', ''unit'']) @ ''px''),
     Decl ''height'' ''1.8em'',
     Decl ''width'' ''0.9em'',
     Open ''path'',
     Decl ''fill'' (th e [''sidebar'', ''textColor'']),
     Close]"

text \<open>Search results.\<close>

definition Vv_css :: "ctx \<Rightarrow> css" where
  "Vv_css e =
    [Decl ''padding'' (th e [''spacing'', ''unit''] @ ''px 0''),
     Decl ''background-color'' (Ur e 5 (th e [''sidebar'', ''backgroundColor''])),
     Close,
     Semi,
     Decl ''color'' (th e [''sidebar'', ''textColor'']),
     Decl ''min-height'' ''150px'',
     Decl ''max-height'' ''250px'',
     Decl ''border-top'' (Ur e 10 (th e [''sidebar'', ''backgroundColor''])),
     Close,
     Semi,
     Decl ''border-bottom'' (Ur e 10 (th e [''sidebar'', ''backgroundColor''])),
     Close,
     Semi,
     Decl ''margin-top'' ''10px'',
     Decl ''line-height'' ''1.4'',
     Decl ''font-size'' ''0.9em'',
     Open ''li'',
     Decl ''background-color'' ''inherit'',
     Close,
     Open (class_of e ''wy''),
     Decl ''padding-top'' ''6px'',
     Decl ''padding-bottom'' ''6px'',
     Open ''&:hover, &.active'',
     Decl ''background-color'' (Ur e 10 (th e [''sidebar'', ''backgroundColor''])),
     Close,
     Open ''> svg'',
     Decl ''display'' ''none'',
     Close,
     Close]"

text \<open>Clear button of the search.\<close>

definition Wv_css :: "ctx \<Rightarrow> css" where
  "Wv_css e =
    [Decl ''position'' ''absolute'',
     Decl ''display'' ''inline-block'',
     Decl ''width'' (str_num (2 * theme_num e [''spacing'', ''unit'']) @ ''px''),
     Decl ''text-align'' ''center'',
     Decl ''right'' (str_num (4 * theme_num e [''spacing'', ''unit'']) @ ''px''),
     Decl ''line-height'' ''2em'',
     Decl ''vertical-align'' ''middle'',
     Decl ''margin-right'' ''2px'',
     Decl ''cursor'' ''pointer'',
     Decl ''font-style'' ''normal'',
     Decl ''color'' (quoted ''#666'')]"

section \<open>Nesting\<close>

lemma gy_nested [css_nested]: "hook_ok e \<Longrightarrow> nest n (gy_css e) = Some n"
  by (simp add: gy_css_def nest_simps css_nested)

lemma xy_nested [css_nested]: "nest n (xy e d) = Some n"
  by (simp add: xy_def)

lemma Ky_nested [css_nested]: "nest n (Ky_css e) = Some n"
  by (simp add: Ky_css_def)

lemma redoc_styles_page_nested_1 [css_nested]:
  assumes "hook_ok e"
  shows "nest n (Zg_css e) = Some n"
    "nest n (Jg_css e) = Some n"
    "nest n (ey_css e) = Some n"
    "nest n (ty_css e) = Some n"
    "nest n (ny_css e) = Some n"
    "nest n (iy_css e) = Some n"
    "nest n (oy_css e) = Some n"
    "nest n (ay_css e) = Some n"
    "nest n (by_css e) = Some n"
    "nest n (vy_css e) = Some n"
    "nest n (wy_css e) = Some n"
    "nest n (ky_css e) = Some n"
  using assms
  by (simp_all add: nest_simps css_nested
      Zg_css_def Jg_css_def ey_css_def ty_css_def ny_css_def iy_css_def oy_css_def ay_css_def by_css_def vy_css_def wy_css_def ky_css_def)

lemma redoc_styles_page_nested_2 [css_nested]:
  assumes "hook_ok e"
  shows "nest n (Sy_css e) = Some n"
    "nest n (Oy_css e) = Some n"
    "nest n (Ey_css e) = Some n"
    "nest n (Badge_y_css e) = Some n"
    "nest n (Ay_css e) = Some n"
    "nest n (jy_css e) = Some n"
    "nest n (Py_css e) = Some n"
    "nest n (Ty_css e) = Some n"
    "nest n (Iy_css e) = Some n"
    "nest n (Ry_css e) = Some n"
    "nest n (Ny_css e) = Some n"
    "nest n (DollarBadge_y_css e) = Some n"
  using assms
  by (simp_all add: nest_simps css_nested
      Sy_css_def Oy_css_def Ey_css_def Badge_y_css_def Ay_css_def jy_css_def Py_css_def Ty_css_def Iy_css_def Ry_css_def Ny_css_def DollarBadge_y_css_def)

lemma redoc_styles_page_nested_3 [css_nested]:
  assumes "hook_ok e"
  shows "nest n (Ly_css e) = Some n"
    "nest n (Zy_css e) = Some n"
    "nest n (Jy_css e) = Some n"
    "nest n (eb_css e) = Some n"
    "nest n (tb_css e) = Some n"
    "nest n (nb_css e) = Some n"
    "nest n (rb_css e) = Some n"
    "nest n (db_css e) = Some n"
    "nest n (xb_css e) = Some n"
    "nest n (Sb_css e) = Some n"
    "nest n (Nb_css e) = Some n"
    "nest n (qb_css e) = Some n"
  using assms
  by (simp_all add: nest_simps css_nested
      Ly_css_def Zy_css_def Jy_css_def eb_css_def tb_css_def nb_css_def rb_css_def db_css_def xb_css_def Sb_css_def Nb_css_def qb_css_def)

lemma redoc_styles_page_nested_4 [css_nested]:
  assumes "hook_ok e"
  shows "nest n (Jb_css e) = Some n"
    "nest n (Iv_css e) = Some n"
    "nest n (Dollar_v_css e) = Some n"
    "nest n (Lv_css e) = Some n"
    "nest n (Mv_css e) = Some n"
    "nest n (Fv_css e) = Some n"
    "nest n (zv_css e) = Some n"
    "nest n (Uv_css e) = Some n"
    "nest n (Bv_css e) = Some n"
    "nest n (qv_css e) = Some n"
    "nest n (Wv_css e) = Some n"
  using assms
  by (simp_all add: nest_simps css_nested
      Jb_css_def Iv_css_def Dollar_v_css_def Lv_css_def Mv_css_def Fv_css_def zv_css_def Uv_css_def Bv_css_def qv_css_def Wv_css_def)

section \<open>Catalogue\<close>

text \<open>The components of this theory with their names in the bundle.\<close>

definition page_styles :: "(string \<times> (ctx \<Rightarrow> css)) list" where
  "page_styles =
    [(''Zg'', Zg_css), (''Jg'', Jg_css), (''ey'', ey_css), (''ty'', ty_css), (''ny'', ny_css),
     (''iy'', iy_css), (''oy'', oy_css), (''ay'', ay_css), (''gy'', gy_css), (''by'', by_css),
     (''vy'', vy_css), (''wy'', wy_css), (''ky'', ky_css), (''Sy'', Sy_css), (''Oy'', Oy_css),
     (''Ey'', Ey_css), (''_y'', Badge_y_css), (''Ay'', Ay_css), (''jy'', jy_css), (''Py'', Py_css),
     (''Ty'', Ty_css), (''Iy'', Iy_css), (''Ry'', Ry_css), (''Ny'', Ny_css), (''Dollar_y'', DollarBadge_y_css),
     (''Ly'', Ly_css), (''Zy'', Zy_css), (''Jy'', Jy_css), (''eb'', eb_css), (''tb'', tb_css),
     (''nb'', nb_css), (''rb'', rb_css), (''db'', db_css), (''xb'', xb_css), (''Sb'', Sb_css),
     (''Nb'', Nb_css), (''qb'', qb_css), (''Jb'', Jb_css), (''Iv'', Iv_css), (''$v'', Dollar_v_css),
     (''Lv'', Lv_css), (''Mv'', Mv_css), (''Fv'', Fv_css), (''zv'', zv_css), (''Uv'', Uv_css),
     (''Bv'', Bv_css), (''qv'', qv_css), (''Vv'', Vv_css), (''Wv'', Wv_css)]"

end
