(* ===== verification/Redoc_Structure.thy ===== *)
theory Redoc_Structure
  imports Redoc_Styles_Page
begin

text \<open>
  The block structure of the styled components: what a reader of nested style sheets makes of the
  tokens, and how declarations are looked up in it. A closing brace with no open block ends a
  declaration, as a semicolon does; blocks that are still open end with the text; a declaration
  without a value is dropped.
\<close>

section \<open>Reading and printing blocks\<close>

datatype css_node = Dec string string | Blk string "css_node list"

fun unwind :: "(string \<times> css_node list) list \<Rightarrow> css_node list \<Rightarrow> css_node list" where
  "unwind [] acc = acc"
| "unwind ((s, prev) # stack) acc = unwind stack (prev @ [Blk s acc])"

fun parse_go :: "(string \<times> css_node list) list \<Rightarrow> css_node list \<Rightarrow> css \<Rightarrow> css_node list" where
  "parse_go stack acc [] = unwind stack acc"
| "parse_go stack acc (Decl p v # ts) = parse_go stack (if v = [] then acc else acc @ [Dec p v]) ts"
| "parse_go stack acc (Open s # ts) = parse_go ((s, acc) # stack) [] ts"
| "parse_go [] acc (Close # ts) = parse_go [] acc ts"
| "parse_go ((s, prev) # stack) acc (Close # ts) = parse_go stack (prev @ [Blk s acc]) ts"
| "parse_go stack acc (Semi # ts) = parse_go stack acc ts"
| "parse_go stack acc (Comment c # ts) = parse_go stack acc ts"

definition parse :: "css \<Rightarrow> css_node list" where
  "parse = parse_go [] []"

fun print_node :: "css_node \<Rightarrow> css" where
  "print_node (Dec p v) = [Decl p v]"
| "print_node (Blk s ns) = Open s # concat (map print_node ns) @ [Close]"

definition print :: "css_node list \<Rightarrow> css" where
  "print ns = concat (map print_node ns)"

text \<open>What carries no structure: separators, comments and declarations without a value.\<close>

fun solid :: "css_tok \<Rightarrow> bool" where
  "solid (Decl p v) = (v \<noteq> [])"
| "solid (Open s) = True"
| "solid Close = True"
| "solid Semi = False"
| "solid (Comment c) = False"

text \<open>Dropping the closing braces that close nothing, and the depth that remains.\<close>

fun mend :: "nat \<Rightarrow> css \<Rightarrow> css" where
  "mend n [] = []"
| "mend n (Open s # ts) = Open s # mend (Suc n) ts"
| "mend n (Close # ts) = (case n of 0 \<Rightarrow> mend 0 ts | Suc m \<Rightarrow> Close # mend m ts)"
| "mend n (t # ts) = t # mend n ts"

fun level :: "nat \<Rightarrow> css \<Rightarrow> nat" where
  "level n [] = n"
| "level n (Open s # ts) = level (Suc n) ts"
| "level n (Close # ts) = level (n - 1) ts"
| "level n (t # ts) = level n ts"

lemma level_append: "level n (xs @ ys) = level (level n xs) ys"
  by (induction n xs rule: level.induct) auto

lemma mend_append: "mend n (xs @ ys) = mend n xs @ mend (level n xs) ys"
  by (induction n xs rule: mend.induct) (auto split: nat.splits)

lemma nest_mend: "nest n (mend n ts) = Some (level n ts)"
  by (induction n ts rule: mend.induct) (auto split: nat.splits)

lemma nest_level: "nest n ts = Some m \<Longrightarrow> level n ts = m"
  by (induction n ts rule: nest.induct) (auto split: nat.splits)

lemma mend_nested: "nest n ts = Some m \<Longrightarrow> mend n ts = ts"
  by (induction n ts rule: nest.induct) (auto split: nat.splits)

section \<open>Round trip\<close>

text \<open>The tokens of the open blocks and the finished nodes of a reader state.\<close>

fun pending :: "(string \<times> css_node list) list \<Rightarrow> css_node list \<Rightarrow> css" where
  "pending [] acc = print acc"
| "pending ((s, prev) # stack) acc = pending stack prev @ Open s # print acc"

lemma print_append [simp]: "print (xs @ ys) = print xs @ print ys" "print [] = []" "print [x] = print_node x"
  by (simp_all add: print_def)

lemma print_Blk: "print_node (Blk s ns) = Open s # print ns @ [Close]"
  by (simp add: print_def)

lemma pending_Dec: "pending stack (acc @ [Dec p v]) = pending stack acc @ [Decl p v]"
  by (cases "(stack, acc)" rule: pending.cases) auto

lemma pending_open: "pending ((s, acc) # stack) [] = pending stack acc @ [Open s]"
  by simp

lemma pending_close: "pending stack (prev @ [Blk s acc]) = pending ((s, prev) # stack) acc @ [Close]"
  by (cases "(stack, prev)" rule: pending.cases) (auto simp: print_def)

lemma print_parse_go:
  "level (length stack) ts = 0 \<Longrightarrow>
   print (parse_go stack acc ts) = pending stack acc @ filter solid (mend (length stack) ts)"
proof (induction stack acc ts rule: parse_go.induct)
  case (5 s prev stack acc ts)
  then show ?case by (simp only: parse_go.simps) (simp add: pending_close del: pending.simps)
qed (simp_all add: pending_Dec pending_open del: pending.simps(2))

text \<open>Reading a text whose blocks are all closed loses nothing but separators and stray braces.\<close>

theorem print_parse: "level 0 ts = 0 \<Longrightarrow> print (parse ts) = filter solid (mend 0 ts)"
  using print_parse_go [of "[]" ts "[]"] by (simp add: parse_def)

text \<open>Separators and stray braces do not change what is read.\<close>

lemma parse_go_solid: "parse_go stack acc (filter solid ts) = parse_go stack acc ts"
  by (induction stack acc ts rule: parse_go.induct) auto

lemma parse_go_mend: "parse_go stack acc (mend (length stack) ts) = parse_go stack acc ts"
  by (induction stack acc ts rule: parse_go.induct) auto

lemma parse_solid: "parse (filter solid ts) = parse ts"
  by (simp add: parse_def parse_go_solid)

lemma parse_mend: "parse (mend 0 ts) = parse ts"
  using parse_go_mend [of "[]" "[]" ts] by (simp add: parse_def)

fun valued :: "css_node \<Rightarrow> bool" where
  "valued (Dec p v) = (v \<noteq> [])"
| "valued (Blk s ns) = list_all valued ns"

lemma parse_go_print_node:
  "valued n \<Longrightarrow> parse_go stack acc (print_node n @ ts) = parse_go stack (acc @ [n]) ts"
proof (induction n arbitrary: stack acc ts)
  case (Blk s ns)
  have body: "list_all valued ms \<Longrightarrow> set ms \<subseteq> set ns \<Longrightarrow>
      parse_go st ac (concat (map print_node ms) @ rest) = parse_go st (ac @ ms) rest" for ms st ac rest
  proof (induction ms arbitrary: st ac rest)
    case (Cons m ms)
    have "m \<in> set ns" "valued m" using Cons.prems by auto
    from Blk.IH [OF this] Cons show ?case by simp
  qed simp
  have "list_all valued ns" using Blk.prems by simp
  from body [OF this subset_refl, of "(s, acc) # stack" "[]" "Close # ts"] show ?case by simp
qed simp

theorem parse_print: "list_all valued ns \<Longrightarrow> parse (print ns) = ns"
proof -
  have "list_all valued ns \<Longrightarrow> parse_go [] acc (print ns) = acc @ ns" for acc
  proof (induction ns arbitrary: acc)
    case (Cons n ns)
    then show ?case using parse_go_print_node [of n "[]" acc "print ns"] by (simp add: print_def)
  qed (simp add: print_def)
  then show "list_all valued ns \<Longrightarrow> parse (print ns) = ns" by (simp add: parse_def)
qed

section \<open>Looking up declarations\<close>

text \<open>The body of the blocks with a selector, and the last value of a property: later rules win.\<close>

fun body :: "string \<Rightarrow> css_node list \<Rightarrow> css_node list" where
  "body s [] = []"
| "body s (Blk s' ns # rest) = (if s' = s then ns @ body s rest else body s rest)"
| "body s (Dec p v # rest) = body s rest"

fun value_of :: "string \<Rightarrow> css_node list \<Rightarrow> string option" where
  "value_of p [] = None"
| "value_of p (Dec q v # rest) = (case value_of p rest of Some w \<Rightarrow> Some w | None \<Rightarrow> if q = p then Some v else None)"
| "value_of p (Blk s ns # rest) = value_of p rest"

fun style_at :: "string list \<Rightarrow> css_node list \<Rightarrow> css_node list" where
  "style_at [] ns = ns"
| "style_at (s # path) ns = style_at path (body s ns)"

definition computed :: "css \<Rightarrow> string list \<Rightarrow> string \<Rightarrow> string option" where
  "computed ts path p = value_of p (style_at path (parse ts))"

end
