(* ===== verification/Redoc_Theme.thy ===== *)
theory Redoc_Theme
  imports Redoc_Css
begin

text \<open>
  The theme of the ReDoc page: the default theme, merging the user's settings into it, and
  resolving the entries that are functions of the theme. A function entry becomes a getter that
  runs the function and keeps its value unless it is falsy; more than a thousand runs count as a
  circular dependency.
\<close>

section \<open>Themes with function entries\<close>

text \<open>
  A function entry reads entries of the theme by path, one after the other, and returns a value or
  throws; \<open>None\<close> is \<open>undefined\<close>. Reading may throw too, and the function sees what it throws, so
  that it can go on as in a \<open>try\<close> statement. \<open>Read\<close> is a function that lets errors pass.
\<close>

datatype theme_error = Circular "string list" | Undefined_Member string | Thrown string

datatype tprog =
    Ret "tval option"
  | Throw theme_error
  | Get "string list" "theme_error + tval option \<Rightarrow> tprog"

definition Read :: "string list \<Rightarrow> (tval option \<Rightarrow> tprog) \<Rightarrow> tprog" where
  "Read p k = Get p (\<lambda>r. case r of Inl er \<Rightarrow> Throw er | Inr v \<Rightarrow> k v)"

datatype tnode = Leaf tval | Fn tprog | Node "(string \<times> tnode) list"

text \<open>
  The getters' variables: the values they keep and the number of runs. \<open>calls\<close> counts how often a
  function of the theme was called, which the code does not do.
\<close>

record rstate =
  memo :: "(string list \<times> tval option) list"
  runs :: nat
  calls :: nat

text \<open>A computation with errors; \<open>None\<close> is one that needs more nesting than allowed.\<close>

type_synonym 'a rm = "rstate \<Rightarrow> (rstate \<times> (theme_error + 'a)) option"

text \<open>Members of a value: those of \<open>undefined\<close> cannot be read, other primitive values have none.\<close>

fun members :: "tval option \<Rightarrow> string list \<Rightarrow> theme_error + tval option" where
  "members v [] = Inr v"
| "members None (k # ks) = Inl (Undefined_Member k)"
| "members (Some (T_Obj kvs)) (k # ks) = members (map_of kvs k) ks"
| "members (Some _) (k # ks) = members None ks"

text \<open>
  Where a path leads: to a value or an error, or to a function entry whose value is read further.
  An entry that is an object is not used as a value by any function of the theme.
\<close>

datatype place = Value "theme_error + tval option" | Call "string list" tprog "string list"

fun walk :: "string list \<Rightarrow> tnode \<Rightarrow> string list \<Rightarrow> place" where
  "walk pre (Fn f) ks = Call pre f ks"
| "walk pre (Leaf v) ks = Value (members (Some v) ks)"
| "walk pre (Node kvs) [] = Value (Inr (Some (T_Obj [])))"
| "walk pre (Node kvs) (k # ks) =
     (case map_of kvs k of None \<Rightarrow> Value (members None ks) | Some nd \<Rightarrow> walk (pre @ [k]) nd ks)"

primrec run_prog :: "(string list \<Rightarrow> tval option rm) \<Rightarrow> tprog \<Rightarrow> tval option rm" where
  "run_prog g (Ret v) = (\<lambda>st. Some (st, Inr v))"
| "run_prog g (Throw er) = (\<lambda>st. Some (st, Inl er))"
| "run_prog g (Get p k) = (\<lambda>st. case g p st of None \<Rightarrow> None | Some (st', r) \<Rightarrow> run_prog g (k r) st')"

text \<open>Reading an entry. The first argument bounds the nesting of getters.\<close>

primrec getter :: "nat \<Rightarrow> tnode \<Rightarrow> string list \<Rightarrow> tval option rm" where
  "getter 0 root path = (\<lambda>st. None)"
| "getter (Suc fuel) root path =
     (\<lambda>st. case walk [] root path of
        Value r \<Rightarrow> Some (st, r)
      | Call p f ks \<Rightarrow>
          (let v = (case map_of (memo st) p of None \<Rightarrow> None | Some v \<Rightarrow> v) in
           if js_truthy v then Some (st, members v ks)
           else if 1000 < Suc (runs st) then Some (st\<lparr>runs := Suc (runs st)\<rparr>, Inl (Circular p))
           else (case run_prog (getter fuel root) f (st\<lparr>runs := Suc (runs st), calls := Suc (calls st)\<rparr>) of
                   None \<Rightarrow> None
                 | Some (st', Inl er) \<Rightarrow> Some (st', Inl er)
                 | Some (st', Inr v) \<Rightarrow> Some (st'\<lparr>memo := (p, v) # memo st'\<rparr>, members v ks))))"

text \<open>\<open>JSON.parse(JSON.stringify(e))\<close>: every entry is read in order; undefined ones are left out.\<close>

definition bindR :: "'a rm \<Rightarrow> ('a \<Rightarrow> 'b rm) \<Rightarrow> 'b rm" where
  "bindR m f = (\<lambda>st. case m st of
     None \<Rightarrow> None | Some (st', Inl er) \<Rightarrow> Some (st', Inl er) | Some (st', Inr x) \<Rightarrow> f x st')"

definition returnR :: "'a \<Rightarrow> 'a rm" where
  "returnR x = (\<lambda>st. Some (st, Inr x))"

fun read_all :: "(string list \<Rightarrow> tval option rm) \<Rightarrow> string list \<Rightarrow> tnode \<Rightarrow> tval option rm"
  and read_entries :: "(string list \<Rightarrow> tval option rm) \<Rightarrow> string list \<Rightarrow> (string \<times> tnode) list \<Rightarrow> (string \<times> tval) list rm" where
  "read_all g path (Leaf v) = returnR (Some v)"
| "read_all g path (Fn f) = g path"
| "read_all g path (Node kvs) = bindR (read_entries g path kvs) (\<lambda>vs. returnR (Some (T_Obj vs)))"
| "read_entries g path [] = returnR []"
| "read_entries g path ((k, nd) # kvs) =
     bindR (read_all g (path @ [k]) nd) (\<lambda>v.
     bindR (read_entries g path kvs) (\<lambda>vs.
       returnR ((case v of None \<Rightarrow> [] | Some x \<Rightarrow> [(k, x)]) @ vs)))"

text \<open>A nesting of 1001 getters is enough (\<open>resolve_theme_ends\<close>).\<close>

definition resolve_theme :: "tnode \<Rightarrow> (rstate \<times> (theme_error + tval option)) option" where
  "resolve_theme root = read_all (getter 1001 root) [] root \<lparr>memo = [], runs = 0, calls = 0\<rparr>"

section \<open>Merging settings\<close>

text \<open>
  \<open>ci\<close>: entries of the source replace those of the target, except that objects are merged; a
  target entry that is present and not an object absorbs an object.
\<close>

fun ci :: "tnode \<Rightarrow> tnode \<Rightarrow> tnode"
  and ci_entries :: "(string \<times> tnode) list \<Rightarrow> (string \<times> tnode) list \<Rightarrow> (string \<times> tnode) list" where
  "ci (Node e) (Node n) = Node (ci_entries e n)"
| "ci e _ = e"
| "ci_entries e [] = e"
| "ci_entries e ((k, v) # n) =
     ci_entries (AList.update k
       (case v of
          Node kvs \<Rightarrow> ci (case map_of e k of None \<Rightarrow> Node []
                          | Some (Leaf w) \<Rightarrow> if js_truthy (Some w) then Leaf w else Node []
                          | Some old \<Rightarrow> old) v
        | _ \<Rightarrow> v) e) n"

section \<open>The default theme\<close>

text \<open>A colour function applied to an entry raises when the entry is not a colour.\<close>

definition coloured :: "polished \<Rightarrow> (string \<Rightarrow> string) \<Rightarrow> tval option \<Rightarrow> tprog" where
  "coloured c f m = (if is_colour c (flatten m) then Ret (Some (T_Str (f (flatten m)))) else Throw (Thrown (flatten m)))"

definition same_as :: "string list \<Rightarrow> tnode" where
  "same_as p = Fn (Read p Ret)"

definition times_unit :: "int \<Rightarrow> tnode" where
  "times_unit k = Fn (Read [''spacing'', ''unit''] (\<lambda>u. Ret (Some (T_Num (k * js_num u)))))"

text \<open>A shade of a colour, by a multiple of the tonal offset or by a fixed amount.\<close>

definition tone :: "polished \<Rightarrow> (int \<Rightarrow> string \<Rightarrow> string) \<Rightarrow> int \<Rightarrow> string list \<Rightarrow> tnode" where
  "tone c f k p = Fn (Read [''colors'', ''tonalOffset''] (\<lambda>t. Read p (coloured c (f (k * js_num t)))))"

definition fixed_tone :: "polished \<Rightarrow> (int \<Rightarrow> string \<Rightarrow> string) \<Rightarrow> int \<Rightarrow> string list \<Rightarrow> tnode" where
  "fixed_tone c f amount p = Fn (Read p (coloured c (f amount)))"

definition readable_on :: "polished \<Rightarrow> string list \<Rightarrow> tnode" where
  "readable_on c p = Fn (Read p (coloured c (readableColor c)))"

definition Zr_spacing :: "polished \<Rightarrow> tnode" where
  "Zr_spacing c =
    Node
      [(''unit'', Leaf (T_Num 500)),
       (''sectionHorizontal'', times_unit 8),
       (''sectionVertical'', times_unit 8)]"

definition Zr_breakpoints :: "polished \<Rightarrow> tnode" where
  "Zr_breakpoints c =
    Node
      [(''small'', Leaf (T_Str ''50rem'')),
       (''medium'', Leaf (T_Str ''75rem'')),
       (''large'', Leaf (T_Str ''105rem''))]"

definition Zr_colors :: "polished \<Rightarrow> tnode" where
  "Zr_colors c =
    Node
      [(''tonalOffset'', Leaf (T_Num 20)),
       (''primary'', Node
          [(''main'', Leaf (T_Str ''#32329f'')),
           (''light'', tone c (lighten c) 1 [''colors'', ''primary'', ''main'']),
           (''dark'', tone c (darken c) 1 [''colors'', ''primary'', ''main'']),
           (''contrastText'', readable_on c [''colors'', ''primary'', ''main''])]),
       (''success'', Node
          [(''main'', Leaf (T_Str ''#1d8127'')),
           (''light'', tone c (lighten c) 2 [''colors'', ''success'', ''main'']),
           (''dark'', tone c (darken c) 1 [''colors'', ''success'', ''main'']),
           (''contrastText'', readable_on c [''colors'', ''success'', ''main''])]),
       (''warning'', Node
          [(''main'', Leaf (T_Str ''#ffa500'')),
           (''light'', tone c (lighten c) 1 [''colors'', ''warning'', ''main'']),
           (''dark'', tone c (darken c) 1 [''colors'', ''warning'', ''main'']),
           (''contrastText'', Leaf (T_Str ''#ffffff''))]),
       (''error'', Node
          [(''main'', Leaf (T_Str ''#d41f1c'')),
           (''light'', tone c (lighten c) 1 [''colors'', ''error'', ''main'']),
           (''dark'', tone c (darken c) 1 [''colors'', ''error'', ''main'']),
           (''contrastText'', readable_on c [''colors'', ''error'', ''main''])]),
       (''gray'', Node
          [(''50'', Leaf (T_Str ''#FAFAFA'')),
           (''100'', Leaf (T_Str ''#F5F5F5''))]),
       (''text'', Node
          [(''primary'', Leaf (T_Str ''#333333'')),
           (''secondary'', tone c (lighten c) 1 [''colors'', ''text'', ''primary''])]),
       (''border'', Node
          [(''dark'', Leaf (T_Str ''rgba(0,0,0, 0.1)'')),
           (''light'', Leaf (T_Str ''#ffffff''))]),
       (''responses'', Node
          [(''success'', Node
              [(''color'', same_as [''colors'', ''success'', ''main'']),
               (''backgroundColor'', fixed_tone c (transparentize c) 93 [''colors'', ''success'', ''main'']),
               (''tabTextColor'', same_as [''colors'', ''responses'', ''success'', ''color''])]),
           (''error'', Node
              [(''color'', same_as [''colors'', ''error'', ''main'']),
               (''backgroundColor'', fixed_tone c (transparentize c) 93 [''colors'', ''error'', ''main'']),
               (''tabTextColor'', same_as [''colors'', ''responses'', ''error'', ''color''])]),
           (''redirect'', Node
              [(''color'', same_as [''colors'', ''warning'', ''main'']),
               (''backgroundColor'', fixed_tone c (transparentize c) 90 [''colors'', ''responses'', ''redirect'', ''color'']),
               (''tabTextColor'', same_as [''colors'', ''responses'', ''redirect'', ''color''])]),
           (''info'', Node
              [(''color'', Leaf (T_Str ''#87ceeb'')),
               (''backgroundColor'', fixed_tone c (transparentize c) 90 [''colors'', ''responses'', ''info'', ''color'']),
               (''tabTextColor'', same_as [''colors'', ''responses'', ''info'', ''color''])])]),
       (''http'', Node
          [(''get'', Leaf (T_Str ''#2F8132'')),
           (''post'', Leaf (T_Str ''#186FAF'')),
           (''put'', Leaf (T_Str ''#95507c'')),
           (''options'', Leaf (T_Str ''#947014'')),
           (''patch'', Leaf (T_Str ''#bf581d'')),
           (''delete'', Leaf (T_Str ''#cc3333'')),
           (''basic'', Leaf (T_Str ''#707070'')),
           (''link'', Leaf (T_Str ''#07818F'')),
           (''head'', Leaf (T_Str ''#A23DAD''))])]"

definition Zr_schema :: "polished \<Rightarrow> tnode" where
  "Zr_schema c =
    Node
      [(''linesColor'', Fn (Read [''colors'', ''tonalOffset''] (\<lambda>t. Read [''colors'', ''primary'', ''main'']
           (coloured c (\<lambda>m. lighten c (js_num t) (desaturate c (js_num t) m)))))),
       (''defaultDetailsWidth'', Leaf (T_Str ''75%'')),
       (''typeNameColor'', same_as [''colors'', ''text'', ''secondary'']),
       (''typeTitleColor'', same_as [''schema'', ''typeNameColor'']),
       (''requireLabelColor'', same_as [''colors'', ''error'', ''main'']),
       (''labelsTextSize'', Leaf (T_Str ''0.9em'')),
       (''nestingSpacing'', Leaf (T_Str ''1em'')),
       (''nestedBackground'', Leaf (T_Str ''#fafafa'')),
       (''arrow'', Node
          [(''size'', Leaf (T_Str ''1.1em'')),
           (''color'', same_as [''colors'', ''text'', ''secondary''])])]"

definition Zr_typography :: "polished \<Rightarrow> tnode" where
  "Zr_typography c =
    Node
      [(''fontSize'', Leaf (T_Str ''14px'')),
       (''lineHeight'', Leaf (T_Str ''1.5em'')),
       (''fontWeightRegular'', Leaf (T_Str ''400'')),
       (''fontWeightBold'', Leaf (T_Str ''600'')),
       (''fontWeightLight'', Leaf (T_Str ''300'')),
       (''fontFamily'', Leaf (T_Str ''Roboto, sans-serif'')),
       (''smoothing'', Leaf (T_Str ''antialiased'')),
       (''optimizeSpeed'', Leaf (T_Bool True)),
       (''headings'', Node
          [(''fontFamily'', Leaf (T_Str ''Montserrat, sans-serif'')),
           (''fontWeight'', Leaf (T_Str ''400'')),
           (''lineHeight'', Leaf (T_Str ''1.6em''))]),
       (''code'', Node
          [(''fontSize'', Leaf (T_Str ''13px'')),
           (''fontFamily'', Leaf (T_Str ''Courier, monospace'')),
           (''lineHeight'', same_as [''typography'', ''lineHeight'']),
           (''fontWeight'', same_as [''typography'', ''fontWeightRegular'']),
           (''color'', Leaf (T_Str ''#e53935'')),
           (''backgroundColor'', Leaf (T_Str ''rgba(38, 50, 56, 0.05)'')),
           (''wrap'', Leaf (T_Bool False))]),
       (''links'', Node
          [(''color'', same_as [''colors'', ''primary'', ''main'']),
           (''visited'', same_as [''typography'', ''links'', ''color'']),
           (''hover'', fixed_tone c (lighten c) 20 [''typography'', ''links'', ''color'']),
           (''textDecoration'', Leaf (T_Str ''auto'')),
           (''hoverTextDecoration'', Leaf (T_Str ''auto''))])]"

definition Zr_sidebar :: "polished \<Rightarrow> tnode" where
  "Zr_sidebar c =
    Node
      [(''width'', Leaf (T_Str ''260px'')),
       (''backgroundColor'', Leaf (T_Str ''#fafafa'')),
       (''textColor'', Leaf (T_Str ''#333333'')),
       (''activeTextColor'', Fn (Read [''sidebar'', ''textColor''] (\<lambda>t. if t \<noteq> Some (T_Str ''#333333'')
           then Read [''sidebar'', ''textColor''] Ret else Read [''colors'', ''primary'', ''main''] Ret))),
       (''groupItems'', Node
          [(''activeBackgroundColor'', fixed_tone c (darken c) 10 [''sidebar'', ''backgroundColor'']),
           (''activeTextColor'', same_as [''sidebar'', ''activeTextColor'']),
           (''textTransform'', Leaf (T_Str ''uppercase''))]),
       (''level1Items'', Node
          [(''activeBackgroundColor'', fixed_tone c (darken c) 5 [''sidebar'', ''backgroundColor'']),
           (''activeTextColor'', same_as [''sidebar'', ''activeTextColor'']),
           (''textTransform'', Leaf (T_Str ''none''))]),
       (''arrow'', Node
          [(''size'', Leaf (T_Str ''1.5em'')),
           (''color'', same_as [''sidebar'', ''textColor''])])]"

definition Zr_logo :: "polished \<Rightarrow> tnode" where
  "Zr_logo c =
    Node
      [(''maxHeight'', same_as [''sidebar'', ''width'']),
       (''maxWidth'', same_as [''sidebar'', ''width'']),
       (''gutter'', Leaf (T_Str ''2px''))]"

definition Zr_rightPanel :: "polished \<Rightarrow> tnode" where
  "Zr_rightPanel c =
    Node
      [(''backgroundColor'', Leaf (T_Str ''#263238'')),
       (''width'', Leaf (T_Str ''40%'')),
       (''textColor'', Leaf (T_Str ''#ffffff'')),
       (''servers'', Node
          [(''overlay'', Node
              [(''backgroundColor'', Leaf (T_Str ''#fafafa'')),
               (''textColor'', Leaf (T_Str ''#263238''))]),
           (''url'', Node
              [(''backgroundColor'', Leaf (T_Str ''#fff''))])])]"

definition Zr_codeBlock :: "polished \<Rightarrow> tnode" where
  "Zr_codeBlock c =
    Node
      [(''backgroundColor'', fixed_tone c (darken c) 10 [''rightPanel'', ''backgroundColor''])]"

definition Zr_fab :: "polished \<Rightarrow> tnode" where
  "Zr_fab c =
    Node
      [(''backgroundColor'', Leaf (T_Str ''#f2f2f2'')),
       (''color'', Leaf (T_Str ''#0065FB''))]"

definition Zr :: "polished \<Rightarrow> tnode" where
  "Zr c = Node
    [(''spacing'', Zr_spacing c),
     (''breakpoints'', Zr_breakpoints c),
     (''colors'', Zr_colors c),
     (''schema'', Zr_schema c),
     (''typography'', Zr_typography c),
     (''sidebar'', Zr_sidebar c),
     (''logo'', Zr_logo c),
     (''rightPanel'', Zr_rightPanel c),
     (''codeBlock'', Zr_codeBlock c),
     (''fab'', Zr_fab c)]"

section \<open>Resolution ends\<close>

text \<open>
  From at least \<open>k\<close> runs, a computation returns a value or an error, the number of runs only grows,
  and no function is called once it has reached 1000.
\<close>

definition within :: "rstate \<Rightarrow> bool" where
  "within st \<longleftrightarrow> calls st \<le> runs st \<and> calls st \<le> 1000"

definition rspec :: "nat \<Rightarrow> 'a rm \<Rightarrow> bool" where
  "rspec k m \<longleftrightarrow> (\<forall>st. k \<le> runs st \<and> within st \<longrightarrow>
     (\<exists>st' r. m st = Some (st', r) \<and> runs st \<le> runs st' \<and> within st'))"

lemma rspecE:
  assumes "rspec k m" "k \<le> runs st" "within st"
  obtains st' r where "m st = Some (st', r)" "runs st \<le> runs st'" "within st'"
  using assms unfolding rspec_def by blast

lemma rspec_now: "rspec k (\<lambda>st. Some (st, r))" "rspec k (returnR x)"
  by (auto simp: rspec_def returnR_def)

lemma rspec_bind:
  assumes "rspec k m" "\<And>x. rspec k (f x)"
  shows "rspec k (bindR m f)"
  unfolding rspec_def
proof (intro allI impI)
  fix st assume st: "k \<le> runs st \<and> within st"
  then obtain st1 r1 where 1: "m st = Some (st1, r1)" "runs st \<le> runs st1" "within st1"
    using rspecE [OF assms(1)] by metis
  show "\<exists>st' r. bindR m f st = Some (st', r) \<and> runs st \<le> runs st' \<and> within st'"
  proof (cases r1)
    case (Inl er)
    with 1 show ?thesis by (simp add: bindR_def)
  next
    case (Inr x)
    have "k \<le> runs st1" using st 1(2) by simp
    from rspecE [OF assms(2) this 1(3)] obtain st' r where "f x st1 = Some (st', r)" "runs st1 \<le> runs st'" "within st'" .
    with 1 Inr show ?thesis by (auto simp: bindR_def)
  qed
qed

lemma run_prog_rspec: "(\<And>p. rspec k (g p)) \<Longrightarrow> rspec k (run_prog g f)"
proof (induction f)
  case (Get p h)
  have h: "rspec k (run_prog g (h r))" for r using Get.IH Get.prems by blast
  show ?case
    unfolding rspec_def
  proof (intro allI impI)
    fix st assume st: "k \<le> runs st \<and> within st"
    then obtain st1 r1 where 1: "g p st = Some (st1, r1)" "runs st \<le> runs st1" "within st1"
      using rspecE [OF Get.prems] by metis
    then have "k \<le> runs st1" using st by simp
    from rspecE [OF h this 1(3)] 1 show "\<exists>st' r. run_prog g (Get p h) st = Some (st', r) \<and> runs st \<le> runs st' \<and> within st'"
      by (metis (no_types, lifting) case_prod_conv le_trans option.simps(5) run_prog.simps(3))
  qed
qed (simp_all add: rspec_now)

lemma getter_rspec: "1000 \<le> k + fuel \<Longrightarrow> rspec k (getter (Suc fuel) root p)"
proof (induction fuel arbitrary: k p)
  case 0
  then show ?case by (auto simp: rspec_def within_def Let_def split: place.split)
next
  case (Suc fuel)
  have inner: "rspec (Suc k) (run_prog (getter (Suc fuel) root) f)" for f
    using Suc by (intro run_prog_rspec) auto
  show ?case
    unfolding rspec_def
  proof (intro allI impI)
    fix st assume st: "k \<le> runs st \<and> within st"
    show "\<exists>st' r. getter (Suc (Suc fuel)) root p st = Some (st', r) \<and> runs st \<le> runs st' \<and> within st'"
    proof (cases "walk [] root p")
      case (Value v)
      then show ?thesis using st by simp
    next
      case (Call q f ks)
      show ?thesis
      proof (cases "js_truthy (case map_of (memo st) q of None \<Rightarrow> None | Some v \<Rightarrow> v) \<or> 1000 < Suc (runs st)")
        case True
        then show ?thesis using st Call by (auto simp: Let_def within_def)
      next
        case False
        let ?st = "st\<lparr>runs := Suc (runs st), calls := Suc (calls st)\<rparr>"
        have "Suc k \<le> runs ?st" "within ?st" using st False by (auto simp: within_def)
        from rspecE [OF inner this] obtain st1 r1 where 1: "run_prog (getter (Suc fuel) root) f ?st = Some (st1, r1)"
          "runs ?st \<le> runs st1" "within st1" .
        have "within (st1\<lparr>memo := x\<rparr>)" for x using 1(3) by (simp add: within_def)
        with 1 Call False show ?thesis
          by (cases r1) (auto simp: Let_def simp del: getter.simps(1))
      qed
    qed
  qed
qed

lemma read_all_rspec:
  "(\<And>p. rspec k (g p)) \<Longrightarrow> rspec k (read_all g path nd)"
  "(\<And>p. rspec k (g p)) \<Longrightarrow> rspec k (read_entries g path kvs)"
  by (induction g path nd and g path kvs rule: read_all_read_entries.induct)
     (auto intro!: rspec_bind rspec_now)

lemma within_start: "within \<lparr>memo = [], runs = 0, calls = 0\<rparr>"
  by (simp add: within_def)

section \<open>What resolution keeps\<close>

fun entry :: "tnode \<Rightarrow> string list \<Rightarrow> tval option" where
  "entry (Leaf v) [] = Some v"
| "entry (Node kvs) (k # ks) = (case map_of kvs k of None \<Rightarrow> None | Some nd \<Rightarrow> entry nd ks)"
| "entry _ _ = None"

lemma bindR_Inr: "bindR m f st = Some (st', Inr y) \<longleftrightarrow> (\<exists>st1 x. m st = Some (st1, Inr x) \<and> f x st1 = Some (st', Inr y))"
  by (auto simp: bindR_def split: option.splits sum.splits)

lemma read_all_keeps:
  "read_all g path nd st = Some (st', Inr v) \<Longrightarrow> entry nd p = Some x \<Longrightarrow> members v p = Inr (Some x) \<and> v \<noteq> None"
  "read_entries g path kvs st = Some (st', Inr vs) \<Longrightarrow> map_of kvs k = Some nd \<Longrightarrow> entry nd p = Some x \<Longrightarrow>
     members (map_of vs k) p = Inr (Some x) \<and> map_of vs k \<noteq> None"
proof (induction g path nd and g path kvs arbitrary: st st' v p and st st' vs k p nd rule: read_all_read_entries.induct)
  case (1 g path w)
  then show ?case by (cases p) (auto simp: returnR_def)
next
  case (3 g path kvs)
  then obtain j ks where p: "p = j # ks" by (cases p) auto
  with 3 show ?case by (auto simp: bindR_Inr returnR_def split: option.splits)
next
  case (5 g path key nd' kvs)
  then show ?case by (fastforce simp: bindR_Inr returnR_def split: if_splits option.splits)
qed auto

text \<open>
  C33: Resolving the theme ends for every theme, whatever its functions read, throw or catch and also
  when they call each other in a circle: it returns a theme or an error after at most 1000 calls of
  functions, and a theme that it returns has every entry of the given one that is neither a function
  nor an object.
\<close>

theorem resolve_theme_ends:
  "\<exists>st r. resolve_theme root = Some (st, r) \<and> calls st \<le> 1000 \<and>
     (\<forall>v p x. r = Inr v \<and> entry root p = Some x \<longrightarrow> members v p = Inr (Some x))"
proof -
  have "rspec 0 (read_all (getter (Suc 1000) root) [] root)" by (intro read_all_rspec getter_rspec) simp
  moreover have "resolve_theme root = read_all (getter (Suc 1000) root) [] root \<lparr>memo = [], runs = 0, calls = 0\<rparr>"
    unfolding resolve_theme_def by (simp del: getter.simps)
  ultimately obtain st r where r: "resolve_theme root = Some (st, r)" "within st"
    using rspecE [of 0 _ "\<lparr>memo = [], runs = 0, calls = 0\<rparr>"] by (metis le0 within_start)
  have "members v p = Inr (Some x)" if "r = Inr v" "entry root p = Some x" for v p x
    using read_all_keeps(1) [of "getter 1001 root" "[]" root] r(1) that unfolding resolve_theme_def by blast
  with r show ?thesis by (auto simp: within_def)
qed

text \<open>A function that reads below a missing entry and catches the error.\<close>

definition fallback_theme :: tnode where
  "fallback_theme = Node [(''a'', Fn (Get [''x'', ''y''] (\<lambda>r. case r of Inl _ \<Rightarrow> Ret (Some (T_Num 1)) | Inr v \<Rightarrow> Ret v))),
     (''c'', Leaf (T_Num 100))]"

theorem resolve_theme_ends_witness:
  "\<exists>st v. resolve_theme fallback_theme = Some (st, Inr v) \<and> calls st \<le> 1000 \<and> members v [''c''] = Inr (Some (T_Num 100))"
proof -
  have ok: "\<exists>st v. resolve_theme fallback_theme = Some (st, Inr v)"
    by (simp add: fallback_theme_def resolve_theme_def bindR_def returnR_def numeral_eq_Suc Let_def)
  moreover have "entry fallback_theme [''c''] = Some (T_Num 100)" by (simp add: fallback_theme_def)
  ultimately show ?thesis using resolve_theme_ends [of fallback_theme] by auto
qed

end
