(* ===== verification/Redoc_Layout.thy ===== *)
theory Redoc_Layout
  imports Redoc_Structure Redoc_Theme
begin

text \<open>
  Properties of the styled components as a whole and of the page layout.
\<close>

definition styles :: "(string \<times> (ctx \<Rightarrow> css)) list" where
  "styles = layout_styles @ content_styles @ page_styles"

text \<open>The components with a closing brace too many.\<close>

definition stray_styles :: "string list" where
  "stray_styles = [''up'', ''pm'', ''dm'', ''fm'', ''Vv'']"

lemma css_level: "hook_ok e \<Longrightarrow> level n (wa e x) = n" "level n (nm_css e) = n"
  by (auto intro!: nest_level simp: wa_nested nm_css_def)

lemma stray_level:
  assumes "hook_ok e"
  shows "level 0 (up_css e) = 0" "level 0 (pm_css e) = 0" "level 0 (dm_css e) = 0" "level 0 (fm_css e) = 0"
    "level 0 (Vv_css e) = 0"
  by (simp_all add: up_css_def pm_css_def dm_css_def fm_css_def Vv_css_def level_append css_level assms)

lemma stray_not_nested:
  "nest 0 (up_css e) = None" "nest 0 (pm_css e) = None" "nest 0 (fm_css e) = None" "nest 0 (Vv_css e) = None"
  by (simp_all add: up_css_def pm_css_def fm_css_def Vv_css_def nest_append nm_css_def)

lemma styles_nested:
  assumes "hook_ok e"
  shows "list_all (\<lambda>(name, c). nest 0 (c e) = (if name \<in> set stray_styles then None else Some 0)) layout_styles"
    "list_all (\<lambda>(name, c). nest 0 (c e) = (if name \<in> set stray_styles then None else Some 0)) content_styles"
    "list_all (\<lambda>(name, c). nest 0 (c e) = (if name \<in> set stray_styles then None else Some 0)) page_styles"
  using assms
  by (simp_all add: layout_styles_def content_styles_def page_styles_def stray_styles_def css_nested stray_not_nested
      dm_css_def)

lemma styles_nest:
  "hook_ok e \<Longrightarrow> (name, c) \<in> set styles \<Longrightarrow> nest 0 (c e) = (if name \<in> set stray_styles then None else Some 0)"
  using styles_nested [of e] by (auto simp: styles_def list_all_iff)

lemma stray_styles_level:
  assumes "hook_ok e"
  shows "list_all (\<lambda>(name, c). name \<in> set stray_styles \<longrightarrow> level 0 (c e) = 0) layout_styles"
    "list_all (\<lambda>(name, c). name \<in> set stray_styles \<longrightarrow> level 0 (c e) = 0) content_styles"
    "list_all (\<lambda>(name, c). name \<in> set stray_styles \<longrightarrow> level 0 (c e) = 0) page_styles"
  using assms
  by (simp_all add: layout_styles_def content_styles_def page_styles_def stray_styles_def stray_level)

lemma styles_level: "hook_ok e \<Longrightarrow> (name, c) \<in> set styles \<Longrightarrow> level 0 (c e) = 0"
  using styles_nest [of e name c] stray_styles_level [of e]
  by (cases "name \<in> set stray_styles") (auto simp: styles_def list_all_iff dest: nest_level)

section \<open>A context\<close>

definition demo_colours :: polished where
  "demo_colours = \<lparr>darken = (\<lambda>n s. s), lighten = (\<lambda>n s. s), transparentize = (\<lambda>n s. s), desaturate = (\<lambda>n s. s),
     readableColor = (\<lambda>s. ''#fff''), luminance = (\<lambda>s. 900), is_colour = (\<lambda>s. True)\<rparr>"

definition demo_ctx :: ctx where
  "demo_ctx = \<lparr>theme = T_Obj [(''rightPanel'', T_Obj [(''width'', T_Str ''40%'')]), (''sidebar'', T_Obj [(''width'', T_Str ''260px'')]),
       (''colors'', T_Obj [(''http'', T_Obj (map (\<lambda>v. (v, T_Str ''#000'')) [''get'', ''post'', ''put'', ''options'', ''patch'', ''delete'',
          ''basic'', ''link'', ''head'']))])],
     colour_functions = demo_colours, class_of_component = (\<lambda>c. ''sc-'' @ c), keyframes_of = (\<lambda>k. k),
     extensionsHook = None, attrs = [(''$open'', T_Bool True)]\<rparr>"

lemma demo_hook_ok: "hook_ok demo_ctx"
  by (simp add: hook_ok_def demo_ctx_def)

section \<open>Properties\<close>

text \<open>
  The tokens of every styled component open and close blocks in pairs, for every theme, properties
  and well nested extension, except the five listed ones, whose text closes a block that is not
  open. Interpolated texts are the content of tokens here, so that this says nothing about a theme
  with braces in its texts.
\<close>

theorem styles_well_nested:
  assumes "hook_ok e" "(name, c) \<in> set styles"
  shows "well_nested (c e) \<longleftrightarrow> name \<notin> set [''up'', ''pm'', ''dm'', ''fm'', ''Vv'']"
  using styles_nest [OF assms] by (simp add: well_nested_def stray_styles_def split: if_splits)

theorem styles_well_nested_witness: "well_nested (Vp_css demo_ctx) \<and> \<not> well_nested (Vv_css demo_ctx)"
proof -
  have 1: "(''Vp'', Vp_css) \<in> set styles" by (simp add: styles_def layout_styles_def)
  have 2: "(''Vv'', Vv_css) \<in> set styles" by (simp add: styles_def page_styles_def)
  from styles_well_nested [OF demo_hook_ok 1] styles_well_nested [OF demo_hook_ok 2] show ?thesis by simp
qed

text \<open>
  Reading any of the styled components as nested blocks and printing the blocks gives its tokens
  again, without separators, comments and declarations that have no value; the surplus closing
  braces stand outside every block and are all that is dropped besides.
\<close>

theorem styles_read_back:
  assumes "hook_ok e" "(name, c) \<in> set styles"
  shows "print (parse (c e)) = filter solid (mend 0 (c e)) \<and> parse (print (parse (c e))) = parse (c e) \<and>
    (well_nested (c e) \<longrightarrow> mend 0 (c e) = c e)"
proof -
  have *: "parse (filter solid ts) = parse ts" "parse (mend 0 ts) = parse ts" for ts
    by (rule parse_solid parse_mend)+
  have "print (parse (c e)) = filter solid (mend 0 (c e))" by (rule print_parse) (rule styles_level [OF assms])
  with * show ?thesis by (auto simp: well_nested_def intro: mend_nested)
qed

theorem styles_read_back_witness:
  "print (parse (up_css demo_ctx)) = filter solid (mend 0 (up_css demo_ctx)) \<and>
   parse (print (parse (up_css demo_ctx))) = parse (up_css demo_ctx)"
proof -
  have "(''up'', up_css) \<in> set styles" by (simp add: styles_def layout_styles_def)
  from styles_read_back [OF demo_hook_ok this] show ?thesis by blast
qed

text \<open>The condition of the media queries for narrow screens.\<close>

definition narrow :: "ctx \<Rightarrow> string \<Rightarrow> bool \<Rightarrow> string" where
  "narrow e bp pr = ''@media '' @ (if pr then ''print, '' else []) @ ''screen and (max-width: '' @
     th e [''breakpoints'', bp] @ '')''"

lemmas lookup_simps = computed_def parse_def lessThan_def narrow_def

text \<open>
  The columns of the page fill it exactly: the middle panel takes the row less the width of the
  right panel, the content takes the page less the width of the sidebar, and the background of the
  right column is as wide as the right panel of the content. On narrow screens both panels take
  the whole width and the row becomes a column.
\<close>

theorem panel_widths:
  assumes "th e [''rightPanel'', ''width''] = w" "w \<noteq> []" "th e [''sidebar'', ''width''] = s" "s \<noteq> []"
  shows "computed (Iu_css e) [] ''width'' = Some (''calc(100% - '' @ w @ '')'') \<and>
    computed (Nu_css e) [] ''width'' = Some w \<and>
    computed (Fv_css e) [] ''width'' = Some (''calc(100% - '' @ s @ '')'') \<and>
    computed (Dollar_v_css e) [] ''width'' = Some s \<and>
    computed (zv_css e) [] ''width'' = Some (if ends_with w ''%''
      then ''calc((100% - '' @ s @ '') * '' @ (case parse_int w of None \<Rightarrow> ''NaN'' | Some t \<Rightarrow> str_num t) @ '')''
      else w) \<and>
    computed (Iu_css e) [narrow e ''medium'' True] ''width'' = Some ''100%'' \<and>
    computed (Nu_css e) [narrow e ''medium'' True] ''width'' = Some ''100%'' \<and>
    computed (Lu_css e) [narrow e ''medium'' True] ''flex-direction'' = Some ''column''"
proof (intro conjI)
  show "computed (zv_css e) [] ''width'' = Some (if ends_with w ''%''
      then ''calc((100% - '' @ s @ '') * '' @ (case parse_int w of None \<Rightarrow> ''NaN'' | Some t \<Rightarrow> str_num t) @ '')''
      else w)"
    using assms by (simp add: lookup_simps zv_css_def right_background_width_def Let_def)
qed (use assms in \<open>simp_all add: lookup_simps Iu_css_def Nu_css_def Fv_css_def Dollar_v_css_def Lu_css_def\<close>)

theorem panel_widths_witness:
  "computed (zv_css demo_ctx) [] ''width'' = Some ''calc((100% - 260px) * 0.4)''"
proof -
  have 1: "th demo_ctx [''rightPanel'', ''width''] = ''40%''" "th demo_ctx [''sidebar'', ''width''] = ''260px''"
    by (simp_all add: th_def demo_ctx_def)
  have 2: "ends_with ''40%'' ''%''" "parse_int ''40%'' = Some 40" "str_num 40 = ''0.4''" by code_simp+
  from panel_widths [OF 1(1) _ 1(2)] show ?thesis by (simp add: 2)
qed

text \<open>
  Navigation on small screens: the sidebar is shown exactly when it is open, and the floating
  button, hidden otherwise, is shown; neither is printed.
\<close>

theorem navigation_display:
  "computed (Dollar_v_css e) [narrow e ''small'' False] ''display'' = Some (if flag e ''$open'' then ''flex'' else ''none'') \<and>
   computed (Dollar_v_css e) [] ''display'' = Some ''flex'' \<and>
   computed (Dollar_v_css e) [''@media print''] ''display'' = Some ''none'' \<and>
   computed (Lv_css e) [] ''display'' = Some ''none'' \<and>
   computed (Lv_css e) [narrow e ''small'' False] ''display'' = Some ''flex'' \<and>
   computed (Lv_css e) [''@media print''] ''display'' = Some ''none''"
  by (intro conjI) (simp_all add: lookup_simps Dollar_v_css_def Lv_css_def)

definition http_verbs :: "string list" where
  "http_verbs = [''get'', ''post'', ''put'', ''options'', ''patch'', ''delete'', ''basic'', ''link'', ''head'']"

lemma badge_colours:
  "list_all (\<lambda>v. th e [''colors'', ''http'', v] \<noteq> [] \<longrightarrow>
     computed (gy_css e) [''&.'' @ v] ''background-color'' = Some (th e [''colors'', ''http'', v]) \<and>
     computed (Badge_y_css e) [''&.'' @ v] ''background-color'' = Some (th e [''colors'', ''http'', v])) http_verbs"
  by (simp add: http_verbs_def lookup_simps gy_css_def Badge_y_css_def)

text \<open>
  The badge of an operation in the menu has the theme's colour of its HTTP verb, and the verb of
  an endpoint falls back to grey when the theme has no colour for it.
\<close>

theorem verb_colours:
  assumes "v \<in> set [''get'', ''post'', ''put'', ''options'', ''patch'', ''delete'', ''basic'', ''link'', ''head'']"
    and "th e [''colors'', ''http'', v] \<noteq> []"
  shows "computed (gy_css e) [''&.'' @ v] ''background-color'' = Some (th e [''colors'', ''http'', v]) \<and>
    computed (Badge_y_css e) [''&.'' @ v] ''background-color'' = Some (th e [''colors'', ''http'', v]) \<and>
    (attr e ''type'' = Some v \<longrightarrow> computed (Ry_css e) [] ''background-color'' = Some (th e [''colors'', ''http'', v])) \<and>
    (th e [''colors'', ''http'', attr_key e ''type''] = [] \<longrightarrow> computed (Ry_css e) [] ''background-color'' = Some ''#999999'')"
proof -
  have "computed (Ry_css e) [] ''background-color'' = Some (str_or (Some (th e [''colors'', ''http'', attr_key e ''type''])) ''#999999'')"
    by (simp add: lookup_simps Ry_css_def str_or_def str_truthy_def)
  moreover have "v \<in> set http_verbs" using assms(1) by (simp add: http_verbs_def)
  ultimately show ?thesis
    using badge_colours [of e] assms(2) by (auto simp: list_all_iff attr_key_def str_or_def str_truthy_def)
qed

theorem verb_colours_witness:
  "computed (gy_css demo_ctx) [''&.put''] ''background-color'' = Some ''#000''"
proof -
  have "th demo_ctx [''colors'', ''http'', ''put''] = ''#000''" by (simp add: th_def demo_ctx_def)
  then show ?thesis using verb_colours [of "''put''" demo_ctx] by simp
qed

text \<open>
  The rule that colours the path in an endpoint is attached to a selector with two dots, so no
  rule applies to the class of the path.
\<close>

theorem endpoint_path_colour_not_applied:
  "computed (Iy_css e) [class_of e ''Ty''] ''color'' = None \<and>
   computed (Iy_css e) [''.'' @ class_of e ''Ty''] ''color'' =
     (if flag e ''$inverted'' \<and> th e [''colors'', ''text'', ''primary''] = [] then None
      else Some (if flag e ''$inverted'' then th e [''colors'', ''text'', ''primary''] else ''#ffffff''))"
  by (simp add: lookup_simps Iy_css_def class_of_def)

end
