(* ===== verification/Redoc_Parser.thy ===== *)
theory Redoc_Parser
  imports Redoc_Util Redoc_Text
begin

text \<open>
  The OpenAPI parser of the ReDoc bundle (class \<open>vc\<close>): looking up references in the document,
  dereferencing with the stack of references on the way, merging a reference with its siblings
  (OpenAPI 3.1), and moving alternatives out of \<open>allOf\<close>.

  A value that may be \<open>undefined\<close> is an option; strings are UTF-8 bytes. Members that JavaScript
  objects inherit are not looked up.
\<close>

section \<open>Values\<close>

definition js_true :: "json \<Rightarrow> bool" where
  "js_true j = (case j of JNull \<Rightarrow> False | JBool b \<Rightarrow> b | JInt n \<Rightarrow> n \<noteq> 0 | JStr s \<Rightarrow> s \<noteq> [] | _ \<Rightarrow> True)"

text \<open>Reading a member; \<open>None\<close> is \<open>undefined\<close>.\<close>

fun member :: "json \<Rightarrow> string \<Rightarrow> json option" where
  "member (JObj kvs) k = map_of kvs k"
| "member _ k = None"

text \<open>The own entries of a value, as copied by spreading it into an object.\<close>

fun own_entries :: "json \<Rightarrow> (string \<times> json) list" where
  "own_entries (JObj kvs) = kvs"
| "own_entries (JArr xs) = zip (map str_nat [0 ..< length xs]) xs"
| "own_entries (JStr s) = zip (map str_nat [0 ..< length s]) (map (\<lambda>c. JStr [c]) s)"
| "own_entries _ = []"

definition spread :: "(string \<times> 'a) list \<Rightarrow> (string \<times> 'a) list \<Rightarrow> (string \<times> 'a) list" where
  "spread e t =
     map (\<lambda>(k, v). (k, case map_of t k of None \<Rightarrow> v | Some w \<Rightarrow> w)) e @ filter (\<lambda>(k, _). k \<notin> fst ` set e) t"

lemma map_of_spread: "map_of (spread e t) = map_of e ++ map_of t"
proof
  have old: "map_of (map (\<lambda>(k, v). (k, case map_of t k of None \<Rightarrow> v | Some w \<Rightarrow> w)) e) k =
      (case map_of e k of None \<Rightarrow> None | Some v \<Rightarrow> Some (case map_of t k of None \<Rightarrow> v | Some w \<Rightarrow> w))" for k
    by (induction e) (auto split: prod.split option.split)
  have "map_of (filter (\<lambda>(k, _). k \<notin> A) t) k = (if k \<in> A then None else map_of t k)" for A k
    by (induction t) auto
  then have new: "map_of (filter (\<lambda>(k, _). k \<notin> fst ` set e) t) k = (if map_of e k = None then map_of t k else None)" for k
    by (simp only: map_of_eq_None_iff if_not_P split: if_split) simp
  show "map_of (spread e t) k = (map_of e ++ map_of t) k" for k
    by (cases "map_of e k"; cases "map_of t k")
      (simp_all add: spread_def map_add_def old new)
qed

definition without :: "string list \<Rightarrow> (string \<times> json) list \<Rightarrow> (string \<times> json) list" where
  "without ks kvs = filter (\<lambda>(k, _). k \<notin> set ks) kvs"

lemma map_of_without [simp]: "map_of (without ks kvs) k = (if k \<in> set ks then None else map_of kvs k)"
  by (induction kvs) (auto simp: without_def)

text \<open>A value as a text, and as the name of a member.\<close>

fun js_text :: "json \<Rightarrow> string" where
  "js_text (JStr s) = s"
| "js_text (JInt n) = str_int n"
| "js_text (JBool b) = (if b then ''true'' else ''false'')"
| "js_text JNull = ''null''"
| "js_text (JArr xs) = join_with (CHR '','') (map (\<lambda>x. if x = JNull then [] else js_text x) xs)"
| "js_text (JObj _) = ''[object Object]''"

definition key_text :: "json option \<Rightarrow> string" where
  "key_text v = (case v of None \<Rightarrow> ''undefined'' | Some j \<Rightarrow> js_text j)"

definition opt_true :: "json option \<Rightarrow> bool" where
  "opt_true v = (case v of None \<Rightarrow> False | Some j \<Rightarrow> js_true j)"

text \<open>The characters of a text, as iterating over it gives them.\<close>

function (sequential) code_points :: "string \<Rightarrow> string list" where
  "code_points [] = []"
| "code_points (c # cs) = (c # takeWhile cont_byte cs) # code_points (dropWhile cont_byte cs)"
  by pat_completeness auto
termination
  by (relation "measure length") (auto simp: le_imp_less_Suc length_dropWhile_le)

section \<open>Runs\<close>

datatype parser_error = Not_OpenAPI | Uri_Error | Type_Error | Pointer_Error

text \<open>The outcome of a call: it never returns, raises, or returns a value.\<close>

type_synonym 'a run = "(parser_error + 'a) option"

abbreviation ok :: "'a \<Rightarrow> 'a run" where
  "ok x \<equiv> Some (Inr x)"

abbreviation raise :: "parser_error \<Rightarrow> 'a run" where
  "raise er \<equiv> Some (Inl er)"

definition and_then :: "'a run \<Rightarrow> ('a \<Rightarrow> 'b run) \<Rightarrow> 'b run" where
  "and_then m f = Option.bind m (\<lambda>r. case r of Inl er \<Rightarrow> raise er | Inr x \<Rightarrow> f x)"

lemma and_then_simps [simp]: "and_then (ok x) f = f x" "and_then (raise er) f = raise er" "and_then None f = None"
  by (simp_all add: and_then_def)

lemma and_then_ok: "and_then m f = ok y \<longleftrightarrow> (\<exists>x. m = ok x \<and> f x = ok y)"
  by (cases m) (auto simp: and_then_def split: sum.splits)

lemma and_then_cong [fundef_cong]:
  "m = m' \<Longrightarrow> (\<And>x. m' = ok x \<Longrightarrow> f x = g x) \<Longrightarrow> and_then m f = and_then m' g"
  by (cases m') (auto simp: and_then_def split: sum.splits)

lemma and_then_mono [partial_function_mono]:
  assumes "mono_option B" "\<And>y. mono_option (\<lambda>f. C y f)"
  shows "mono_option (\<lambda>f. and_then (B f) (\<lambda>y. C y f))"
  unfolding and_then_def
proof (rule bind_mono [OF assms(1)])
  show "mono_option (\<lambda>f. case r of Inl er \<Rightarrow> raise er | Inr y \<Rightarrow> C y f)" for r
    by (cases r) (simp_all add: assms(2) option.const_mono)
qed

text \<open>Going through a list with a state.\<close>

primrec fold_run :: "('a \<Rightarrow> 's \<Rightarrow> 's run) \<Rightarrow> 'a list \<Rightarrow> 's \<Rightarrow> 's run" where
  "fold_run f [] s = ok s"
| "fold_run f (x # xs) s = and_then (f x s) (fold_run f xs)"

lemma fold_run_mono [partial_function_mono]:
  assumes "\<And>x s. mono_option (\<lambda>f. B x s f)"
  shows "mono_option (\<lambda>f. fold_run (\<lambda>x s. B x s f) xs s)"
  by (induction xs arbitrary: s) (auto intro!: and_then_mono assms option.const_mono)

text \<open>What holds at the start and is kept by every step holds at the end.\<close>

lemma fold_run_invariant:
  assumes "fold_run f xs s = ok s'" "P s" "\<And>x s s'. x \<in> set xs \<Longrightarrow> P s \<Longrightarrow> f x s = ok s' \<Longrightarrow> P s'"
  shows "P s'"
  using assms
proof (induction xs arbitrary: s)
  case (Cons x xs)
  then obtain s1 where "f x s = ok s1" "fold_run f xs s1 = ok s'" by (auto simp: and_then_ok)
  with Cons.IH [of s1] Cons.prems show ?case by simp blast
qed simp

section \<open>Looking up references\<close>

record parser =
  spec :: json
  allowMergeRefs :: bool
  ignoreNamedSchemas :: "string list"

text \<open>The constructor, with its check of the document.\<close>

definition vc :: "json \<Rightarrow> string list \<Rightarrow> parser_error + parser" where
  "vc e ignored =
     (case member e ''openapi'' of
        None \<Rightarrow> Inl Not_OpenAPI
      | Some (JStr v) \<Rightarrow> Inr \<lparr>spec = e, allowMergeRefs = starts_with v ''3.1'', ignoreNamedSchemas = ignored\<rparr>
      | Some _ \<Rightarrow> Inl Type_Error)"

text \<open>\<open>get\<close> of the JSON pointer library; a missing token raises.\<close>

fun pointer_get :: "json \<Rightarrow> string list \<Rightarrow> json option" where
  "pointer_get e [] = Some e"
| "pointer_get (JObj kvs) (k # ks) = (case map_of kvs k of None \<Rightarrow> None | Some v \<Rightarrow> pointer_get v ks)"
| "pointer_get (JArr xs) (k # ks) =
     (case find_index (\<lambda>i. str_nat i = k) [0 ..< length xs] of None \<Rightarrow> None | Some i \<Rightarrow> pointer_get (xs ! i) ks)"
| "pointer_get _ (k # ks) = None"

text \<open>An error of the lookup is swallowed, and a missing or falsy value becomes an empty object.\<close>

definition byRef :: "parser \<Rightarrow> string \<Rightarrow> parser_error + json" where
  "byRef p e =
     (case decodeURIComponent (if starts_with e ''#'' then e else ''#'' @ e) of
        None \<Rightarrow> Inl Uri_Error
      | Some d \<Rightarrow>
          Inr (case Ua_parse d of
                 Inl _ \<Rightarrow> JObj []
               | Inr ks \<Rightarrow> (case pointer_get (spec p) ks of Some v \<Rightarrow> if js_true v then v else JObj [] | None \<Rightarrow> JObj [])))"

section \<open>Dereferencing\<close>

definition isRef :: "json option \<Rightarrow> bool" where
  "isRef e \<longleftrightarrow> (case e of None \<Rightarrow> False | Some j \<Rightarrow> js_true j \<and> member j ''$ref'' \<notin> {None, Some JNull})"

text \<open>\<open>fs\<close>: the name in a reference to a schema or a path item.\<close>

definition fs :: "string \<Rightarrow> string option" where
  "fs e =
     (case List.find (\<lambda>pre. starts_with e pre) [''#/components/schemas/'', ''#/components/pathItems/''] of
        None \<Rightarrow> None
      | Some pre \<Rightarrow> (let n = drop (length pre) e in if n \<noteq> [] \<and> CHR ''/'' \<notin> set n then Some n else None))"

definition yc :: "string list \<Rightarrow> string \<Rightarrow> string list" where
  "yc e t = (if t \<noteq> [] \<and> (e = [] \<or> last e \<noteq> t) then e @ [t] else e)"

definition refs_stack :: "json option \<Rightarrow> string list" where
  "refs_stack e =
     (case e of None \<Rightarrow> []
      | Some j \<Rightarrow> (case member j ''x-refsStack'' of
                     Some (JArr xs) \<Rightarrow> List.map_filter (\<lambda>x. case x of JStr s \<Rightarrow> Some s | _ \<Rightarrow> None) xs
                   | _ \<Rightarrow> []))"

definition annotations :: "string list" where
  "annotations = [''description'', ''title'', ''externalDocs'', ''x-refsStack'', ''x-parentRefs'', ''readOnly'', ''writeOnly'']"

definition mergeRefs :: "json \<Rightarrow> json \<Rightarrow> bool \<Rightarrow> json" where
  "mergeRefs e t n =
     (let siblings = without [''$ref''] (own_entries e);
          own = [''description'', ''title'', ''readOnly'', ''writeOnly''] in
      if siblings = [] then t
      else if n \<and> (\<exists>(k, _) \<in> set siblings. k \<notin> set annotations)
      then JObj [(''allOf'', JArr
             [JObj (List.map_filter (\<lambda>k. map_option (Pair k) (map_of siblings k)) own), t, JObj (without own siblings)])]
      else JObj (spread (spread [] (own_entries t)) siblings))"

text \<open>
  The recursive call gets the stack without the reference being resolved. \<open>None\<close> is a call that
  never returns.
\<close>

partial_function (option) deref ::
  "parser \<Rightarrow> json option \<Rightarrow> string list \<Rightarrow> bool \<Rightarrow> (parser_error + json option \<times> string list) option" where
  "deref p e t0 n =
     (let t = t0 @ refs_stack e in
      if isRef e then
        (case member (the e) ''$ref'' of
           Some (JStr ref) \<Rightarrow>
             (if fs ref \<noteq> None \<and> the (fs ref) \<in> set (ignoreNamedSchemas p)
              then Some (Inr (Some (JObj [(''type'', JStr ''object''), (''title'', JStr (the (fs ref)))]), t))
              else
                (case byRef p ref of
                   Inl er \<Rightarrow> Some (Inl er)
                 | Inr i \<Rightarrow>
                     Option.bind
                       (if ref \<in> set t \<or> 999 < length t
                        then Some (Inr (Some (JObj (spread (own_entries i) [(''x-circular-ref'', JBool True)])), t))
                        else if isRef (Some i) then deref p (Some i) t n
                        else Some (Inr (Some i, t)))
                       (\<lambda>r. case r of
                          Inl er \<Rightarrow> Some (Inl er)
                        | Inr (j, _) \<Rightarrow>
                            Some (Inr (if allowMergeRefs p then Some (mergeRefs (the e) (the j) n) else j, yc t ref)))))
         | _ \<Rightarrow> Some (Inl Type_Error))
      else Some (Inr (e, t @ refs_stack e)))"

section \<open>Alternatives inside of \<open>allOf\<close>\<close>

text \<open>The first element of \<open>allOf\<close> with alternatives; reading a member of \<open>null\<close> raises.\<close>

fun first_oneOf :: "json list \<Rightarrow> json list \<Rightarrow> parser_error + (json list \<times> json list \<times> json list) option" where
  "first_oneOf before [] = Inr None"
| "first_oneOf before (r # rest) =
     (if r = JNull then Inl Type_Error
      else (case member r ''oneOf'' of
              Some (JArr alts) \<Rightarrow> Inr (Some (rev before, alts, rest))
            | _ \<Rightarrow> first_oneOf (r # before) rest))"

definition hoistOneOfs :: "json \<Rightarrow> string list \<Rightarrow> parser_error + json" where
  "hoistOneOfs e t =
     (case member e ''allOf'' of
        Some (JArr n) \<Rightarrow>
          (case first_oneOf [] n of
             Inl er \<Rightarrow> Inl er
           | Inr None \<Rightarrow> Inr e
           | Inr (Some (i, alts, rest)) \<Rightarrow>
               Inr (JObj [(''oneOf'', JArr (map (\<lambda>a. JObj [(''allOf'', JArr (i @ [a] @ rest)),
                  (''x-refsStack'', JArr (map JStr t))]) alts))]))
      | Some JNull \<Rightarrow> Inl Type_Error
      | _ \<Rightarrow> Inr e)"

section \<open>Following references\<close>

text \<open>An object that refers to another part of the document and has no stack of its own.\<close>

definition refers :: "json \<Rightarrow> string \<Rightarrow> bool" where
  "refers j r \<longleftrightarrow> member j ''$ref'' = Some (JStr r) \<and> refs_stack (Some j) = []"

definition plain :: "parser \<Rightarrow> string list \<Rightarrow> string \<Rightarrow> bool" where
  "plain p t r \<longleftrightarrow> (fs r = None \<or> the (fs r) \<notin> set (ignoreNamedSchemas p)) \<and> r \<notin> set t"

text \<open>A reference leads over the objects \<open>ws\<close>, which refer further, to the value \<open>v\<close>.\<close>

inductive leads_to :: "parser \<Rightarrow> string list \<Rightarrow> string \<Rightarrow> json list \<Rightarrow> json \<Rightarrow> bool" for p t where
  arrives: "plain p t r \<Longrightarrow> byRef p r = Inr v \<Longrightarrow> \<not> isRef (Some v) \<Longrightarrow> leads_to p t r [] v"
| hops: "plain p t r \<Longrightarrow> byRef p r = Inr w \<Longrightarrow> refers w r' \<Longrightarrow> leads_to p t r' ws v \<Longrightarrow> leads_to p t r (w # ws) v"

text \<open>From version 3.1 on the members beside a reference are laid over what it leads to.\<close>

definition overlaid :: "parser \<Rightarrow> bool \<Rightarrow> json list \<Rightarrow> json \<Rightarrow> json" where
  "overlaid p n js v = (if allowMergeRefs p then foldr (\<lambda>e u. mergeRefs e u n) js v else v)"

definition bare_ref :: "json \<Rightarrow> bool" where
  "bare_ref j \<longleftrightarrow> without [''$ref''] (own_entries j) = []"

lemma overlaid_bare: "list_all bare_ref js \<Longrightarrow> overlaid p n js v = v"
  by (induction js) (auto simp: overlaid_def bare_ref_def mergeRefs_def Let_def)

lemma refers_isRef: "refers j r \<Longrightarrow> isRef (Some j)"
  by (cases j) (auto simp: refers_def isRef_def js_true_def)

lemma deref_refers:
  assumes "refers e r" "plain p t r" "byRef p r = Inr i" "length t \<le> 999"
  shows "deref p (Some e) t n = Option.bind (if isRef (Some i) then deref p (Some i) t n else Some (Inr (Some i, t)))
    (\<lambda>x. case x of Inl er \<Rightarrow> Some (Inl er)
       | Inr (j, _) \<Rightarrow> Some (Inr (if allowMergeRefs p then Some (mergeRefs e (the j) n) else j, yc t r)))"
proof -
  have "member e ''$ref'' = Some (JStr r)" "refs_stack (Some e) = []" "isRef (Some e)"
    using assms(1) refers_isRef [OF assms(1)] by (simp_all add: refers_def)
  then show ?thesis using assms(2,3,4) by (subst deref.simps) (auto simp: plain_def Let_def)
qed

lemma leads_to_deref:
  assumes "leads_to p t r ws v" "length t \<le> 999"
  shows "refers e r \<Longrightarrow> deref p (Some e) t n = Some (Inr (Some (overlaid p n (e # ws) v), yc t r))"
  using assms
proof (induction arbitrary: e rule: leads_to.induct)
  case (arrives r v)
  then show ?case by (simp add: deref_refers overlaid_def)
next
  case (hops r w r' ws v)
  then show ?case using refers_isRef [OF hops.hyps(3)]
    by (simp add: deref_refers [OF hops.prems(1) hops.hyps(1,2)] overlaid_def)
qed

lemma deref_in_cycle:
  assumes cycle: "\<And>r. r \<in> C \<Longrightarrow> plain p t r \<and> (\<exists>w r'. byRef p r = Inr w \<and> refers w r' \<and> r' \<in> C)"
    and "length t \<le> 999" "deref p' e' t' n' = Some y"
  shows "\<not> (p' = p \<and> t' = t \<and> (\<exists>j r. e' = Some j \<and> refers j r \<and> r \<in> C))"
proof (rule deref.raw_induct [of "\<lambda>p' e' t' n' y. \<not> (p' = p \<and> t' = t \<and> (\<exists>j r. e' = Some j \<and> refers j r \<and> r \<in> C))", OF _ assms(3)], rule notI)
  fix D p' e' t' n' y
  assume IH: "\<And>p' e' t' n' y. D p' e' t' n' = Some y \<Longrightarrow> \<not> (p' = p \<and> t' = t \<and> (\<exists>j r. e' = Some j \<and> refers j r \<and> r \<in> C))"
    and eq: "(let ta = t' @ refs_stack e' in
      if isRef e' then
        (case member (the e') ''$ref'' of
           Some (JStr ref) \<Rightarrow>
             (if fs ref \<noteq> None \<and> the (fs ref) \<in> set (ignoreNamedSchemas p')
              then Some (Inr (Some (JObj [(''type'', JStr ''object''), (''title'', JStr (the (fs ref)))]), ta))
              else
                (case byRef p' ref of
                   Inl er \<Rightarrow> Some (Inl er)
                 | Inr i \<Rightarrow>
                     Option.bind
                       (if ref \<in> set ta \<or> 999 < length ta
                        then Some (Inr (Some (JObj (spread (own_entries i) [(''x-circular-ref'', JBool True)])), ta))
                        else if isRef (Some i) then D p' (Some i) ta n'
                        else Some (Inr (Some i, ta)))
                       (\<lambda>r. case r of
                          Inl er \<Rightarrow> Some (Inl er)
                        | Inr (j, _) \<Rightarrow>
                            Some (Inr (if allowMergeRefs p' then Some (mergeRefs (the e') (the j) n') else j, yc ta ref)))))
         | _ \<Rightarrow> Some (Inl Type_Error))
      else Some (Inr (e', ta @ refs_stack e'))) = Some y"
    and bad: "p' = p \<and> t' = t \<and> (\<exists>j r. e' = Some j \<and> refers j r \<and> r \<in> C)"
  from bad obtain j r where j: "p' = p" "t' = t" "e' = Some j" "refers j r" "r \<in> C" by blast
  from cycle [OF j(5)] obtain w r' where w: "plain p t r" "byRef p r = Inr w" "refers w r'" "r' \<in> C" by blast
  have "D p (Some w) t n' = None" using IH [of p "Some w" t n'] w by (cases "D p (Some w) t n'") blast+
  moreover have "member j ''$ref'' = Some (JStr r)" "refs_stack (Some j) = []" "isRef (Some j)" "isRef (Some w)"
    using j(4) refers_isRef [OF j(4)] refers_isRef [OF w(3)] by (simp_all add: refers_def)
  ultimately show False using eq j w(1,2) assms(2) by (auto simp: plain_def Let_def)
qed

section \<open>Properties\<close>

definition demo_document :: parser where
  "demo_document = \<lparr>spec = JObj [(''a'', JObj [(''$ref'', JStr ''#/b'')]), (''b'', JObj [(''$ref'', JStr ''#/c'')]),
     (''c'', JObj [(''type'', JStr ''object'')]), (''x'', JObj [(''$ref'', JStr ''#/y'')]), (''y'', JObj [(''$ref'', JStr ''#/x'')])],
     allowMergeRefs = False, ignoreNamedSchemas = []\<rparr>"

text \<open>
  C23: Dereferencing follows a finite chain of references, however long, to the value at its end and
  returns it with the first reference added to the stack; in documents of version 3.1 the members
  beside the references are laid over it, the outermost last, so that the value itself is returned
  if no object on the way has other members. No reference of the chain is ignored by name or already
  on the stack, which has fewer than 1000 entries.
\<close>

theorem deref_follows_chain:
  assumes "leads_to p t r ws v" "length t \<le> 999" "refers e r"
  shows "\<exists>u. deref p (Some e) t n = Some (Inr (Some u, yc t r)) \<and> \<not> isRef (Some v) \<and>
    (\<not> allowMergeRefs p \<or> list_all bare_ref (e # ws) \<longrightarrow> u = v) \<and>
    (allowMergeRefs p \<longrightarrow> u = foldr (\<lambda>j u. mergeRefs j u n) (e # ws) v)"
proof -
  have "\<not> isRef (Some v)" using assms(1) by (induction rule: leads_to.induct)
  moreover have "list_all bare_ref (e # ws) \<longrightarrow> overlaid p n (e # ws) v = v" by (rule impI, rule overlaid_bare)
  ultimately show ?thesis
    using leads_to_deref [OF assms] by (intro exI [of _ "overlaid p n (e # ws) v"]) (auto simp: overlaid_def)
qed

theorem deref_follows_chain_witness:
  "deref demo_document (Some (JObj [(''$ref'', JStr ''#/a'')])) [] False =
     Some (Inr (Some (JObj [(''type'', JStr ''object'')]), [''#/a''])) \<and>
   deref (demo_document\<lparr>allowMergeRefs := True\<rparr>) (Some (JObj [(''$ref'', JStr ''#/a''), (''title'', JStr ''A'')])) [] False =
     Some (Inr (Some (JObj [(''type'', JStr ''object''), (''title'', JStr ''A'')]), [''#/a'']))"
proof -
  let ?v = "JObj [(''type'', JStr ''object'')]" and ?e = "JObj [(''$ref'', JStr ''#/a''), (''title'', JStr ''A'')]"
  let ?ws = "[JObj [(''$ref'', JStr ''#/b'')], JObj [(''$ref'', JStr ''#/c'')]]"
  have by_ref: "byRef (demo_document\<lparr>allowMergeRefs := b\<rparr>) ''#/a'' = Inr (JObj [(''$ref'', JStr ''#/b'')])"
    "byRef (demo_document\<lparr>allowMergeRefs := b\<rparr>) ''#/b'' = Inr (JObj [(''$ref'', JStr ''#/c'')])"
    "byRef (demo_document\<lparr>allowMergeRefs := b\<rparr>) ''#/c'' = Inr ?v" for b
    by (cases b; code_simp)+
  have pl: "plain (demo_document\<lparr>allowMergeRefs := b\<rparr>) [] r" for b r
    by (simp add: plain_def demo_document_def)
  have rf: "refers (JObj [(''$ref'', JStr r)]) r" "refers ?e ''#/a''" for r by (simp_all add: refers_def refs_stack_def)
  have "leads_to (demo_document\<lparr>allowMergeRefs := b\<rparr>) [] ''#/c'' [] ?v" for b
    by (rule arrives [OF pl by_ref(3)]) (simp add: isRef_def)
  then have l: "leads_to (demo_document\<lparr>allowMergeRefs := b\<rparr>) [] ''#/a'' ?ws ?v" for b
    by (intro hops [OF pl by_ref(1) rf(1) hops [OF pl by_ref(2) rf(1)]])
  have d: "demo_document\<lparr>allowMergeRefs := False\<rparr> = demo_document" by (simp add: demo_document_def)
  have "foldr (\<lambda>j u. mergeRefs j u False) (?e # ?ws) ?v = JObj [(''type'', JStr ''object''), (''title'', JStr ''A'')]"
    by code_simp
  with deref_follows_chain [OF l _ rf(2), of True False] deref_follows_chain [OF l _ rf(1), of False False]
  show ?thesis by (simp add: yc_def d) (simp add: demo_document_def)
qed

text \<open>
  C24: References that only lead to each other are not detected: dereferencing any of them never
  returns, because the stack that is checked for circles is handed on unchanged.
\<close>

theorem deref_cycle_never_returns:
  assumes "\<And>r. r \<in> C \<Longrightarrow> plain p t r \<and> (\<exists>w r'. byRef p r = Inr w \<and> refers w r' \<and> r' \<in> C)"
    and "length t \<le> 999" "refers e r" "r \<in> C"
  shows "deref p (Some e) t n = None"
proof (cases "deref p (Some e) t n")
  case (Some y)
  from deref_in_cycle [OF assms(1,2) this] assms(3,4) show ?thesis by blast
qed

theorem deref_cycle_never_returns_witness:
  "deref demo_document (Some (JObj [(''$ref'', JStr ''#/x'')])) [] False = None"
proof -
  have by_ref: "byRef demo_document ''#/x'' = Inr (JObj [(''$ref'', JStr ''#/y'')])" "byRef demo_document ''#/y'' = Inr (JObj [(''$ref'', JStr ''#/x'')])"
    by code_simp+
  have rf: "refers (JObj [(''$ref'', JStr r)]) r" for r by (simp add: refers_def refs_stack_def)
  have pl: "plain demo_document [] ''#/x''" "plain demo_document [] ''#/y''" by (simp_all add: plain_def demo_document_def)
  show ?thesis
    by (rule deref_cycle_never_returns [where C = "{''#/x'', ''#/y''}", OF _ _ rf]) (use by_ref rf pl in \<open>auto\<close>)
qed

text \<open>A reference to a part that does not exist resolves to an empty object, without an error.\<close>

theorem dangling_reference_is_empty:
  assumes "refers e r" "plain p t r" "length t \<le> 999" "\<not> allowMergeRefs p"
    and "decodeURIComponent (if starts_with r ''#'' then r else ''#'' @ r) = Some d" "Ua_parse d = Inr ks" "pointer_get (spec p) ks = None"
  shows "deref p (Some e) t n = Some (Inr (Some (JObj []), yc t r))"
proof -
  have "byRef p r = Inr (JObj [])" using assms(5-7) by (simp add: byRef_def)
  from deref_refers [OF assms(1,2) this assms(3)] assms(4) show ?thesis by (simp add: isRef_def)
qed

text \<open>
  What a schema demands: the keywords that \<open>V\<close> checks on the object alone, all of \<open>allOf\<close>, and
  exactly one of \<open>oneOf\<close>.
\<close>

lemma member_size: "member j k = Some (JArr xs) \<Longrightarrow> x \<in> set xs \<Longrightarrow> size x < size j"
proof (cases j)
  case (JObj kvs)
  assume m: "member j k = Some (JArr xs)" and x: "x \<in> set xs"
  have "(k, JArr xs) \<in> set kvs" using m JObj by (auto dest: map_of_SomeD)
  then have "size (JArr xs) < size j" unfolding JObj by (induction kvs) auto
  moreover have "size x < size (JArr xs)" using x by (induction xs) auto
  ultimately show ?thesis by simp
qed simp_all

function meets :: "(json \<Rightarrow> bool) \<Rightarrow> json \<Rightarrow> bool" where
  "meets V j \<longleftrightarrow> V j \<and>
     (case member j ''allOf'' of Some (JArr xs) \<Rightarrow> (\<forall>x \<in> set xs. meets V x) | _ \<Rightarrow> True) \<and>
     (case member j ''oneOf'' of Some (JArr xs) \<Rightarrow> length (filter (meets V) xs) = 1 | _ \<Rightarrow> True)"
  by pat_completeness auto
termination by (relation "measure (\<lambda>(V, j). size j)") (auto intro: member_size)

declare meets.simps [simp del]

lemma meets_allOf:
  "V (JObj ((''allOf'', JArr xs) # kvs)) \<Longrightarrow> map_of kvs ''oneOf'' = None \<Longrightarrow>
     meets V (JObj ((''allOf'', JArr xs) # kvs)) \<longleftrightarrow> (\<forall>x \<in> set xs. meets V x)"
  by (subst meets.simps) simp

lemma meets_oneOf:
  "V (JObj [(''oneOf'', JArr xs)]) \<Longrightarrow> meets V (JObj [(''oneOf'', JArr xs)]) \<longleftrightarrow> length (filter (meets V) xs) = 1"
  by (subst meets.simps) simp

lemma first_oneOf_Some:
  "first_oneOf before n = Inr (Some (i, alts, rest)) \<Longrightarrow> \<exists>r. rev before @ n = i @ [r] @ rest \<and> member r ''oneOf'' = Some (JArr alts)"
  by (induction before n rule: first_oneOf.induct) (auto split: if_splits option.splits json.splits)

lemma length_filter_conj: "length (filter (\<lambda>a. P \<and> Q a) xs) = (if P then length (filter Q xs) else 0)"
  by simp

text \<open>
  C28: Moving alternatives out of \<open>allOf\<close> keeps the meaning of a schema that consists of \<open>allOf\<close> and
  whose alternatives stand alone; but the result has no member besides \<open>oneOf\<close>, so every other
  keyword of the schema is lost.
\<close>

theorem hoisting_keeps_combinators_only:
  assumes "hoistOneOfs e t = Inr j" "j \<noteq> e"
  shows "(\<forall>k. k \<noteq> ''oneOf'' \<longrightarrow> member j k = None) \<and>
    (\<forall>V n. e = JObj [(''allOf'', JArr n)] \<and> (\<forall>kvs. fst ` set kvs \<subseteq> set [''allOf'', ''oneOf'', ''x-refsStack''] \<longrightarrow> V (JObj kvs)) \<and>
       (\<forall>r alts. r \<in> set n \<and> member r ''oneOf'' = Some (JArr alts) \<longrightarrow> r = JObj [(''oneOf'', JArr alts)]) \<longrightarrow>
       (meets V j \<longleftrightarrow> meets V e))"
proof -
  obtain n i alts rest where n: "member e ''allOf'' = Some (JArr n)" "first_oneOf [] n = Inr (Some (i, alts, rest))"
    and j: "j = JObj [(''oneOf'', JArr (map (\<lambda>a. JObj [(''allOf'', JArr (i @ [a] @ rest)), (''x-refsStack'', JArr (map JStr t))]) alts))]"
    using assms by (auto simp: hoistOneOfs_def split: option.splits json.splits sum.splits)
  have "meets V j \<longleftrightarrow> meets V e" if e: "e = JObj [(''allOf'', JArr m)]"
    and V: "\<And>kvs. fst ` set kvs \<subseteq> set [''allOf'', ''oneOf'', ''x-refsStack''] \<Longrightarrow> V (JObj kvs)"
    and alone: "\<And>r alts. r \<in> set m \<Longrightarrow> member r ''oneOf'' = Some (JArr alts) \<Longrightarrow> r = JObj [(''oneOf'', JArr alts)]" for V m
  proof -
    have m: "m = n" using n(1) e by simp
    from first_oneOf_Some [OF n(2)] obtain r where r: "n = i @ [r] @ rest" "member r ''oneOf'' = Some (JArr alts)" by auto
    have r': "r = JObj [(''oneOf'', JArr alts)]" using alone [of r alts] r m by simp
    let ?rest = "\<forall>x \<in> set (i @ rest). meets V x"
    have "meets V e \<longleftrightarrow> ?rest \<and> length (filter (meets V) alts) = 1"
      unfolding e m using meets_allOf [of V n "[]"] meets_oneOf [of V alts] V r r' by auto
    moreover have "meets V (JObj [(''allOf'', JArr (i @ [a] @ rest)), (''x-refsStack'', s)]) \<longleftrightarrow> ?rest \<and> meets V a" for a s
      using meets_allOf [of V "i @ [a] @ rest" "[(''x-refsStack'', s)]"] V by auto
    then have "meets V j \<longleftrightarrow> length (filter (\<lambda>a. ?rest \<and> meets V a) alts) = 1"
      unfolding j using meets_oneOf [of V] V by (simp add: filter_map comp_def)
    ultimately show ?thesis unfolding length_filter_conj by auto
  qed
  moreover have "member j k = None" if "k \<noteq> ''oneOf''" for k using that by (simp add: j)
  ultimately show ?thesis by blast
qed

theorem hoisting_keeps_combinators_only_witness:
  "\<exists>j. hoistOneOfs (JObj [(''allOf'', JArr [JObj [(''oneOf'', JArr [JObj []])]]), (''required'', JArr [JStr ''id''])]) [] = Inr j \<and>
     member j ''required'' = None"
proof -
  let ?e = "JObj [(''allOf'', JArr [JObj [(''oneOf'', JArr [JObj []])]]), (''required'', JArr [JStr ''id''])]"
  have h: "hoistOneOfs ?e [] = Inr (JObj [(''oneOf'', JArr [JObj [(''allOf'', JArr [JObj []]), (''x-refsStack'', JArr [])]])])"
    by (simp add: hoistOneOfs_def)
  from hoisting_keeps_combinators_only [OF h] show ?thesis using h by simp
qed

end
