(* ===== verification/Redoc_Operations.thy ===== *)
theory Redoc_Operations
  imports Redoc_Parser Redoc_Menu
begin

text \<open>
  From an OpenAPI document to the menu of the ReDoc page: collecting the operations of paths and
  webhooks under their tags (\<open>hf.getTagsWithOperations\<close>), the names of operations, and what an
  operation shows of its parameters and responses (class \<open>Tu\<close>).
\<close>

section \<open>Operations by tag\<close>

record op_entry =
  oe_spec :: json
  oe_path :: string
  oe_verb :: string
  oe_pointer :: string
  oe_pathParameters :: json
  oe_isWebhook :: bool

record tag_entry =
  te_tag :: json
  te_operations :: "op_entry list"

type_synonym tag_table = "(string \<times> tag_entry) list"

text \<open>The keys of a path item that are operations, or the reference.\<close>

definition ts :: "string list" where
  "ts = [''get'', ''post'', ''put'', ''head'', ''patch'', ''delete'', ''options'', ''$ref'']"

text \<open>
  Plain objects also have the names of their prototype: \<open>in\<close> finds them, and so does reading a member.
\<close>

definition inherited :: "string list" where
  "inherited = [''constructor'', ''hasOwnProperty'', ''isPrototypeOf'', ''propertyIsEnumerable'', ''toLocaleString'',
     ''toString'', ''valueOf'', ''__defineGetter__'', ''__defineSetter__'', ''__lookupGetter__'', ''__lookupSetter__'', ''__proto__'']"

definition ns :: "string \<Rightarrow> bool" where
  "ns e \<longleftrightarrow> e \<in> set ts \<or> e \<in> set inherited"

definition verbs_of :: "json \<Rightarrow> string list" where
  "verbs_of item = filter ns (map fst (own_entries item))"

text \<open>The tags of an operation; an object with a length is not iterable.\<close>

definition op_tags :: "json option \<Rightarrow> parser_error + string list" where
  "op_tags op =
     (case Option.bind op (\<lambda>j. member j ''tags'') of
        Some (JArr xs) \<Rightarrow> Inr (if xs = [] then [[]] else map (\<lambda>x. key_text (Some x)) xs)
      | Some (JStr s) \<Rightarrow> Inr (if s = [] then [[]] else code_points s)
      | Some (JObj kvs) \<Rightarrow> if opt_true (map_of kvs ''length'') then Inl Type_Error else Inr [[]]
      | _ \<Rightarrow> Inr [[]])"

definition op_entry_of :: "bool \<Rightarrow> string \<Rightarrow> json \<Rightarrow> string \<Rightarrow> op_entry" where
  "op_entry_of webhook path item verb =
     \<lparr>oe_spec = (case member item verb of None \<Rightarrow> JObj [] | Some j \<Rightarrow> j), oe_path = path, oe_verb = verb,
      oe_pointer = pointer_compile [''paths'', path, verb],
      oe_pathParameters = (case member item ''parameters'' of None \<Rightarrow> JArr [] | Some j \<Rightarrow> if js_true j then j else JArr []),
      oe_isWebhook = webhook\<rparr>"

definition is_trait :: "tag_entry \<Rightarrow> bool" where
  "is_trait t = opt_true (member (te_tag t) ''x-traitTag'')"

text \<open>
  What the table of tags finds under an inherited name has no list of operations.
\<close>

definition add_to_tag :: "op_entry \<Rightarrow> string \<Rightarrow> tag_table \<Rightarrow> parser_error + tag_table" where
  "add_to_tag op name n =
     (case map_of n name of
        None \<Rightarrow>
          if name \<in> set inherited then Inl Type_Error
          else Inr (n @ [(name, \<lparr>te_tag = JObj [(''name'', JStr name)], te_operations = [op]\<rparr>)])
      | Some t \<Rightarrow> Inr (if is_trait t then n else AList.update name (t\<lparr>te_operations := te_operations t @ [op]\<rparr>) n))"

fun add_to_tags :: "op_entry \<Rightarrow> string list \<Rightarrow> tag_table \<Rightarrow> parser_error + tag_table" where
  "add_to_tags op [] n = Inr n"
| "add_to_tags op (name # names) n = (case add_to_tag op name n of Inl er \<Rightarrow> Inl er | Inr n' \<Rightarrow> add_to_tags op names n')"

definition add_operation :: "bool \<Rightarrow> string \<Rightarrow> json \<Rightarrow> string \<Rightarrow> tag_table \<Rightarrow> parser_error + tag_table" where
  "add_operation webhook path item verb n =
     (case op_tags (member item verb) of
        Inl er \<Rightarrow> Inl er
      | Inr names \<Rightarrow> add_to_tags (op_entry_of webhook path item verb) names n)"

text \<open>
  One path item. When it has a reference, every key of it, the reference and each operation beside
  it, collects the operations of the referenced item. \<open>None\<close> is a call that never returns.
\<close>

partial_function (option) collect_item ::
  "parser \<Rightarrow> bool \<Rightarrow> string \<Rightarrow> json \<Rightarrow> string list \<Rightarrow> tag_table \<Rightarrow> tag_table run" where
  "collect_item p webhook path item verbs n =
     (case verbs of
        [] \<Rightarrow> ok n
      | v # vs \<Rightarrow>
          and_then
            (if opt_true (member item ''$ref'')
             then and_then (deref p (Some item) [] False)
                    (\<lambda>(r, _). case r of
                       None \<Rightarrow> raise Type_Error
                     | Some j \<Rightarrow> if j = JNull then raise Type_Error else collect_item p webhook path j (verbs_of j) n)
             else Some (add_operation webhook path item v n))
            (\<lambda>n'. collect_item p webhook path item vs n'))"

fun collect_paths :: "parser \<Rightarrow> bool \<Rightarrow> (string \<times> json) list \<Rightarrow> tag_table \<Rightarrow> tag_table run" where
  "collect_paths p webhook [] n = ok n"
| "collect_paths p webhook ((path, item) # rest) n =
     (if item = JNull then raise Type_Error
      else and_then (collect_item p webhook path item (verbs_of item) n) (collect_paths p webhook rest))"

text \<open>The tags that the document declares, by name; the last one of a name counts.\<close>

definition declare_tag :: "tag_table \<Rightarrow> json \<Rightarrow> tag_table" where
  "declare_tag n t = AList.update (key_text (member t ''name'')) \<lparr>te_tag = t, te_operations = []\<rparr> n"

definition declared_tags :: "json \<Rightarrow> parser_error + tag_table" where
  "declared_tags sp =
     (case member sp ''tags'' of
        None \<Rightarrow> Inr []
      | Some (JArr xs) \<Rightarrow> if JNull \<in> set xs then Inl Type_Error else Inr (foldl declare_tag [] xs)
      | Some (JStr s) \<Rightarrow> Inr (foldl declare_tag [] (map JStr (code_points s)))
      | Some j \<Rightarrow> if js_true j then Inl Type_Error else Inr [])"

definition entries_of :: "json option \<Rightarrow> (string \<times> json) list" where
  "entries_of v = (case v of None \<Rightarrow> [] | Some j \<Rightarrow> own_entries j)"

definition webhooks_of :: "json \<Rightarrow> json option" where
  "webhooks_of sp = (if opt_true (member sp ''x-webhooks'') then member sp ''x-webhooks'' else member sp ''webhooks'')"

definition getTagsWithOperations :: "parser \<Rightarrow> tag_table run" where
  "getTagsWithOperations p =
     and_then (Some (declared_tags (spec p)))
       (\<lambda>n. and_then (collect_paths p True (entries_of (webhooks_of (spec p))) n)
          (collect_paths p False (entries_of (member (spec p) ''paths''))))"

section \<open>The document as the menu sees it\<close>

text \<open>The first \<open>n\<close> UTF-16 units of a text.\<close>

fun substring16 :: "nat \<Rightarrow> string \<Rightarrow> string" where
  "substring16 n [] = []"
| "substring16 n (c # cs) =
     (if cont_byte c then c # substring16 n cs
      else (let w = (if (240 :: nat) \<le> of_char c then 2 else 1) in if w \<le> n then c # substring16 (n - w) cs else []))"

definition text_member :: "json \<Rightarrow> string \<Rightarrow> string option" where
  "text_member j k = (case member j k of Some (JStr s) \<Rightarrow> Some s | _ \<Rightarrow> None)"

definition operation_name :: "op_entry \<Rightarrow> string" where
  "operation_name e =
     str_or (text_member (oe_spec e) ''summary'')
       (str_or (text_member (oe_spec e) ''operationId'')
         (str_or (map_option (substring16 50) (text_member (oe_spec e) ''description''))
           (str_or (Some (oe_path e)) ''<no summary>'')))"

definition operation_of :: "op_entry \<Rightarrow> operation" where
  "operation_of e = \<lparr>op_operationId = text_member (oe_spec e) ''operationId'', op_pointer = oe_pointer e, op_name = operation_name e\<rparr>"

definition tag_of :: "(string \<Rightarrow> heading list) \<Rightarrow> string \<times> tag_entry \<Rightarrow> tag" where
  "tag_of extractHeadings kt =
     (case kt of (k, t) \<Rightarrow>
       \<lparr>tag_id = text_member (te_tag t) ''id'', tag_name = key_text (member (te_tag t) ''name''),
        tag_displayName = text_member (te_tag t) ''x-displayName'',
        tag_headings = extractHeadings (str_or (text_member (te_tag t) ''description'') []),
        tag_operations = map operation_of (te_operations t)\<rparr>)"

definition group_of :: "json \<Rightarrow> tag_group" where
  "group_of g = \<lparr>group_id = text_member g ''id'', group_name = key_text (member g ''name''), group_displayName = text_member g ''x-displayName'',
     group_tags = (case member g ''tags'' of Some (JArr xs) \<Rightarrow> map (\<lambda>x. key_text (Some x)) xs | _ \<Rightarrow> [])\<rparr>"

definition schema_tags :: "json \<Rightarrow> (string \<times> string option \<times> string list) list" where
  "schema_tags sp =
     map (\<lambda>(k, j). (k, text_member j ''title'', case member j ''x-tags'' of Some (JArr xs) \<Rightarrow> map (\<lambda>x. key_text (Some x)) xs | _ \<Rightarrow> []))
       (entries_of (Option.bind (member sp ''components'') (\<lambda>c. member c ''schemas'')))"

text \<open>
  The order of the keys of an object: the array indexes first, in ascending order, then the other
  keys as they were added.
\<close>

definition key_index :: "string \<Rightarrow> nat option" where
  "key_index k =
     (if k \<noteq> [] \<and> list_all (\<lambda>c. c \<in> set ''0123456789'') k \<and> (hd k = CHR ''0'' \<longrightarrow> length k = 1)
      then (let i = foldl (\<lambda>a c. 10 * a + (of_char c - 48)) (0 :: nat) k in if i < 4294967295 then Some i else None)
      else None)"

definition object_order :: "(string \<times> 'a) list \<Rightarrow> (string \<times> 'a) list" where
  "object_order n =
     sort_key (\<lambda>kt. the (key_index (fst kt))) (filter (\<lambda>kt. key_index (fst kt) \<noteq> None) n) @ filter (\<lambda>kt. key_index (fst kt) = None) n"

text \<open>
  The menu of a document; the headings of a description come from the Markdown renderer. A
  document without \<open>info\<close> raises.
\<close>

definition api_of :: "(string \<Rightarrow> heading list) \<Rightarrow> json \<Rightarrow> tag_table \<Rightarrow> api_spec" where
  "api_of extractHeadings sp n =
     \<lparr>spec_headings = extractHeadings (str_or (Option.bind (member sp ''info'') (\<lambda>i. text_member i ''description'')) []),
      spec_tags = map (tag_of extractHeadings) (object_order n),
      spec_tagGroups = (case member sp ''x-tagGroups'' of Some (JArr xs) \<Rightarrow> map group_of xs | _ \<Rightarrow> []),
      spec_schemas = schema_tags sp\<rparr>"

definition menu_of :: "parser \<Rightarrow> menu_options \<Rightarrow> (string \<Rightarrow> heading list) \<Rightarrow> menu run" where
  "menu_of p opts extractHeadings =
     and_then (getTagsWithOperations p)
       (\<lambda>n. if member (spec p) ''info'' \<in> {None, Some JNull} then raise Type_Error
            else ok (vf (buildStructure opts (api_of extractHeadings (spec p) n))))"

section \<open>What is collected\<close>

text \<open>The operations of path items, in the order of the document.\<close>

definition item_operations :: "bool \<Rightarrow> (string \<times> json) list \<Rightarrow> op_entry list" where
  "item_operations webhook entries = concat (map (\<lambda>(path, item). map (op_entry_of webhook path item) (verbs_of item)) entries)"

definition document_operations :: "json \<Rightarrow> op_entry list" where
  "document_operations sp =
     item_operations True (entries_of (webhooks_of sp)) @ item_operations False (entries_of (member sp ''paths''))"

definition tag_names :: "op_entry \<Rightarrow> string list" where
  "tag_names e = (case op_tags (Some (oe_spec e)) of Inl _ \<Rightarrow> [] | Inr names \<Rightarrow> names)"

text \<open>An operation stands under a tag as often as it names it.\<close>

definition tagged :: "string \<Rightarrow> op_entry list \<Rightarrow> op_entry list" where
  "tagged name ops = concat (map (\<lambda>e. replicate (count_list (tag_names e) name) e) ops)"

definition operations_under :: "tag_table \<Rightarrow> string \<Rightarrow> op_entry list" where
  "operations_under n name = (case map_of n name of None \<Rightarrow> [] | Some t \<Rightarrow> te_operations t)"

definition trait_tag :: "tag_table \<Rightarrow> string \<Rightarrow> bool" where
  "trait_tag n name = (case map_of n name of None \<Rightarrow> False | Some t \<Rightarrow> is_trait t)"

text \<open>Documents without references between path items and without tags that cannot be used.\<close>

definition plain_item :: "json \<Rightarrow> bool" where
  "plain_item item \<longleftrightarrow> item \<noteq> JNull \<and> \<not> opt_true (member item ''$ref'')"

definition usable_tags :: "op_entry \<Rightarrow> bool" where
  "usable_tags e \<longleftrightarrow> (case op_tags (Some (oe_spec e)) of Inl _ \<Rightarrow> False | Inr names \<Rightarrow> set names \<inter> set inherited = {})"

definition plain_document :: "json \<Rightarrow> bool" where
  "plain_document sp \<longleftrightarrow>
     list_all plain_item (map snd (entries_of (webhooks_of sp) @ entries_of (member sp ''paths''))) \<and>
     list_all usable_tags (document_operations sp)"

lemma map_of_append1: "map_of n k = None \<Longrightarrow> map_of (n @ [(k, v)]) = (map_of n)(k \<mapsto> v)"
  by (induction n) (auto simp: fun_eq_iff split: if_splits)

lemma new_tag_no_trait: "\<not> is_trait \<lparr>te_tag = JObj [(''name'', JStr name)], te_operations = os\<rparr>"
  by (simp add: is_trait_def opt_true_def)

lemma add_to_tag_ok:
  assumes "name \<notin> set inherited"
  obtains n' where "add_to_tag op name n = Inr n'" "trait_tag n' = trait_tag n"
    "\<And>k. operations_under n' k = operations_under n k @ (if k = name \<and> \<not> trait_tag n k then [op] else [])"
proof (cases "map_of n name")
  case None
  let ?n = "n @ [(name, \<lparr>te_tag = JObj [(''name'', JStr name)], te_operations = [op]\<rparr>)]"
  from None assms have "add_to_tag op name n = Inr ?n" by (simp add: add_to_tag_def)
  moreover have "trait_tag ?n = trait_tag n"
    using None by (auto simp: fun_eq_iff trait_tag_def map_of_append1 new_tag_no_trait simp del: map_of_append)
  moreover have "operations_under ?n k = operations_under n k @ (if k = name \<and> \<not> trait_tag n k then [op] else [])" for k
    using None by (auto simp: operations_under_def trait_tag_def map_of_append1 simp del: map_of_append)
  ultimately show thesis by (rule that)
next
  case (Some t)
  let ?n = "if is_trait t then n else AList.update name (t\<lparr>te_operations := te_operations t @ [op]\<rparr>) n"
  from Some have "add_to_tag op name n = Inr ?n" by (simp add: add_to_tag_def)
  moreover have "trait_tag ?n = trait_tag n"
    using Some by (auto simp: fun_eq_iff trait_tag_def update_conv' is_trait_def)
  moreover have "operations_under ?n k = operations_under n k @ (if k = name \<and> \<not> trait_tag n k then [op] else [])" for k
    using Some by (auto simp: operations_under_def trait_tag_def update_conv')
  ultimately show thesis by (rule that)
qed

lemma add_to_tags_ok:
  assumes "set names \<inter> set inherited = {}"
  shows "\<exists>n'. add_to_tags op names n = Inr n' \<and> trait_tag n' = trait_tag n \<and>
    (\<forall>k. operations_under n' k = operations_under n k @ (if trait_tag n k then [] else replicate (count_list names k) op))"
  using assms
proof (induction names arbitrary: n)
  case (Cons name names)
  then have "name \<notin> set inherited" by auto
  then obtain n1 where n1: "add_to_tag op name n = Inr n1" "trait_tag n1 = trait_tag n"
    "\<And>k. operations_under n1 k = operations_under n k @ (if k = name \<and> \<not> trait_tag n k then [op] else [])"
    by (rule add_to_tag_ok [where op = op and n = n]) blast
  from Cons obtain n2 where "add_to_tags op names n1 = Inr n2" "trait_tag n2 = trait_tag n1"
    "\<And>k. operations_under n2 k = operations_under n1 k @ (if trait_tag n1 k then [] else replicate (count_list names k) op)"
    by fastforce
  with n1 show ?case by auto
qed simp

definition collects :: "op_entry list \<Rightarrow> tag_table \<Rightarrow> tag_table \<Rightarrow> bool" where
  "collects ops n n' \<longleftrightarrow> trait_tag n' = trait_tag n \<and>
     (\<forall>k. operations_under n' k = operations_under n k @ (if trait_tag n k then [] else tagged k ops))"

lemma collects_refl: "collects [] n n"
  by (simp add: collects_def tagged_def)

lemma collects_trans: "collects ops n n' \<Longrightarrow> collects ops' n' n'' \<Longrightarrow> collects (ops @ ops') n n''"
  by (auto simp: collects_def tagged_def)

lemma verbs_of_member: "v \<in> set (verbs_of item) \<Longrightarrow> \<not> opt_true (member item ''$ref'') \<Longrightarrow>
    op_tags (member item v) = op_tags (Some (oe_spec (op_entry_of webhook path item v)))"
  by (cases "member item v") (simp_all add: op_entry_of_def op_tags_def)

lemma add_operation_ok:
  assumes "usable_tags (op_entry_of webhook path item v)" "v \<in> set (verbs_of item)" "plain_item item"
  shows "\<exists>n'. add_operation webhook path item v n = Inr n' \<and> collects [op_entry_of webhook path item v] n n'"
proof -
  let ?e = "op_entry_of webhook path item v"
  from assms obtain names where names: "op_tags (Some (oe_spec ?e)) = Inr names" "set names \<inter> set inherited = {}"
    by (auto simp: usable_tags_def split: sum.splits)
  moreover have "op_tags (member item v) = Inr names" using verbs_of_member assms names(1) by (simp add: plain_item_def)
  moreover obtain n' where "add_to_tags ?e names n = Inr n'" "trait_tag n' = trait_tag n"
    "\<forall>k. operations_under n' k = operations_under n k @ (if trait_tag n k then [] else replicate (count_list names k) ?e)"
    using add_to_tags_ok [OF names(2)] by blast
  ultimately show ?thesis by (auto simp: add_operation_def collects_def tagged_def tag_names_def)
qed

lemma collect_item_ok:
  assumes "plain_item item" "set vs \<subseteq> set (verbs_of item)" "list_all usable_tags (map (op_entry_of webhook path item) vs)"
  shows "\<exists>n'. collect_item p webhook path item vs n = ok n' \<and> collects (map (op_entry_of webhook path item) vs) n n'"
  using assms(2,3)
proof (induction vs arbitrary: n)
  case Nil
  then show ?case by (simp add: collect_item.simps collects_refl)
next
  case (Cons v vs)
  then obtain n1 where n1: "add_operation webhook path item v n = Inr n1" "collects [op_entry_of webhook path item v] n n1"
    using add_operation_ok [OF _ _ assms(1)] by fastforce
  from Cons obtain n2 where n2: "collect_item p webhook path item vs n1 = ok n2" "collects (map (op_entry_of webhook path item) vs) n1 n2"
    by fastforce
  have "collect_item p webhook path item (v # vs) n = ok n2"
    using n1 n2 assms(1) by (subst collect_item.simps) (simp add: plain_item_def)
  moreover have "collects (map (op_entry_of webhook path item) (v # vs)) n n2" using collects_trans [OF n1(2) n2(2)] by simp
  ultimately show ?case by blast
qed

lemma collect_paths_ok:
  assumes "list_all plain_item (map snd entries)" "list_all usable_tags (item_operations webhook entries)"
  shows "\<exists>n'. collect_paths p webhook entries n = ok n' \<and> collects (item_operations webhook entries) n n'"
  using assms
proof (induction entries arbitrary: n)
  case Nil
  then show ?case by (simp add: collects_refl item_operations_def)
next
  case (Cons e entries)
  obtain path item where e: "e = (path, item)" by (cases e)
  have split: "item_operations webhook (e # entries) = map (op_entry_of webhook path item) (verbs_of item) @ item_operations webhook entries"
    by (simp add: item_operations_def e)
  with Cons.prems obtain n1 where n1: "collect_item p webhook path item (verbs_of item) n = ok n1"
    "collects (map (op_entry_of webhook path item) (verbs_of item)) n n1"
    using collect_item_ok [of item "verbs_of item" webhook path p n] by (auto simp: e)
  from Cons split obtain n2 where n2: "collect_paths p webhook entries n1 = ok n2" "collects (item_operations webhook entries) n1 n2"
    by fastforce
  have "item \<noteq> JNull" using Cons.prems by (simp add: e plain_item_def)
  then have "collect_paths p webhook (e # entries) n = ok n2" using n1 n2 by (simp add: e)
  moreover have "collects (item_operations webhook (e # entries)) n n2" unfolding split by (rule collects_trans [OF n1(2) n2(2)])
  ultimately show ?case by blast
qed

lemma declare_no_operations: "operations_under n k = [] \<Longrightarrow> operations_under (declare_tag n t) k = []"
  by (simp add: operations_under_def declare_tag_def update_conv')

lemma declared_no_operations: "declared_tags sp = Inr n \<Longrightarrow> operations_under n k = []"
proof -
  have "operations_under (foldl declare_tag [] xs) k = []" for xs
    by (induction xs rule: rev_induct) (simp_all add: declare_no_operations, simp add: operations_under_def)
  moreover have "operations_under [] k = []" by (simp add: operations_under_def)
  ultimately show "declared_tags sp = Inr n \<Longrightarrow> operations_under n k = []"
    by (auto simp: declared_tags_def split: option.splits json.splits if_splits)
qed

text \<open>
  C19: For a document without references between path items, collecting the operations returns, and
  each tag then has exactly the operations of the document that name it, webhooks first and
  otherwise in the order of the document, as often as they name it; operations without tags stand
  under the empty name, and trait tags have none.
\<close>

theorem tags_have_their_operations:
  assumes "declared_tags (spec p) = Inr n0" "plain_document (spec p)"
  shows "\<exists>n. getTagsWithOperations p = ok n \<and>
    (\<forall>name. operations_under n name = (if trait_tag n0 name then [] else tagged name (document_operations (spec p))))"
proof -
  let ?w = "entries_of (webhooks_of (spec p))" and ?q = "entries_of (member (spec p) ''paths'')"
  from assms(2) obtain n1 where n1: "collect_paths p True ?w n0 = ok n1" "collects (item_operations True ?w) n0 n1"
    using collect_paths_ok [of ?w True p n0] by (auto simp: plain_document_def document_operations_def)
  from assms(2) obtain n2 where n2: "collect_paths p False ?q n1 = ok n2" "collects (item_operations False ?q) n1 n2"
    using collect_paths_ok [of ?q False p n1] by (auto simp: plain_document_def document_operations_def)
  have "getTagsWithOperations p = ok n2" using assms(1) n1 n2 by (simp add: getTagsWithOperations_def)
  moreover have "collects (document_operations (spec p)) n0 n2"
    unfolding document_operations_def by (rule collects_trans [OF n1(2) n2(2)])
  ultimately show ?thesis using declared_no_operations [OF assms(1)] by (simp add: collects_def)
qed

definition demo_api :: parser where
  "demo_api = \<lparr>spec = JObj
     [(''openapi'', JStr ''3.0.0''), (''info'', JObj []),
      (''tags'', JArr [JObj [(''name'', JStr ''pet'')], JObj [(''name'', JStr ''paged''), (''x-traitTag'', JBool True)]]),
      (''paths'', JObj
        [(''/pets'', JObj
           [(''get'', JObj [(''operationId'', JStr ''list''), (''tags'', JArr [JStr ''pet'', JStr ''paged''])]),
            (''post'', JObj [(''operationId'', JStr ''add''), (''tags'', JArr [JStr ''pet''])])]),
         (''/ping'', JObj [(''get'', JObj [])])])],
     allowMergeRefs = False, ignoreNamedSchemas = []\<rparr>"

theorem tags_have_their_operations_witness:
  "\<exists>n. getTagsWithOperations demo_api = ok n \<and>
     map oe_verb (operations_under n ''pet'') = [''get'', ''post''] \<and> operations_under n ''paged'' = [] \<and>
     map oe_path (operations_under n []) = [''/ping'']"
proof -
  obtain n0 where n0: "declared_tags (spec demo_api) = Inr n0"
    by (simp add: declared_tags_def demo_api_def)
  have "plain_document (spec demo_api)" by code_simp
  from tags_have_their_operations [OF n0 this] obtain n where
    "getTagsWithOperations demo_api = ok n"
    "\<And>name. operations_under n name = (if trait_tag n0 name then [] else tagged name (document_operations (spec demo_api)))"
    by blast
  moreover have "n0 = [(''pet'', \<lparr>te_tag = JObj [(''name'', JStr ''pet'')], te_operations = []\<rparr>),
      (''paged'', \<lparr>te_tag = JObj [(''name'', JStr ''paged''), (''x-traitTag'', JBool True)], te_operations = []\<rparr>)]"
    using n0 by (simp add: declared_tags_def demo_api_def declare_tag_def key_text_def)
  then have "\<not> trait_tag n0 ''pet''" "trait_tag n0 ''paged''" "\<not> trait_tag n0 []"
    by (simp_all add: trait_tag_def is_trait_def opt_true_def js_true_def)
  moreover have "map oe_verb (tagged ''pet'' (document_operations (spec demo_api))) = [''get'', ''post'']"
    "map oe_path (tagged [] (document_operations (spec demo_api))) = [''/ping'']" by code_simp+
  ultimately show ?thesis by auto
qed

text \<open>
  A path item with a reference collects the operations of the item it refers to once for every
  verb it has itself, the reference included.
\<close>

theorem reference_collected_per_key:
  assumes "opt_true (member item ''$ref'')" "deref p (Some item) [] False = Some (Inr (Some j, t))" "plain_item j"
    and "list_all usable_tags (map (op_entry_of webhook path j) (verbs_of j))"
  shows "\<exists>n'. collect_item p webhook path item vs n = ok n' \<and>
    collects (concat (replicate (length vs) (map (op_entry_of webhook path j) (verbs_of j)))) n n'"
proof (induction vs arbitrary: n)
  case Nil
  then show ?case by (simp add: collect_item.simps collects_refl)
next
  case (Cons v vs)
  obtain n1 where n1: "collect_item p webhook path j (verbs_of j) n = ok n1"
    "collects (map (op_entry_of webhook path j) (verbs_of j)) n n1"
    using collect_item_ok [OF assms(3) subset_refl assms(4)] by blast
  obtain n2 where n2: "collect_item p webhook path item vs n1 = ok n2"
    "collects (concat (replicate (length vs) (map (op_entry_of webhook path j) (verbs_of j)))) n1 n2" using Cons.IH by blast
  have "collect_item p webhook path item (v # vs) n = ok n2"
    using assms n1 n2 by (subst collect_item.simps) (simp add: plain_item_def)
  then show ?case using collects_trans [OF n1(2) n2(2)] by auto
qed

section \<open>Parameters and responses of an operation\<close>

text \<open>What parameters are told apart by: the name and the place of the parameter referred to.\<close>

definition param_key :: "parser \<Rightarrow> json \<Rightarrow> string run" where
  "param_key p t =
     and_then (deref p (Some t) [] False)
       (\<lambda>(j, _). if j \<in> {None, Some JNull} then raise Type_Error
                 else ok (key_text (member (the j) ''name'') @ ''_'' @ key_text (member (the j) ''in'')))"

fun param_keys :: "parser \<Rightarrow> json list \<Rightarrow> string list run" where
  "param_keys p [] = ok []"
| "param_keys p (x # xs) = and_then (param_key p x) (\<lambda>k. and_then (param_keys p xs) (\<lambda>ks. ok (k # ks)))"

text \<open>The parameters of the path that the operation does not replace, then those of the operation.\<close>

definition merge_parameters :: "parser \<Rightarrow> json list \<Rightarrow> json list \<Rightarrow> json list run" where
  "merge_parameters p t n =
     and_then (param_keys p n)
       (\<lambda>nks. and_then (param_keys p t)
          (\<lambda>tks. ok (map fst (filter (\<lambda>(_, k). k \<notin> set nks) (zip t tks)) @ n)))"

definition json_list :: "json option \<Rightarrow> parser_error + json list" where
  "json_list v = (case v of None \<Rightarrow> Inr [] | Some (JArr xs) \<Rightarrow> Inr xs | Some _ \<Rightarrow> Inl Type_Error)"

definition operation_parameters :: "parser \<Rightarrow> op_entry \<Rightarrow> json list run" where
  "operation_parameters p e =
     (case (json_list (member (oe_spec e) ''parameters''), json_list (Some (oe_pathParameters e))) of
        (Inr n, Inr t) \<Rightarrow> merge_parameters p t n
      | _ \<Rightarrow> raise Type_Error)"

text \<open>
  Whether the default response is shown as an error: a code that counts as success is there.
  The codes are looked at before those that are not codes are left out.
\<close>

fun default_as_error :: "string list \<Rightarrow> code_error + bool" where
  "default_as_error [] = Inr False"
| "default_as_error (x # xs) =
     (if x = ''default'' then default_as_error xs
      else (case es (Code_Txt x) False of
              Inl er \<Rightarrow> Inl er
            | Inr c \<Rightarrow> (case default_as_error xs of Inl er \<Rightarrow> Inl er | Inr b \<Rightarrow> Inr (c = Success \<or> b))))"

lemma param_keys_nth:
  "param_keys p xs = ok ks \<Longrightarrow> list_all2 (\<lambda>x k. param_key p x = ok k) xs ks"
  by (induction xs arbitrary: ks) (auto simp: and_then_ok)

lemma param_keys_of_all2:
  "list_all2 (\<lambda>x k. param_key p x = ok k) xs ks \<Longrightarrow> param_keys p xs = ok ks"
  by (induction rule: list_all2_induct) auto

lemma all2_filter_zip:
  "list_all2 P xs ks \<Longrightarrow> list_all2 P (map fst (filter (\<lambda>(_, k). Q k) (zip xs ks))) (filter Q ks)"
  by (induction rule: list_all2_induct) auto

text \<open>
  Merging the parameters of a path with those of an operation keeps every parameter of the
  operation, in order, after exactly those parameters of the path whose name and place no parameter
  of the operation has.
\<close>

theorem parameters_merged:
  assumes "param_keys p t = ok tks" "param_keys p n = ok nks"
  shows "\<exists>xs. merge_parameters p t n = ok xs \<and>
    param_keys p xs = Some (Inr (filter (\<lambda>k. k \<notin> set nks) tks @ nks)) \<and> drop (length xs - length n) xs = n"
proof -
  let ?xs = "map fst (filter (\<lambda>(_, k). k \<notin> set nks) (zip t tks)) @ n"
  have "list_all2 (\<lambda>x k. param_key p x = ok k) ?xs (filter (\<lambda>k. k \<notin> set nks) tks @ nks)"
    using param_keys_nth [OF assms(1)] param_keys_nth [OF assms(2)] by (auto intro!: list_all2_appendI all2_filter_zip)
  from param_keys_of_all2 [OF this] have "param_keys p ?xs = Some (Inr (filter (\<lambda>k. k \<notin> set nks) tks @ nks))" .
  moreover have "merge_parameters p t n = Some (Inr ?xs)" using assms by (simp add: merge_parameters_def)
  ultimately show ?thesis by (auto intro!: exI [of _ ?xs])
qed

theorem parameters_merged_witness:
  "\<exists>xs. merge_parameters demo_api
       [JObj [(''name'', JStr ''id''), (''in'', JStr ''path'')], JObj [(''name'', JStr ''page''), (''in'', JStr ''query'')]]
       [JObj [(''name'', JStr ''page''), (''in'', JStr ''query''), (''required'', JBool True)]] = ok xs \<and>
     param_keys demo_api xs = Some (Inr [''id_path'', ''page_query''])"
proof -
  have key: "param_key demo_api (JObj kvs) = Some (Inr (key_text (map_of kvs ''name'') @ ''_'' @ key_text (map_of kvs ''in'')))"
    if "map_of kvs ''$ref'' = None" for kvs
    using that by (simp add: param_key_def deref.simps isRef_def)
  from parameters_merged [of demo_api
       "[JObj [(''name'', JStr ''id''), (''in'', JStr ''path'')], JObj [(''name'', JStr ''page''), (''in'', JStr ''query'')]]"
       "[''id_path'', ''page_query'']" "[JObj [(''name'', JStr ''page''), (''in'', JStr ''query''), (''required'', JBool True)]]"
       "[''page_query'']"]
  show ?thesis by (auto simp: key key_text_def)
qed

text \<open>
  A key of the responses that is no code, such as an extension, counts as a successful response,
  and the default response is then shown as an error; without it, the default is the success.
\<close>

lemma extension_counts_as_success:
  "default_as_error [''default'', ''x-note''] = Inr True" "default_as_error [''default''] = Inr False"
  by code_simp+

end
