(* ===== verification/Redoc_Schema.thy ===== *)
theory Redoc_Schema
  imports Redoc_Parser
begin

text \<open>
  Schemas in the ReDoc bundle: merging the members of \<open>allOf\<close> (\<open>vc.mergeAllOf\<close>) and finding the
  schemas derived from another (\<open>vc.findDerived\<close>).

  A member of an object that is set to \<open>undefined\<close> is left out.
\<close>

section \<open>Merging the members of \<open>allOf\<close>\<close>

type_synonym fields = "(string \<times> json) list"

definition put :: "string \<Rightarrow> json option \<Rightarrow> fields \<Rightarrow> fields" where
  "put k v kvs = (case v of None \<Rightarrow> without [k] kvs | Some j \<Rightarrow> AList.update k j kvs)"

text \<open>\<open>a || b\<close>.\<close>

definition js_or :: "json option \<Rightarrow> json option \<Rightarrow> json option" where
  "js_or a b = (if opt_true a then a else b)"

text \<open>The elements of a value that is spread into an array.\<close>

definition iterate :: "json \<Rightarrow> parser_error + json list" where
  "iterate j = (case j of JArr xs \<Rightarrow> Inr xs | JStr s \<Rightarrow> Inr (map JStr (code_points s)) | _ \<Rightarrow> Inl Type_Error)"

definition iterate_or_empty :: "json option \<Rightarrow> parser_error + json list" where
  "iterate_or_empty v = (if opt_true v then iterate (the v) else Inr [])"

definition is_object :: "json \<Rightarrow> bool" where
  "is_object j = (case j of JObj _ \<Rightarrow> True | JArr _ \<Rightarrow> True | JNull \<Rightarrow> True | _ \<Rightarrow> False)"

definition copy_object :: "json option \<Rightarrow> json option" where
  "copy_object v = (case v of None \<Rightarrow> None | Some j \<Rightarrow> Some (if is_object j then JObj (own_entries j) else j))"

definition ref_of :: "json \<Rightarrow> string option" where
  "ref_of m = (case member m ''$ref'' of Some (JStr r) \<Rightarrow> if r = [] then None else Some r | _ \<Rightarrow> None)"

text \<open>A member of \<open>allOf\<close> after its own merge.\<close>

record part =
  part_ref :: "string option"
  part_stack :: "string list"
  part_schema :: json

text \<open>Only the first part of every reference is kept.\<close>

fun unique_refs :: "string list \<Rightarrow> part list \<Rightarrow> part list" where
  "unique_refs seen [] = []"
| "unique_refs seen (m # mks) =
     (case part_ref m of
        None \<Rightarrow> m # unique_refs seen mks
      | Some r \<Rightarrow> if r \<in> set seen then unique_refs seen mks else m # unique_refs (r # seen) mks)"

text \<open>The schema that the parts are merged into.\<close>

definition merge_start :: "json \<Rightarrow> string option \<Rightarrow> fields" where
  "merge_start e t =
     (let i = put ''title'' (js_or (member e ''title'') (map_option JStr (Option.bind t fs)))
                (without [''allOf''] (AList.update ''x-parentRefs'' (JArr []) (own_entries e)))
      in put ''items'' (copy_object (map_of i ''items'')) (put ''properties'' (copy_object (map_of i ''properties'')) i))"

text \<open>
  A merged member becomes a part, unless it is circular and still has an \<open>allOf\<close>; a reference is
  noted with the references of the schema behind it.
\<close>

definition add_part :: "part list \<times> fields \<Rightarrow> string option \<Rightarrow> string list \<Rightarrow> json \<Rightarrow> (part list \<times> fields) run" where
  "add_part acc a st s =
     (case acc of (parts, i) \<Rightarrow>
        if opt_true (member s ''x-circular-ref'') \<and> opt_true (member s ''allOf'') then ok (parts, i)
        else (let parts' = parts @ [\<lparr>part_ref = a, part_stack = yc st (case a of None \<Rightarrow> [] | Some r \<Rightarrow> r), part_schema = s\<rparr>] in
              case a of
                None \<Rightarrow> ok (parts', i)
              | Some r \<Rightarrow>
                  (case (map_of i ''x-parentRefs'', iterate_or_empty (member s ''x-parentRefs'')) of
                     (Some (JArr xs), Inr ys) \<Rightarrow> ok (parts', AList.update ''x-parentRefs'' (JArr (xs @ ys @ [JStr r])) i)
                   | _ \<Rightarrow> raise Type_Error)))"

definition merge_type :: "json \<Rightarrow> fields \<Rightarrow> fields" where
  "merge_type s i =
     (case (member s ''type'', map_of i ''type'') of
        (None, _) \<Rightarrow> i
      | (Some (JArr xs), Some (JArr ys)) \<Rightarrow> AList.update ''type'' (JArr (xs @ ys)) i
      | (Some a, _) \<Rightarrow> AList.update ''type'' a i)"

text \<open>The values of a set in the order they were added; objects and arrays are told apart by identity.\<close>

fun set_values :: "json list \<Rightarrow> json list \<Rightarrow> json list" where
  "set_values seen [] = []"
| "set_values seen (x # xs) =
     (case x of
        JObj _ \<Rightarrow> x # set_values seen xs
      | JArr _ \<Rightarrow> x # set_values seen xs
      | _ \<Rightarrow> if x \<in> set seen then set_values seen xs else x # set_values (x # seen) xs)"

definition merge_enum :: "json \<Rightarrow> fields \<Rightarrow> fields" where
  "merge_enum s i =
     (case (member s ''enum'', map_of i ''enum'') of
        (None, _) \<Rightarrow> i
      | (Some (JArr xs), Some (JArr ys)) \<Rightarrow> AList.update ''enum'' (JArr (set_values [] (xs @ ys))) i
      | (Some a, _) \<Rightarrow> AList.update ''enum'' a i)"

definition with_stack :: "json \<Rightarrow> string list \<Rightarrow> json" where
  "with_stack v st = JObj (AList.update ''x-refsStack'' (JArr (map JStr st)) (own_entries v))"

definition set_member :: "string \<Rightarrow> json \<Rightarrow> json \<Rightarrow> json run" where
  "set_member k v j = (case j of JObj kvs \<Rightarrow> ok (JObj (AList.update k v kvs)) | _ \<Rightarrow> raise Type_Error)"

definition pointer_text :: "string option \<Rightarrow> string" where
  "pointer_text t = (case t of None \<Rightarrow> ''undefined'' | Some s \<Rightarrow> s)"

definition items_object :: "json option \<Rightarrow> json" where
  "items_object v = (case v of None \<Rightarrow> JObj [] | Some (JBool _) \<Rightarrow> JObj [] | Some j \<Rightarrow> JObj (own_entries j))"

definition merged_keywords :: "string list" where
  "merged_keywords = [''type'', ''enum'', ''properties'', ''items'', ''required'', ''title'', ''description'', ''readOnly'',
     ''writeOnly'', ''oneOf'', ''anyOf'', ''x-circular-ref'']"

definition merge_required :: "json \<Rightarrow> fields \<Rightarrow> parser_error + fields" where
  "merge_required s i =
     (case member s ''required'' of
        None \<Rightarrow> Inr i
      | Some u \<Rightarrow>
          (case (iterate_or_empty (map_of i ''required''), iterate u) of
             (Inr xs, Inr ys) \<Rightarrow> Inr (AList.update ''required'' (JArr (xs @ ys)) i)
           | _ \<Rightarrow> Inl Type_Error))"

definition overwrite :: "string \<Rightarrow> json \<Rightarrow> fields \<Rightarrow> fields" where
  "overwrite k s i = (case member s k of None \<Rightarrow> i | Some j \<Rightarrow> AList.update k j i)"

text \<open>The first schema that says something about \<open>k\<close> decides.\<close>

definition keep_or :: "string \<Rightarrow> json \<Rightarrow> fields \<Rightarrow> fields" where
  "keep_or k s i = put k (js_or (map_of i k) (member s k)) i"

definition keep_defined :: "string \<Rightarrow> json \<Rightarrow> fields \<Rightarrow> fields" where
  "keep_defined k s i = (case map_of i k of None \<Rightarrow> put k (member s k) i | Some _ \<Rightarrow> i)"

text \<open>Of every keyword that has no rule of its own, the last schema that has it decides.\<close>

definition merge_rest :: "json \<Rightarrow> fields \<Rightarrow> fields" where
  "merge_rest s i =
     spread (keep_or ''x-circular-ref'' s (keep_defined ''writeOnly'' s (keep_defined ''readOnly'' s
              (keep_or ''description'' s (keep_or ''title'' s i)))))
            (without merged_keywords (own_entries s))"

definition merge_scalars :: "json \<Rightarrow> fields \<Rightarrow> fields run" where
  "merge_scalars s i =
     (case merge_required s (overwrite ''anyOf'' s (overwrite ''oneOf'' s i)) of
        Inl er \<Rightarrow> raise er
      | Inr i' \<Rightarrow> ok (merge_rest s i'))"

text \<open>The steps of the merge; \<open>M\<close> merges a schema inside of it.\<close>

type_synonym merger = "json \<Rightarrow> string option \<Rightarrow> string list \<Rightarrow> json run"

definition read_part :: "parser \<Rightarrow> merger \<Rightarrow> string list \<Rightarrow> json \<Rightarrow> part list \<times> fields \<Rightarrow> (part list \<times> fields) run" where
  "read_part p M n m acc =
     and_then (deref p (Some m) n True)
       (\<lambda>(r, st). if m = JNull \<or> r = None then raise Type_Error
                  else and_then (M (the r) (ref_of m) st) (add_part acc (ref_of m) st))"

definition merge_prop :: "merger \<Rightarrow> string option \<Rightarrow> part \<Rightarrow> string \<times> json \<Rightarrow> json \<Rightarrow> json run" where
  "merge_prop M t m kv ps =
     (let k = fst kv; v = snd kv; st = part_stack m @ refs_stack (Some v) in
      if opt_true (member ps k)
      then (if opt_true (member (part_schema m) ''x-circular-ref'') then ok ps
            else and_then
                   (M (JObj [(''allOf'', JArr [the (member ps k), with_stack v st]), (''x-refsStack'', JArr (map JStr st))])
                      (Some (pointer_text t @ ''/properties/'' @ k)) st)
                   (\<lambda>r. set_member k r ps))
      else set_member k (with_stack v st) ps)"

definition merge_properties :: "merger \<Rightarrow> string option \<Rightarrow> part \<Rightarrow> fields \<Rightarrow> fields run" where
  "merge_properties M t m i =
     (case member (part_schema m) ''properties'' of
        None \<Rightarrow> ok i
      | Some l \<Rightarrow>
          if is_object l
          then and_then (fold_run (merge_prop M t m) (own_entries l) (the (js_or (map_of i ''properties'') (Some (JObj [])))))
                 (\<lambda>ps. ok (AList.update ''properties'' ps i))
          else ok i)"

definition merge_items :: "merger \<Rightarrow> string option \<Rightarrow> part \<Rightarrow> fields \<Rightarrow> fields run" where
  "merge_items M t m i =
     (let s = part_schema m in
      if member s ''items'' \<noteq> None \<and> \<not> opt_true (member s ''x-circular-ref'')
      then and_then
             (M (JObj [(''allOf'', JArr [items_object (map_of i ''items''), items_object (member s ''items'')])])
                (Some (pointer_text t @ ''/items'')) (part_stack m))
             (\<lambda>r. ok (AList.update ''items'' r i))
      else ok i)"

definition merge_part :: "merger \<Rightarrow> string option \<Rightarrow> part \<Rightarrow> fields \<Rightarrow> fields run" where
  "merge_part M t m i =
     (let s = part_schema m in
      and_then (merge_properties M t m (merge_enum s (merge_type s i)))
        (\<lambda>i2. and_then (merge_items M t m i2) (merge_scalars s)))"

lemma read_part_mono [partial_function_mono]:
  assumes "\<And>e t n. mono_option (\<lambda>f. M e t n f)"
  shows "mono_option (\<lambda>f. read_part p (\<lambda>e t n. M e t n f) n m acc)"
  unfolding read_part_def by (intro and_then_mono option.const_mono) (auto split: prod.split intro!: if_mono and_then_mono option.const_mono assms)

lemma merge_prop_mono:
  assumes "\<And>e t n. mono_option (\<lambda>f. M e t n f)"
  shows "mono_option (\<lambda>f. merge_prop (\<lambda>e t n. M e t n f) t m kv ps)"
  unfolding merge_prop_def Let_def by (intro if_mono and_then_mono option.const_mono assms)

lemma merge_properties_mono:
  assumes "\<And>e t n. mono_option (\<lambda>f. M e t n f)"
  shows "mono_option (\<lambda>f. merge_properties (\<lambda>e t n. M e t n f) t m i)"
  unfolding merge_properties_def
  by (cases "member (part_schema m) ''properties''")
    (auto intro!: if_mono and_then_mono fold_run_mono option.const_mono merge_prop_mono assms)

lemma merge_items_mono:
  assumes "\<And>e t n. mono_option (\<lambda>f. M e t n f)"
  shows "mono_option (\<lambda>f. merge_items (\<lambda>e t n. M e t n f) t m i)"
  unfolding merge_items_def Let_def by (intro if_mono and_then_mono option.const_mono assms)

lemma merge_part_mono [partial_function_mono]:
  assumes "\<And>e t n. mono_option (\<lambda>f. M e t n f)"
  shows "mono_option (\<lambda>f. merge_part (\<lambda>e t n. M e t n f) t m i)"
  unfolding merge_part_def Let_def
  by (intro and_then_mono merge_properties_mono merge_items_mono option.const_mono assms)

text \<open>The members are read in order, then the parts are merged into the schema one after the other.\<close>

definition merge_array :: "parser \<Rightarrow> merger \<Rightarrow> json \<Rightarrow> json list \<Rightarrow> string option \<Rightarrow> string list \<Rightarrow> json run" where
  "merge_array p M e xs t n =
     and_then (fold_run (read_part p M n) xs ([], merge_start e t))
       (\<lambda>acc. and_then (fold_run (merge_part M t) (unique_refs [] (fst acc)) (snd acc)) (\<lambda>i. ok (JObj i)))"

definition merge_step :: "parser \<Rightarrow> merger \<Rightarrow> merger" where
  "merge_step p M e0 t n =
     (if e0 = JNull then raise Type_Error
      else if opt_true (member e0 ''x-circular-ref'') then ok e0
      else and_then (Some (hoistOneOfs e0 n))
             (\<lambda>e. case member e ''allOf'' of
                None \<Rightarrow> ok e
              | Some allOf \<Rightarrow> (case allOf of JArr xs \<Rightarrow> merge_array p M e xs t n | _ \<Rightarrow> raise Type_Error)))"

lemma merge_array_mono:
  assumes "\<And>e t n. mono_option (\<lambda>f. M e t n f)"
  shows "mono_option (\<lambda>f. merge_array p (\<lambda>e t n. M e t n f) e xs t n)"
  unfolding merge_array_def by (intro and_then_mono fold_run_mono read_part_mono merge_part_mono option.const_mono assms)

lemma merge_step_mono [partial_function_mono]:
  assumes "\<And>e t n. mono_option (\<lambda>f. M e t n f)"
  shows "mono_option (\<lambda>f. merge_step p (\<lambda>e t n. M e t n f) e0 t n)"
proof -
  have "mono_option (\<lambda>f. case member e ''allOf'' of None \<Rightarrow> ok e
      | Some allOf \<Rightarrow> (case allOf of JArr xs \<Rightarrow> merge_array p (\<lambda>e t n. M e t n f) e xs t n | _ \<Rightarrow> raise Type_Error))" for e
  proof (cases "member e ''allOf''")
    case (Some allOf)
    then show ?thesis by (cases allOf) (simp_all add: option.const_mono merge_array_mono assms)
  qed (simp add: option.const_mono)
  then show ?thesis unfolding merge_step_def by (intro if_mono and_then_mono option.const_mono)
qed

text \<open>\<open>None\<close> is a call that never returns.\<close>

partial_function (option) mergeAllOf :: "parser \<Rightarrow> json \<Rightarrow> string option \<Rightarrow> string list \<Rightarrow> json run" where
  "mergeAllOf p e0 t n = merge_step p (\<lambda>e t n. mergeAllOf p e t n) e0 t n"

declare deref.simps [code] mergeAllOf.simps [code]

section \<open>Derived schemas\<close>

text \<open>Whether one of the elements of \<open>allOf\<close> is a reference in \<open>e\<close>; the first one ends the search.\<close>

definition ref_among :: "string list \<Rightarrow> json \<Rightarrow> bool" where
  "ref_among e t \<longleftrightarrow> (case member t ''$ref'' of Some (JStr r) \<Rightarrow> r \<in> set e | _ \<Rightarrow> False)"

fun mentions :: "string list \<Rightarrow> json list \<Rightarrow> parser_error + bool" where
  "mentions e [] = Inr False"
| "mentions e (t # rest) =
     (if t = JNull then Inl Type_Error
      else if ref_among e t then Inr True else mentions e rest)"

definition schema_ref :: "string \<Rightarrow> string" where
  "schema_ref r = ''#/components/schemas/'' @ r"

definition derived_entry :: "parser \<Rightarrow> string list \<Rightarrow> string \<times> json \<Rightarrow> (string \<times> json) list \<Rightarrow> (string \<times> json) list run" where
  "derived_entry p e rv t =
     and_then (deref p (Some (snd rv)) [] False)
       (\<lambda>(i, _). case i of
          None \<Rightarrow> raise Type_Error
        | Some j \<Rightarrow>
            if j = JNull then raise Type_Error
            else (case member j ''allOf'' of
                    None \<Rightarrow> ok t
                  | Some (JArr xs) \<Rightarrow>
                      and_then (Some (mentions e xs))
                        (\<lambda>b. ok (if b then AList.update (schema_ref (fst rv))
                                              (the (js_or (member j ''x-discriminator-value'') (Some (JStr (fst rv))))) t
                                 else t))
                  | Some _ \<Rightarrow> raise Type_Error))"

definition component_schemas :: "json \<Rightarrow> fields" where
  "component_schemas sp =
     (case Option.bind (member sp ''components'') (\<lambda>c. member c ''schemas'') of None \<Rightarrow> [] | Some j \<Rightarrow> own_entries j)"

definition findDerived :: "parser \<Rightarrow> string list \<Rightarrow> (string \<times> json) list run" where
  "findDerived p e = fold_run (derived_entry p e) (component_schemas (spec p)) []"

section \<open>Choices of a discriminator\<close>

text \<open>\<open>Nc\<close>: the discriminator of a schema.\<close>

definition Nc :: "json \<Rightarrow> json option" where
  "Nc e = js_or (member e ''discriminator'') (member e ''x-discriminator'')"

text \<open>The names of a mapping by the reference they lead to.\<close>

definition add_name :: "(string \<times> string list) list \<Rightarrow> string \<times> json \<Rightarrow> (string \<times> string list) list" where
  "add_name a et =
     (let t = js_text (snd et) in
      AList.update t (case map_of a t of None \<Rightarrow> [fst et] | Some names \<Rightarrow> names @ [fst et]) a)"

definition invert_mapping :: "fields \<Rightarrow> (string \<times> string list) list" where
  "invert_mapping i = foldl add_name [] i"

text \<open>A reference among the alternatives is named after the last token of its pointer.\<close>

definition add_alternative :: "json \<Rightarrow> (string \<times> string list) list \<Rightarrow> (string \<times> string list) list run" where
  "add_alternative t r =
     (if t = JNull then raise Type_Error
      else (case member t ''$ref'' of
              None \<Rightarrow> ok r
            | Some j \<Rightarrow>
                (case Ua_baseName (js_text j) 1 of
                   Inl _ \<Rightarrow> raise Pointer_Error
                 | Inr None \<Rightarrow> ok (AList.update (js_text j) [''undefined''] r)
                 | Inr (Some name) \<Rightarrow> ok (AList.update (js_text j) [name] r))))"

text \<open>
  The comparison of the choices; \<open>lc\<close> is the comparison of texts in the language of the browser
  (\<open>localeCompare\<close>).
\<close>

definition name_index :: "string list \<Rightarrow> string \<Rightarrow> int" where
  "name_index c name = (case find_index (\<lambda>x. x = name) c of None \<Rightarrow> - 1 | Some k \<Rightarrow> int k)"

definition compare_choices :: "(string \<Rightarrow> string \<Rightarrow> int) \<Rightarrow> string list \<Rightarrow> string \<times> string \<Rightarrow> string \<times> string \<Rightarrow> int" where
  "compare_choices lc c e t =
     (let n = name_index c (snd e); r = name_index c (snd t) in
      if n < 0 \<and> r < 0 then lc (snd e) (snd t) else if n < 0 then 1 else if r < 0 then - 1 else n - r)"

text \<open>The stable sort of an array.\<close>

primrec sort_insert :: "('a \<Rightarrow> 'a \<Rightarrow> int) \<Rightarrow> 'a \<Rightarrow> 'a list \<Rightarrow> 'a list" where
  "sort_insert cmp x [] = [x]"
| "sort_insert cmp x (y # ys) = (if cmp x y \<le> 0 then x # y # ys else y # sort_insert cmp x ys)"

definition array_sort :: "('a \<Rightarrow> 'a \<Rightarrow> int) \<Rightarrow> 'a list \<Rightarrow> 'a list" where
  "array_sort cmp xs = foldr (sort_insert cmp) xs []"

text \<open>
  The choices from the derived schemas and alternatives \<open>r\<close> and the mapping \<open>i\<close>: the mapping
  replaces what is known of a reference, and an explicit mapping replaces everything.
\<close>

definition choices :: "(string \<Rightarrow> string \<Rightarrow> int) \<Rightarrow> (string \<times> string list) list \<Rightarrow> fields \<Rightarrow> bool \<Rightarrow> (string \<times> string) list" where
  "choices lc r i explicit =
     (let s = spread (if explicit \<and> i \<noteq> [] then [] else r) (invert_mapping i);
          l = concat (map (\<lambda>(ref, names). map (Pair ref) names) s)
      in if i \<noteq> [] then array_sort (compare_choices lc (map fst i)) l else l)"

definition json_fields :: "json option \<Rightarrow> fields" where
  "json_fields v = (if opt_true v then own_entries (the v) else [])"

definition parent_refs :: "json \<Rightarrow> string list run" where
  "parent_refs schema = and_then (Some (iterate_or_empty (member schema ''x-parentRefs''))) (\<lambda>xs. ok (map js_text xs))"

definition initDiscriminator ::
  "(string \<Rightarrow> string \<Rightarrow> int) \<Rightarrow> parser \<Rightarrow> json \<Rightarrow> string \<Rightarrow> (string \<times> string) list run" where
  "initDiscriminator lc p schema pointer =
     (case Nc schema of
        None \<Rightarrow> raise Type_Error
      | Some n \<Rightarrow>
          and_then (parent_refs schema)
            (\<lambda>refs. and_then (findDerived p (refs @ [pointer]))
               (\<lambda>d. and_then (Some (iterate_or_empty (member schema ''oneOf'')))
                  (\<lambda>alts. and_then (fold_run add_alternative alts (map (\<lambda>(ref, name). (ref, [js_text name])) d))
                     (\<lambda>r. ok (choices lc r (json_fields (member n ''mapping'')) (opt_true (member n ''x-explicitMappingOnly'')))))))) "

section \<open>Facts about the parts of the merge\<close>

lemma map_of_update [simp]: "map_of (AList.update k v kvs) k' = (if k' = k then Some v else map_of kvs k')"
  by (simp add: update_conv')

lemma map_of_put [simp]: "map_of (put k v kvs) k' = (if k' = k then v else map_of kvs k')"
  by (simp add: put_def split: option.split)

lemma map_of_keep_or: "map_of (keep_or k s i) k' = (if k' = k then js_or (map_of i k) (member s k) else map_of i k')"
  by (simp add: keep_or_def)

lemma map_of_keep_defined:
  "map_of (keep_defined k s i) k' = (if k' = k \<and> map_of i k = None then member s k else map_of i k')"
  by (simp add: keep_defined_def split: option.split)

lemma map_of_merge_type: "k \<noteq> ''type'' \<Longrightarrow> map_of (merge_type s i) k = map_of i k"
  by (simp add: merge_type_def split: option.split json.split)

lemma map_of_merge_enum: "k \<noteq> ''enum'' \<Longrightarrow> map_of (merge_enum s i) k = map_of i k"
  by (simp add: merge_enum_def split: option.split json.split)

lemma map_of_overwrite: "map_of (overwrite k s i) k' = (if k' = k \<and> member s k \<noteq> None then member s k else map_of i k')"
  by (auto simp: overwrite_def split: option.split)

lemma member_JObj: "member (JObj kvs) k = map_of kvs k"
  by simp

lemma member_entries: "member s k = Some v \<Longrightarrow> map_of (own_entries s) k = Some v"
  by (cases s) auto

lemma merge_required_other: "merge_required s i = Inr i' \<Longrightarrow> k \<noteq> ''required'' \<Longrightarrow> map_of i' k = map_of i k"
  by (auto simp: merge_required_def split: option.splits sum.splits)

lemma map_of_merge_rest:
  "k \<notin> set merged_keywords \<Longrightarrow> map_of (merge_rest s i) k =
     (case map_of (own_entries s) k of None \<Rightarrow> map_of i k | Some v \<Rightarrow> Some v)"
  by (auto simp: merge_rest_def map_of_spread map_of_keep_or map_of_keep_defined merged_keywords_def map_add_def split: option.split)

lemma merge_scalars_other:
  assumes "merge_scalars s i = ok i'" "k \<notin> set merged_keywords"
  shows "map_of i' k = (case map_of (own_entries s) k of None \<Rightarrow> map_of i k | Some v \<Rightarrow> Some v)"
proof -
  from assms(1) obtain j where j: "merge_required s (overwrite ''anyOf'' s (overwrite ''oneOf'' s i)) = Inr j" "i' = merge_rest s j"
    by (auto simp: merge_scalars_def split: sum.splits)
  have "k \<noteq> ''required''" "k \<noteq> ''anyOf''" "k \<noteq> ''oneOf''" using assms(2) by (auto simp: merged_keywords_def)
  with merge_required_other [OF j(1)] have "map_of j k = map_of i k" by (simp add: map_of_overwrite)
  then show ?thesis using assms(2) by (simp add: j(2) map_of_merge_rest split: option.split)
qed

lemma merge_properties_other:
  "merge_properties M t m i = ok i' \<Longrightarrow> k \<noteq> ''properties'' \<Longrightarrow> map_of i' k = map_of i k"
  by (auto simp: merge_properties_def and_then_ok split: option.splits if_splits)

lemma merge_items_other: "merge_items M t m i = ok i' \<Longrightarrow> k \<noteq> ''items'' \<Longrightarrow> map_of i' k = map_of i k"
  by (auto simp: merge_items_def and_then_ok Let_def split: if_splits)

text \<open>A keyword without a rule of its own comes from the part merged last, if that has it.\<close>

lemma merge_part_other:
  assumes "merge_part M t m i = ok i'" "k \<notin> set merged_keywords"
  shows "map_of i' k = (case map_of (own_entries (part_schema m)) k of None \<Rightarrow> map_of i k | Some v \<Rightarrow> Some v)"
proof -
  let ?s = "part_schema m"
  from assms(1) obtain i1 i2 where i: "merge_properties M t m (merge_enum ?s (merge_type ?s i)) = ok i1"
    "merge_items M t m i1 = ok i2" "merge_scalars ?s i2 = ok i'"
    by (auto simp: merge_part_def and_then_ok Let_def)
  have "k \<noteq> ''properties''" "k \<noteq> ''items''" "k \<noteq> ''type''" "k \<noteq> ''enum''" using assms(2) by (auto simp: merged_keywords_def)
  with merge_items_other [OF i(2)] merge_properties_other [OF i(1)] have "map_of i2 k = map_of i k"
    by (simp add: map_of_merge_enum map_of_merge_type)
  with merge_scalars_other [OF i(3) assms(2)] show ?thesis by (simp split: option.split)
qed

section \<open>A merged schema has no \<open>allOf\<close>\<close>

definition merged :: "json \<Rightarrow> bool" where
  "merged r \<longleftrightarrow> \<not> opt_true (member r ''allOf'') \<or> opt_true (member r ''x-circular-ref'')"

definition no_allOf :: "fields \<Rightarrow> bool" where
  "no_allOf i \<longleftrightarrow> \<not> opt_true (map_of i ''allOf'')"

lemma str_nat_not_allOf: "str_nat n \<noteq> ''allOf''"
  using str_nat_digits [of "CHR ''a''" n] by auto

lemma own_entries_allOf: "opt_true (map_of (own_entries s) ''allOf'') \<Longrightarrow> opt_true (member s ''allOf'')"
proof -
  have "map_of (zip (map str_nat xs) ys) ''allOf'' = None" for xs :: "nat list" and ys :: "json list"
    by (induction xs arbitrary: ys) (auto simp: zip_Cons1 str_nat_not_allOf str_nat_not_allOf [symmetric] split: list.split)
  then show "opt_true (map_of (own_entries s) ''allOf'') \<Longrightarrow> opt_true (member s ''allOf'')"
    by (cases s) (simp_all add: opt_true_def)
qed

lemma add_part_keeps:
  assumes "add_part acc a st s = ok acc'" "merged s" "\<forall>m \<in> set (fst acc). no_allOf (own_entries (part_schema m))" "no_allOf (snd acc)"
  shows "(\<forall>m \<in> set (fst acc'). no_allOf (own_entries (part_schema m))) \<and> no_allOf (snd acc')"
proof (cases "opt_true (member s ''x-circular-ref'') \<and> opt_true (member s ''allOf'')")
  case True
  with assms show ?thesis by (auto simp: add_part_def split: prod.splits)
next
  case False
  with assms(2) have "no_allOf (own_entries s)" using own_entries_allOf [of s] by (auto simp: merged_def no_allOf_def)
  with assms(1,3,4) False show ?thesis
    by (auto simp: add_part_def Let_def no_allOf_def split: prod.splits option.splits json.splits sum.splits)
qed

lemma merge_start_no_allOf: "no_allOf (merge_start e t)"
  by (simp add: merge_start_def no_allOf_def Let_def opt_true_def)

lemma unique_refs_subset: "set (unique_refs seen parts) \<subseteq> set parts"
  by (induction seen parts rule: unique_refs.induct) (auto split: option.splits)

lemma merge_part_no_allOf:
  "merge_part M t m i = ok i' \<Longrightarrow> no_allOf i \<Longrightarrow> no_allOf (own_entries (part_schema m)) \<Longrightarrow> no_allOf i'"
  using merge_part_other [of M t m i i' "''allOf''"] by (auto simp: no_allOf_def merged_keywords_def opt_true_def split: option.splits)

lemma hoisted_no_allOf: "hoistOneOfs e n = Inr e' \<Longrightarrow> member e' ''allOf'' = Some (JArr xs) \<Longrightarrow> e' = e"
  by (auto simp: hoistOneOfs_def split: option.splits json.splits sum.splits)

lemma merge_array_no_allOf:
  assumes "\<And>e t n r. M e t n = ok r \<Longrightarrow> merged r" "merge_array p M e xs t n = ok r"
  shows "merged r"
proof -
  let ?P = "\<lambda>acc. (\<forall>m \<in> set (fst acc). no_allOf (own_entries (part_schema m))) \<and> no_allOf (snd acc)"
  from assms(2) obtain acc i where acc: "fold_run (read_part p M n) xs ([], merge_start e t) = ok acc"
    and i: "fold_run (merge_part M t) (unique_refs [] (fst acc)) (snd acc) = ok i" and r: "r = JObj i"
    by (auto simp: merge_array_def and_then_ok)
  have "?P acc"
  proof (rule fold_run_invariant [OF acc])
    show "?P ([], merge_start e t)" by (simp add: merge_start_no_allOf)
    fix m acc acc' assume "?P acc" "read_part p M n m acc = ok acc'"
    then show "?P acc'" using assms(1)
      by (auto simp: read_part_def and_then_ok split: prod.splits if_splits dest: add_part_keeps)
  qed
  then have "no_allOf i"
    using unique_refs_subset [of "[]" "fst acc"]
    by (intro fold_run_invariant [OF i, where P = no_allOf]) (auto dest: merge_part_no_allOf)
  then show ?thesis by (simp add: r merged_def no_allOf_def)
qed

lemma merge_step_merged:
  assumes "\<And>e t n r. M e t n = ok r \<Longrightarrow> merged r" "merge_step p M e0 t n = ok r"
  shows "merged r"
proof (cases "opt_true (member e0 ''x-circular-ref'')")
  case True
  with assms(2) show ?thesis by (auto simp: merge_step_def merged_def split: if_splits)
next
  case False
  with assms(2) obtain e where e: "(case member e ''allOf'' of None \<Rightarrow> ok e
      | Some allOf \<Rightarrow> (case allOf of JArr xs \<Rightarrow> merge_array p M e xs t n | _ \<Rightarrow> raise Type_Error)) = ok r"
    by (auto simp: merge_step_def and_then_ok split: if_splits)
  show ?thesis
  proof (cases "member e ''allOf''")
    case None
    with e show ?thesis by (simp add: merged_def opt_true_def)
  next
    case (Some allOf)
    with e show ?thesis by (cases allOf) (auto intro: merge_array_no_allOf [OF assms(1)])
  qed
qed

lemma merge_returns_merged:
  assumes "mergeAllOf p e t n = Some y"
  shows "\<forall>r. y = Inr r \<longrightarrow> merged r"
proof (rule mergeAllOf.raw_induct [OF _ assms])
  fix M :: "parser \<Rightarrow> merger" and p e t n y
  assume IH: "\<And>p e t n y. M p e t n = Some y \<Longrightarrow> \<forall>r. y = Inr r \<longrightarrow> merged r"
    and step: "merge_step p (M p) e t n = Some y"
  show "\<forall>r. y = Inr r \<longrightarrow> merged r"
    using merge_step_merged [of "M p" p e t n] IH step by blast
qed

text \<open>A document with a schema \<open>Dog\<close> that extends \<open>Pet\<close>, which extends \<open>Base\<close>.\<close>

definition demo_schemas :: parser where
  "demo_schemas = \<lparr>spec = JObj [(''openapi'', JStr ''3.0.0''), (''components'', JObj [(''schemas'', JObj
       [(''Base'', JObj [(''type'', JStr ''object''), (''required'', JArr [JStr ''id''])]),
        (''Pet'', JObj [(''allOf'', JArr [JObj [(''$ref'', JStr ''#/components/schemas/Base'')], JObj [(''required'', JArr [JStr ''name''])]])]),
        (''Dog'', JObj [(''allOf'', JArr [JObj [(''$ref'', JStr ''#/components/schemas/Pet'')]])])])])],
     allowMergeRefs = False, ignoreNamedSchemas = []\<rparr>"

definition demo_Dog :: json where
  "demo_Dog = JObj [(''allOf'', JArr [JObj [(''$ref'', JStr ''#/components/schemas/Pet'')]])]"

text \<open>
  The references of a schema that is merged are overwritten by those of its members: \<open>Dog\<close> refers
  to \<open>Pet\<close> and, behind it, to \<open>Base\<close>, but only \<open>Base\<close> is noted.
\<close>

lemma demo_Dog_merged:
  "mergeAllOf demo_schemas demo_Dog (Some ''#/components/schemas/Dog'') [''#/components/schemas/Dog''] =
     ok (JObj [(''x-parentRefs'', JArr [JStr ''#/components/schemas/Base'']), (''title'', JStr ''Dog''), (''type'', JStr ''object''),
       (''required'', JArr [JStr ''id'', JStr ''name''])])"
  by code_simp

text \<open>
  C29: What merging a schema returns has no \<open>allOf\<close> any more, unless it is marked as circular,
  whatever references, nested \<open>allOf\<close> and properties the schema has.
\<close>

theorem merged_schema_has_no_allOf:
  assumes "mergeAllOf p e t n = ok r" "\<not> opt_true (member r ''x-circular-ref'')"
  shows "\<not> opt_true (member r ''allOf'')"
  using merge_returns_merged [OF assms(1)] assms(2) by (simp add: merged_def)

theorem merged_schema_has_no_allOf_witness:
  "\<exists>r. mergeAllOf demo_schemas demo_Dog (Some ''#/components/schemas/Dog'') [''#/components/schemas/Dog''] = ok r \<and>
     member r ''type'' = Some (JStr ''object'') \<and> \<not> opt_true (member r ''allOf'')"
  using merged_schema_has_no_allOf [OF demo_Dog_merged] by (simp add: demo_Dog_merged opt_true_def)

section \<open>What merging keeps\<close>

definition flat_schema :: "json \<Rightarrow> bool" where
  "flat_schema m =
     (case m of
        JObj kvs \<Rightarrow>
          list_all (\<lambda>k. map_of kvs k = None) [''$ref'', ''allOf'', ''properties'', ''items'', ''oneOf'', ''x-circular-ref'', ''x-refsStack''] \<and>
          (case map_of kvs ''required'' of None \<Rightarrow> True | Some (JArr _) \<Rightarrow> True | _ \<Rightarrow> False)
      | _ \<Rightarrow> False)"

definition required_of :: "json \<Rightarrow> json list" where
  "required_of s = (case member s ''required'' of Some (JArr xs) \<Rightarrow> xs | _ \<Rightarrow> [])"

text \<open>The value of a keyword in the last of several schemas that has it.\<close>

definition last_value :: "string \<Rightarrow> json list \<Rightarrow> json option" where
  "last_value k xs = foldl (\<lambda>v x. case member x k of None \<Rightarrow> v | Some w \<Rightarrow> Some w) None xs"

lemma flat_merge: "flat_schema m \<Longrightarrow> mergeAllOf p m t n = ok m"
  by (subst mergeAllOf.simps, cases m)
    (simp_all add: flat_schema_def merge_step_def opt_true_def hoistOneOfs_def)

lemma flat_deref: "flat_schema m \<Longrightarrow> deref p (Some m) n b = ok (Some m, n)"
  by (subst deref.simps, cases m) (simp_all add: flat_schema_def isRef_def refs_stack_def)

lemma flat_read:
  assumes "flat_schema m"
  shows "read_part p (mergeAllOf p) n m (parts, i) = ok (parts @ [\<lparr>part_ref = None, part_stack = n, part_schema = m\<rparr>], i)"
proof -
  have "m \<noteq> JNull" "ref_of m = None" "\<not> opt_true (member m ''allOf'')"
    using assms by (cases m; simp add: flat_schema_def ref_of_def opt_true_def)+
  then show ?thesis using assms by (simp add: read_part_def flat_deref flat_merge add_part_def yc_def)
qed

lemma flat_read_all:
  "list_all flat_schema xs \<Longrightarrow> fold_run (read_part p (mergeAllOf p) n) xs (parts, i) =
     ok (parts @ map (\<lambda>m. \<lparr>part_ref = None, part_stack = n, part_schema = m\<rparr>) xs, i)"
  by (induction xs arbitrary: parts) (simp_all add: flat_read)

lemma unique_refs_None: "unique_refs seen (map (\<lambda>m. \<lparr>part_ref = None, part_stack = n, part_schema = m\<rparr>) xs) =
    map (\<lambda>m. \<lparr>part_ref = None, part_stack = n, part_schema = m\<rparr>) xs"
  by (induction xs) simp_all

definition required_ok :: "fields \<Rightarrow> bool" where
  "required_ok i \<longleftrightarrow> (case map_of i ''required'' of None \<Rightarrow> True | Some (JArr _) \<Rightarrow> True | _ \<Rightarrow> False)"

lemma merge_rest_required: "map_of (merge_rest s i) ''required'' = map_of i ''required''"
  by (simp add: merge_rest_def map_of_spread map_of_keep_or map_of_keep_defined merged_keywords_def map_add_def)

lemma flat_merge_part:
  assumes "flat_schema m" "required_ok i"
  obtains i' where "merge_part M t \<lparr>part_ref = None, part_stack = n, part_schema = m\<rparr> i = ok i'" "required_ok i'"
    "required_of (JObj i') = required_of (JObj i) @ required_of m"
    "\<And>k. k \<notin> set merged_keywords \<Longrightarrow> map_of i' k = (case member m k of None \<Rightarrow> map_of i k | Some v \<Rightarrow> Some v)"
proof -
  let ?m = "\<lparr>part_ref = None, part_stack = n, part_schema = m\<rparr>"
  obtain kvs where m: "m = JObj kvs" using assms(1) by (cases m) (auto simp: flat_schema_def)
  let ?i = "overwrite ''anyOf'' m (overwrite ''oneOf'' m (merge_enum m (merge_type m i)))"
  have "map_of ?i ''required'' = map_of i ''required''" by (simp add: map_of_overwrite map_of_merge_enum map_of_merge_type)
  with assms have "\<exists>j. merge_required m ?i = Inr j \<and> required_ok j \<and> required_of (JObj j) = required_of (JObj i) @ required_of m"
    by (auto simp: m merge_required_def required_ok_def required_of_def iterate_or_empty_def iterate_def flat_schema_def
      opt_true_def js_true_def split: option.splits json.splits)
  then obtain j where j: "merge_required m ?i = Inr j" "required_ok j" "required_of (JObj j) = required_of (JObj i) @ required_of m" by blast
  have part: "merge_part M t ?m i = ok (merge_rest m j)"
    using assms(1) j(1) by (simp add: merge_part_def merge_properties_def merge_items_def merge_scalars_def m flat_schema_def)
  show thesis
    by (rule that [OF part]) (use j merge_part_other [OF part] in
      \<open>simp_all add: required_ok_def required_of_def merge_rest_required m\<close>)
qed

lemma flat_merge_all:
  assumes "list_all flat_schema xs" "required_ok i"
  shows "\<exists>i'. fold_run (merge_part M t) (map (\<lambda>m. \<lparr>part_ref = None, part_stack = n, part_schema = m\<rparr>) xs) i = ok i' \<and>
    required_of (JObj i') = required_of (JObj i) @ concat (map required_of xs) \<and>
    (\<forall>k. k \<notin> set merged_keywords \<longrightarrow>
       map_of i' k = foldl (\<lambda>v x. case member x k of None \<Rightarrow> v | Some w \<Rightarrow> Some w) (map_of i k) xs)"
  using assms
proof (induction xs arbitrary: i)
  case (Cons m xs)
  then obtain i1 where i1: "merge_part M t \<lparr>part_ref = None, part_stack = n, part_schema = m\<rparr> i = ok i1" "required_ok i1"
    "required_of (JObj i1) = required_of (JObj i) @ required_of m"
    "\<And>k. k \<notin> set merged_keywords \<Longrightarrow> map_of i1 k = (case member m k of None \<Rightarrow> map_of i k | Some v \<Rightarrow> Some v)"
    by (auto elim: flat_merge_part [where M = M and t = t and n = n])
  from Cons.IH [OF _ i1(2)] Cons.prems(1) i1 show ?case by auto
qed simp

text \<open>
  C30: Merging an \<open>allOf\<close> of schemas without references and nested schemas returns a schema that
  requires what any of them requires. Of every keyword without a rule of its own, such as the
  limits of a value, it has only the value of the last schema with that keyword, not the strictest.
\<close>

theorem last_keyword_wins:
  assumes "list_all flat_schema xs"
  shows "\<exists>i. mergeAllOf p (JObj [(''allOf'', JArr xs)]) t n = ok (JObj i) \<and>
    required_of (JObj i) = concat (map required_of xs) \<and>
    (\<forall>k. k \<notin> set (''x-parentRefs'' # merged_keywords) \<longrightarrow> map_of i k = last_value k xs)"
proof -
  let ?e = "JObj [(''allOf'', JArr xs)]"
  have start: "map_of (merge_start ?e t) k = None" if "k \<noteq> ''x-parentRefs''" "k \<noteq> ''title''" for k
    using that by (simp add: merge_start_def Let_def copy_object_def)
  have "first_oneOf before xs = Inr None" for before
    using assms by (induction xs arbitrary: before) (auto simp: flat_schema_def split: json.splits)
  then have "mergeAllOf p ?e t n = merge_array p (mergeAllOf p) ?e xs t n"
    by (subst mergeAllOf.simps) (simp add: merge_step_def opt_true_def hoistOneOfs_def)
  moreover have "required_ok (merge_start ?e t)" "required_of (JObj (merge_start ?e t)) = []"
    by (simp_all add: required_ok_def required_of_def start)
  moreover from calculation(2) obtain i where i: "fold_run (merge_part (mergeAllOf p) t)
      (map (\<lambda>m. \<lparr>part_ref = None, part_stack = n, part_schema = m\<rparr>) xs) (merge_start ?e t) = ok i"
    "required_of (JObj i) = required_of (JObj (merge_start ?e t)) @ concat (map required_of xs)"
    "\<And>k. k \<notin> set merged_keywords \<Longrightarrow>
       map_of i k = foldl (\<lambda>v x. case member x k of None \<Rightarrow> v | Some w \<Rightarrow> Some w) (map_of (merge_start ?e t) k) xs"
    using flat_merge_all [OF assms] by blast
  moreover have "map_of i k = last_value k xs" if "k \<notin> set (''x-parentRefs'' # merged_keywords)" for k
  proof -
    have "k \<noteq> ''x-parentRefs''" "k \<notin> set merged_keywords" "k \<noteq> ''title''" using that by (simp_all add: merged_keywords_def)
    with start [of k] i(3) [of k] show ?thesis by (simp only: last_value_def simp_thms)
  qed
  ultimately show ?thesis
    by (intro exI [of _ i]) (simp only: merge_array_def flat_read_all [OF assms] unique_refs_None and_then_simps fst_conv snd_conv append_Nil simp_thms, blast)
qed

theorem last_keyword_wins_witness:
  "\<exists>i. mergeAllOf demo_schemas (JObj [(''allOf'', JArr [JObj [(''minLength'', JInt 5)], JObj [(''minLength'', JInt 3)]])]) None [] = ok (JObj i) \<and>
     map_of i ''minLength'' = Some (JInt 3)"
proof -
  have flat: "list_all flat_schema [JObj [(''minLength'', JInt 5)], JObj [(''minLength'', JInt 3)]]" by (simp add: flat_schema_def)
  have "last_value ''minLength'' [JObj [(''minLength'', JInt 5)], JObj [(''minLength'', JInt 3)]] = Some (JInt 3)"
    "''minLength'' \<notin> set (''x-parentRefs'' # merged_keywords)" by (simp_all add: last_value_def merged_keywords_def)
  with last_keyword_wins [OF flat, of demo_schemas None "[]"] show ?thesis by metis
qed

section \<open>What a discriminator offers\<close>

lemma set_sort_insert [simp]: "set (sort_insert cmp x xs) = insert x (set xs)"
  by (induction xs) auto

lemma set_array_sort [simp]: "set (array_sort cmp xs) = set xs"
  by (induction xs) (auto simp: array_sort_def)

text \<open>A comparison that decides an order, whatever it does with elements the order does not tell apart.\<close>

locale array_order =
  fixes cmp :: "'a \<Rightarrow> 'a \<Rightarrow> int" and before :: "'a \<Rightarrow> 'a \<Rightarrow> bool"
  assumes cmp_before: "cmp x y \<le> 0 \<Longrightarrow> before x y"
    and cmp_after: "0 < cmp x y \<Longrightarrow> before y x"
    and before_trans: "before x y \<Longrightarrow> before y z \<Longrightarrow> before x z"
begin

lemma sort_insert_sorted: "sorted_wrt before xs \<Longrightarrow> sorted_wrt before (sort_insert cmp x xs)"
proof (induction xs)
  case (Cons y ys)
  show ?case
  proof (cases "cmp x y \<le> 0")
    case True
    then show ?thesis using Cons.prems cmp_before [OF True] by (auto dest: before_trans)
  next
    case False
    then show ?thesis using Cons cmp_after [of x y] by auto
  qed
qed simp

lemma array_sort_sorted: "sorted_wrt before (array_sort cmp xs)"
  by (induction xs) (auto simp: array_sort_def intro: sort_insert_sorted)

end

text \<open>A choice that the mapping names comes before those it does not name, in its order.\<close>

definition choice_before :: "string list \<Rightarrow> string \<times> string \<Rightarrow> string \<times> string \<Rightarrow> bool" where
  "choice_before c x y \<longleftrightarrow>
     (0 \<le> name_index c (snd y) \<longrightarrow> 0 \<le> name_index c (snd x) \<and> name_index c (snd x) \<le> name_index c (snd y))"

interpretation choice_order: array_order "compare_choices lc c" "choice_before c" for lc c
  by unfold_locales (auto simp: compare_choices_def choice_before_def Let_def split: if_splits)

definition inverse_of :: "fields \<Rightarrow> (string \<times> string list) list \<Rightarrow> bool" where
  "inverse_of i a \<longleftrightarrow> distinct (map fst a) \<and>
     (\<forall>ref e. (\<exists>names. map_of a ref = Some names \<and> e \<in> set names) \<longleftrightarrow> (\<exists>t. (e, t) \<in> set i \<and> js_text t = ref))"

lemma add_name_inverse: "inverse_of i a \<Longrightarrow> inverse_of (i @ [et]) (add_name a et)"
proof -
  obtain e t where et: "et = (e, t)" by (cases et)
  assume inv: "inverse_of i a"
  then have "(\<exists>names. map_of a ref = Some names \<and> e' \<in> set names) \<longleftrightarrow> (\<exists>t. (e', t) \<in> set i \<and> js_text t = ref)" for ref e'
    unfolding inverse_of_def by blast
  moreover have "(\<exists>names. map_of (add_name a et) ref = Some names \<and> e' \<in> set names) \<longleftrightarrow>
      (\<exists>names. map_of a ref = Some names \<and> e' \<in> set names) \<or> ref = js_text t \<and> e' = e" for ref e'
    by (cases "map_of a (js_text t)") (auto simp: et add_name_def Let_def)
  ultimately have "(\<exists>names. map_of (add_name a et) ref = Some names \<and> e' \<in> set names) \<longleftrightarrow> (\<exists>t. (e', t) \<in> set (i @ [et]) \<and> js_text t = ref)" for ref e'
    by (auto simp: et)
  then show ?thesis using inv by (simp add: inverse_of_def add_name_def Let_def distinct_update)
qed

lemma invert_mapping_inverse: "inverse_of i (invert_mapping i)"
proof (induction i rule: rev_induct)
  case Nil
  show ?case by (simp add: invert_mapping_def inverse_of_def)
next
  case (snoc et i)
  then show ?case using add_name_inverse by (simp add: invert_mapping_def)
qed

lemma choices_set: "set (choices lc r i explicit) =
    {(ref, name). \<exists>names. (ref, names) \<in> set (spread (if explicit \<and> i \<noteq> [] then [] else r) (invert_mapping i)) \<and> name \<in> set names}"
  by (auto simp: choices_def Let_def)

text \<open>
  C40: The choices of a discriminator with a mapping contain every name of the mapping for the schema
  it leads to; the names of the mapping come first, in its order, and an explicit mapping offers
  nothing else. The order of the other names is that of the comparison of texts.
\<close>

theorem discriminator_offers_mapping:
  assumes "i \<noteq> []"
  shows "sorted_wrt (choice_before (map fst i)) (choices lc r i explicit) \<and>
    (\<forall>e t. (e, t) \<in> set i \<longrightarrow> (js_text t, e) \<in> set (choices lc r i explicit)) \<and>
    (explicit \<longrightarrow> set (choices lc r i explicit) = (\<lambda>(e, t). (js_text t, e)) ` set i)"
proof (intro conjI allI impI)
  show "sorted_wrt (choice_before (map fst i)) (choices lc r i explicit)"
    using assms by (simp add: choices_def Let_def choice_order.array_sort_sorted)
  fix e t assume "(e, t) \<in> set i"
  with invert_mapping_inverse [of i] obtain names where "map_of (invert_mapping i) (js_text t) = Some names" "e \<in> set names"
    unfolding inverse_of_def by blast
  then have "map_of (spread (if explicit \<and> i \<noteq> [] then [] else r) (invert_mapping i)) (js_text t) = Some names"
    by (simp add: map_of_spread)
  from map_of_SomeD [OF this] \<open>e \<in> set names\<close> show "(js_text t, e) \<in> set (choices lc r i explicit)"
    unfolding choices_set by blast
next
  assume explicit
  then have "(ref, e) \<in> set (choices lc r i explicit) \<longleftrightarrow> (\<exists>names. map_of (invert_mapping i) ref = Some names \<and> e \<in> set names)" for ref e
    using assms invert_mapping_inverse [of i] by (auto simp: choices_set spread_def inverse_of_def)
  with invert_mapping_inverse [of i] show "set (choices lc r i explicit) = (\<lambda>(e, t). (js_text t, e)) ` set i"
    by (force simp: inverse_of_def)
qed

theorem discriminator_offers_mapping_witness:
  "(''#/components/schemas/Dog'', ''dog'') \<in> set (choices (\<lambda>_ _. 0) [(''#/components/schemas/Cat'', [''Cat''])]
      [(''dog'', JStr ''#/components/schemas/Dog'')] False)"
  using discriminator_offers_mapping [of "[(''dog'', JStr ''#/components/schemas/Dog'')]" "\<lambda>_ _. 0"
      "[(''#/components/schemas/Cat'', [''Cat''])]" False] by simp

text \<open>The schemas derived from others are those that refer to one of them in their \<open>allOf\<close>.\<close>

definition direct_schema :: "json \<Rightarrow> bool" where
  "direct_schema j \<longleftrightarrow> j \<noteq> JNull \<and> member j ''$ref'' = None \<and>
     (case member j ''allOf'' of None \<Rightarrow> True | Some (JArr xs) \<Rightarrow> JNull \<notin> set xs | _ \<Rightarrow> False)"

definition extends :: "string list \<Rightarrow> json \<Rightarrow> bool" where
  "extends e j \<longleftrightarrow> (case member j ''allOf'' of
     Some (JArr xs) \<Rightarrow> (\<exists>x \<in> set xs. ref_among e x) | _ \<Rightarrow> False)"

lemma mentions_iff:
  "JNull \<notin> set xs \<Longrightarrow> mentions e xs = Inr (\<exists>x \<in> set xs. ref_among e x)"
  by (induction xs) auto

lemma derived_entry_direct:
  assumes "direct_schema j"
  shows "derived_entry p e (r, j) t = ok (if extends e j then AList.update (schema_ref r)
      (the (js_or (member j ''x-discriminator-value'') (Some (JStr r)))) t else t)"
proof -
  have "deref p (Some j) [] False = ok (Some j, refs_stack (Some j) @ refs_stack (Some j))"
    using assms by (subst deref.simps) (simp add: direct_schema_def isRef_def)
  then show ?thesis using assms
    by (auto simp: derived_entry_def direct_schema_def extends_def mentions_iff split: option.splits json.splits)
qed

text \<open>
  In a document whose schemas are not references themselves, looking for the schemas derived
  from others returns exactly those that name one of them in their \<open>allOf\<close>.
\<close>

theorem derived_schemas_exact:
  assumes "list_all (\<lambda>rj. direct_schema (snd rj)) (component_schemas (spec p))"
  shows "\<exists>d. findDerived p e = ok d \<and>
    set (map fst d) = set (map (\<lambda>rj. schema_ref (fst rj)) (filter (\<lambda>rj. extends e (snd rj)) (component_schemas (spec p))))"
proof -
  have "\<exists>d. fold_run (derived_entry p e) xs d0 = ok d \<and>
      set (map fst d) = set (map fst d0) \<union> set (map (\<lambda>rj. schema_ref (fst rj)) (filter (\<lambda>rj. extends e (snd rj)) xs))"
    if "list_all (\<lambda>rj. direct_schema (snd rj)) xs" for xs d0
    using that
  proof (induction xs arbitrary: d0)
    case (Cons rj xs)
    obtain r j where rj: "rj = (r, j)" by (cases rj)
    let ?d = "if extends e j then AList.update (schema_ref r) (the (js_or (member j ''x-discriminator-value'') (Some (JStr r)))) d0 else d0"
    have "derived_entry p e rj d0 = ok ?d" using Cons.prems rj derived_entry_direct by simp
    moreover have "set (map fst ?d) = set (map fst d0) \<union> (if extends e j then {schema_ref r} else {})" by (simp add: dom_update)
    moreover obtain d where "fold_run (derived_entry p e) xs ?d = ok d"
      "set (map fst d) = set (map fst ?d) \<union> set (map (\<lambda>rj. schema_ref (fst rj)) (filter (\<lambda>rj. extends e (snd rj)) xs))"
      using Cons.IH [of ?d] Cons.prems by auto
    ultimately show ?case by (intro exI [of _ d]) (simp add: rj)
  qed simp
  from this [OF assms, of "[]"] show ?thesis by (simp add: findDerived_def)
qed

theorem derived_schemas_exact_witness:
  "\<exists>d. findDerived demo_schemas [''#/components/schemas/Base''] = ok d \<and> set (map fst d) = {''#/components/schemas/Pet''}"
proof -
  have "list_all (\<lambda>rj. direct_schema (snd rj)) (component_schemas (spec demo_schemas))" by code_simp
  moreover have "map (\<lambda>rj. schema_ref (fst rj)) (filter (\<lambda>rj. extends [''#/components/schemas/Base''] (snd rj))
      (component_schemas (spec demo_schemas))) = [''#/components/schemas/Pet'']" by code_simp
  ultimately show ?thesis using derived_schemas_exact [of demo_schemas "[''#/components/schemas/Base'']"] by (simp only: list.set)
qed

end
