(* ===== verification/Redoc_Sampler.thy ===== *)
theory Redoc_Sampler
  imports Complex_Main "HOL-Library.Word" Redoc_Schema
begin

unbundle bit_operations_syntax

text \<open>
  The samples that the ReDoc bundle makes up for values: numbers within the limits of a schema
  (\<open>eu\<close>), texts of a wanted length (\<open>qc\<close>, \<open>iu\<close>, \<open>password\<close>), identifiers (\<open>uuid\<close>), and how arrays
  and objects are put together from the samples of their parts.

  Numbers are rationals; the rounding of floating point numbers is not modelled.
\<close>

section \<open>Numbers\<close>

datatype limit = Flag bool | Limit rat

record num_schema =
  n_type :: string
  n_format :: "string option"
  n_minimum :: "rat option"
  n_maximum :: "rat option"
  n_exclusiveMinimum :: "limit option"
  n_exclusiveMaximum :: "limit option"

text \<open>A missing number and zero are falsy.\<close>

definition num_true :: "rat option \<Rightarrow> bool" where
  "num_true v \<longleftrightarrow> v \<notin> {None, Some 0}"

definition limit_true :: "limit option \<Rightarrow> bool" where
  "limit_true v = (case v of None \<Rightarrow> False | Some (Flag b) \<Rightarrow> b | Some (Limit x) \<Rightarrow> x \<noteq> 0)"

definition is_flag :: "limit option \<Rightarrow> bool" where
  "is_flag v = (case v of Some (Flag _) \<Rightarrow> True | _ \<Rightarrow> False)"

definition limit_value :: "limit option \<Rightarrow> rat" where
  "limit_value v = (case v of Some (Limit x) \<Rightarrow> x | _ \<Rightarrow> 0)"

text \<open>
  Numbers are exact here; on doubles the sums and halves below are exact too for whole limits of at
  most \<open>2 ^ 52\<close> in absolute value.
\<close>

definition eu :: "num_schema \<Rightarrow> rat" where
  "eu e =
     (let t = (if n_type e = ''number'' \<and> n_format e \<in> {Some ''float'', Some ''double''} then 1 / 10 else 0);
          lo = the (n_minimum e); hi = the (n_maximum e);
          xmin = n_exclusiveMinimum e; xmax = n_exclusiveMaximum e in
      if is_flag xmin \<or> is_flag xmax then
        (if num_true (n_maximum e) \<and> num_true (n_minimum e) then
           (let t = (if limit_true xmin then of_int \<lfloor>lo\<rfloor> + 1 else lo) in
            if limit_true xmax \<and> hi \<le> t \<or> \<not> limit_true xmax \<and> hi < t then (hi + lo) / 2 else t)
         else if num_true (n_minimum e) then (if limit_true xmin then of_int \<lfloor>lo\<rfloor> + 1 else lo)
         else if num_true (n_maximum e) then
           (if limit_true xmax then (if 0 < hi then 0 else of_int \<lfloor>hi\<rfloor> - 1) else if 0 < hi then 0 else hi)
         else t)
      else if num_true (n_minimum e) then lo
      else if limit_true xmin then
        (let t = of_int \<lfloor>limit_value xmin\<rfloor> + 1 in
         if xmax = Some (Limit t) then (t + of_int \<lfloor>limit_value xmax\<rfloor> - 1) / 2 else t)
      else if limit_true xmax then of_int \<lfloor>limit_value xmax\<rfloor> - 1
      else if num_true (n_maximum e) then hi
      else t)"

section \<open>Texts\<close>

text \<open>\<open>qc\<close>: the text, or as many copies of it as are needed, cut to the length.\<close>

definition qc :: "string \<Rightarrow> nat \<Rightarrow> string" where
  "qc e t = (if length e < t then take t (concat (replicate (t div length e + 1) e)) else e)"

text \<open>\<open>iu\<close> without a pattern. A missing length and zero are the same.\<close>

definition iu :: "nat \<Rightarrow> nat option \<Rightarrow> string" where
  "iu e t =
     (let i = qc ''string'' e in
      case t of None \<Rightarrow> i | Some n \<Rightarrow> if 0 < n \<and> n < length i then take n i else i)"

definition password :: "nat \<Rightarrow> string" where
  "password e =
     (let n = ''pa$$word'' in
      if length n < e then (let n' = n @ ''_'' in n' @ take (e - length n') (qc ''qwerty!@#$%^123456'' (e - length n'))) else n)"

section \<open>Identifiers\<close>

text \<open>The hash of a text, from its UTF-16 units.\<close>

definition hash_step :: "32 word \<Rightarrow> nat \<Rightarrow> 32 word" where
  "hash_step t c = push_bit 5 t - t + of_nat c"

definition hash :: "nat list \<Rightarrow> 32 word" where
  "hash e = foldl hash_step 0 e"

record prng =
  pa :: "32 word"
  pb :: "32 word"
  pc :: "32 word"
  pd :: "32 word"

definition prng_of :: "32 word \<Rightarrow> prng" where
  "prng_of r = \<lparr>pa = r, pb = r, pc = r, pd = r\<rparr>"

text \<open>One step of the generator; its number is the new \<open>pd\<close> divided by two to the 32.\<close>

definition prng_next :: "prng \<Rightarrow> prng" where
  "prng_next g =
     (let i = pa g - (push_bit 27 (pb g) OR drop_bit 5 (pb g));
          e = pb g XOR (push_bit 17 (pc g) OR drop_bit 15 (pc g))
      in \<lparr>pa = e, pb = pc g + pd g, pc = pd g + i, pd = e + i\<rparr>)"

definition hex_of :: "nat \<Rightarrow> char" where
  "hex_of n = ''0123456789abcdef'' ! n"

text \<open>A template with its places filled, from left to right.\<close>

fun fill :: "prng \<Rightarrow> string \<Rightarrow> string" where
  "fill g [] = []"
| "fill g (c # cs) =
     (if c = CHR ''x'' \<or> c = CHR ''y'' then
        (let g' = prng_next g; t = drop_bit 28 (pd g') in
         hex_of (unat (if c = CHR ''x'' then t else 3 AND t OR 8)) # fill g' cs)
      else c # fill g cs)"

definition uuid :: "nat list \<Rightarrow> string" where
  "uuid n = fill (prng_of (hash (if n = [] then [105, 100] else n))) ''xxxxxxxx-xxxx-4xxx-yxxx-xxxxxxxxxxxx''"

section \<open>Arrays and objects\<close>

text \<open>
  The sampler of the parts is the argument \<open>J\<close>. Numbers of items and properties are integers.
\<close>

definition int_member :: "json \<Rightarrow> string \<Rightarrow> int option" where
  "int_member e k = (case member e k of Some (JInt n) \<Rightarrow> Some n | _ \<Rightarrow> None)"

definition array_items :: "json \<Rightarrow> json option" where
  "array_items e = js_or (member e ''prefixItems'') (js_or (member e ''items'') (member e ''contains''))"

definition array_count :: "json \<Rightarrow> int" where
  "array_count e =
     (let least = (case int_member e ''minItems'' of Some n \<Rightarrow> if n \<noteq> 0 then n else 1 | None \<Rightarrow> 1);
          o1 = (case int_member e ''maxItems'' of Some m \<Rightarrow> min m least | None \<Rightarrow> least)
      in case array_items e of Some (JArr xs) \<Rightarrow> max o1 (int (length xs)) | _ \<Rightarrow> o1)"

definition item_schema :: "json \<Rightarrow> nat \<Rightarrow> json" where
  "item_schema a l =
     (case a of JArr xs \<Rightarrow> if l < length xs \<and> js_true (xs ! l) then xs ! l else JObj [] | _ \<Rightarrow> a)"

definition sample_array :: "(json \<Rightarrow> json option) \<Rightarrow> json \<Rightarrow> json option list" where
  "sample_array J e =
     (if opt_true (array_items e) then map (\<lambda>l. J (item_schema (the (array_items e)) l)) [0 ..< nat (array_count e)] else [])"

record sampled =
  s_value :: "json option"
  s_readOnly :: bool
  s_writeOnly :: bool

record sample_options =
  skipReadOnly :: bool
  skipWriteOnly :: bool
  skipNonRequired :: bool

type_synonym sample_fields = "(string \<times> json option) list"

definition required_names :: "json \<Rightarrow> string list" where
  "required_names e = (case member e ''required'' of Some (JArr xs) \<Rightarrow> map js_text xs | _ \<Rightarrow> [])"

definition sample_property :: "sample_options \<Rightarrow> (string option \<Rightarrow> json \<Rightarrow> sampled) \<Rightarrow> json \<Rightarrow> sample_fields \<Rightarrow> string \<times> json \<Rightarrow> sample_fields" where
  "sample_property t J e i rv =
     (if skipNonRequired t \<and> fst rv \<notin> set (required_names e) then i
      else (let s = J (Some (fst rv)) (snd rv) in
            if skipReadOnly t \<and> s_readOnly s \<or> skipWriteOnly t \<and> s_writeOnly s then i else AList.update (fst rv) (s_value s) i))"

definition sample_additional :: "(string option \<Rightarrow> json \<Rightarrow> sampled) \<Rightarrow> json \<Rightarrow> sample_fields \<Rightarrow> sample_fields" where
  "sample_additional J a i =
     (let r = key_text (js_or (member a ''x-additionalPropertiesName'') (Some (JStr ''property'')))
      in AList.update (r @ ''2'') (s_value (J None a)) (AList.update (r @ ''1'') (s_value (J None a)) i))"

text \<open>Leaving out properties over the limit: those required are kept, the others fill up the rest.\<close>

definition keep_required :: "sample_fields \<Rightarrow> sample_fields \<times> int \<Rightarrow> string \<Rightarrow> sample_fields \<times> int" where
  "keep_required i tn e =
     (case map_of i e of Some (Some v) \<Rightarrow> (AList.update e (Some v) (fst tn), snd tn + 1) | _ \<Rightarrow> tn)"

definition fill_up :: "int \<Rightarrow> sample_fields \<times> int \<Rightarrow> string \<times> json option \<Rightarrow> sample_fields \<times> int" where
  "fill_up m tn rv =
     (if snd tn < m \<and> map_of (fst tn) (fst rv) = None then (fst tn @ [rv], snd tn + 1) else tn)"

definition trim_object :: "string list \<Rightarrow> int \<Rightarrow> sample_fields \<Rightarrow> sample_fields" where
  "trim_object required m i = fst (foldl (fill_up m) (foldl (keep_required i) ([], 0) required) i)"

text \<open>Reading the keys or a member of \<open>null\<close> raises.\<close>

definition sample_object :: "sample_options \<Rightarrow> (string option \<Rightarrow> json \<Rightarrow> sampled) \<Rightarrow> json \<Rightarrow> parser_error + sample_fields" where
  "sample_object t J e =
     (if member e ''properties'' = Some JNull \<or> member e ''additionalProperties'' = Some JNull then Inl Type_Error
      else
        (let props = (case member e ''properties'' of Some j \<Rightarrow> if is_object j then Some (own_entries j) else None | None \<Rightarrow> None);
             i1 = (case props of None \<Rightarrow> [] | Some kvs \<Rightarrow> foldl (sample_property t J e) [] kvs);
             i2 = (case member e ''additionalProperties'' of Some a \<Rightarrow> if is_object a then sample_additional J a i1 else i1 | None \<Rightarrow> i1)
         in Inr (case int_member e ''maxProperties'' of
                   Some m \<Rightarrow> if props \<noteq> None \<and> m < int (length i2) then trim_object (required_names e) m i2 else i2
                 | None \<Rightarrow> i2)))"

section \<open>Samples within the limits\<close>

text \<open>The numbers that the limits of a schema allow.\<close>

definition allows :: "num_schema \<Rightarrow> rat \<Rightarrow> bool" where
  "allows e x \<longleftrightarrow>
     (case n_minimum e of None \<Rightarrow> True | Some m \<Rightarrow> if n_exclusiveMinimum e = Some (Flag True) then m < x else m \<le> x) \<and>
     (case n_maximum e of None \<Rightarrow> True | Some m \<Rightarrow> if n_exclusiveMaximum e = Some (Flag True) then x < m else x \<le> m) \<and>
     (case n_exclusiveMinimum e of Some (Limit m) \<Rightarrow> m < x | _ \<Rightarrow> True) \<and>
     (case n_exclusiveMaximum e of Some (Limit m) \<Rightarrow> x < m | _ \<Rightarrow> True)"

text \<open>
  Limits that are whole numbers other than zero and at most \<open>2 ^ 52\<close> in absolute value, one of each
  side at most, and either all in the form of OpenAPI 3.0 (flags) or all in the form of 3.1 (numbers).
\<close>

definition moderate :: "rat \<Rightarrow> bool" where
  "moderate x \<longleftrightarrow> x \<noteq> 0 \<and> of_int \<lfloor>x\<rfloor> = x \<and> \<bar>x\<bar> \<le> 2 ^ 52"

definition whole :: "rat option \<Rightarrow> bool" where
  "whole v = (case v of None \<Rightarrow> True | Some x \<Rightarrow> moderate x)"

definition whole_limit :: "limit option \<Rightarrow> bool" where
  "whole_limit v = (case v of Some (Limit x) \<Rightarrow> moderate x | _ \<Rightarrow> True)"

definition is_limit :: "limit option \<Rightarrow> bool" where
  "is_limit v = (case v of Some (Limit _) \<Rightarrow> True | _ \<Rightarrow> False)"

definition tidy :: "num_schema \<Rightarrow> bool" where
  "tidy e \<longleftrightarrow> whole (n_minimum e) \<and> whole (n_maximum e) \<and> whole_limit (n_exclusiveMinimum e) \<and> whole_limit (n_exclusiveMaximum e) \<and>
     \<not> (is_limit (n_exclusiveMinimum e) \<and> n_minimum e \<noteq> None) \<and> \<not> (is_limit (n_exclusiveMaximum e) \<and> n_maximum e \<noteq> None) \<and>
     \<not> (is_flag (n_exclusiveMinimum e) \<and> is_limit (n_exclusiveMaximum e)) \<and>
     \<not> (is_limit (n_exclusiveMinimum e) \<and> is_flag (n_exclusiveMaximum e))"

lemma whole_cases:
  assumes "whole v"
  obtains "v = None" | m where "v = Some (of_int m)" "m \<noteq> 0"
proof (cases v)
  case (Some x)
  then have "v = Some (of_int \<lfloor>x\<rfloor>)" "\<lfloor>x\<rfloor> \<noteq> 0" using assms by (auto simp: whole_def moderate_def)
  then show thesis by (rule that(2))
qed (rule that)

lemma whole_limit_cases:
  assumes "whole_limit v"
  obtains "v = None" | b where "v = Some (Flag b)" | m where "v = Some (Limit (of_int m))" "m \<noteq> 0"
proof (cases v)
  case (Some l)
  show thesis
  proof (cases l)
    case (Flag b)
    with Some show thesis by (auto intro: that)
  next
    case (Limit x)
    then have "v = Some (Limit (of_int \<lfloor>x\<rfloor>))" "\<lfloor>x\<rfloor> \<noteq> 0" using assms Some by (auto simp: whole_limit_def moderate_def)
    then show thesis by (rule that(3))
  qed
qed (rule that)

lemmas sample_simps = eu_def allows_def num_true_def limit_true_def is_flag_def is_limit_def limit_value_def tidy_def Let_def

text \<open>
  C31: If a whole number is allowed by limits that are whole numbers other than zero and at most
  \<open>2 ^ 52\<close> in absolute value, then the sample of the number is allowed by them. Each side has one limit
  at most: a minimum or an exclusive minimum that is a number, and the same for the maximum; and the
  exclusive limits of a schema are both flags or both numbers.
\<close>

theorem number_sample_allowed:
  assumes "tidy e" "allows e (of_int n)"
  shows "allows e (eu e)"
proof -
  have w: "whole (n_minimum e)" "whole (n_maximum e)" "whole_limit (n_exclusiveMinimum e)" "whole_limit (n_exclusiveMaximum e)"
    using assms(1) by (simp_all add: tidy_def)
  show ?thesis
    by (rule whole_cases [OF w(1)]; rule whole_cases [OF w(2)]; rule whole_limit_cases [OF w(3)]; rule whole_limit_cases [OF w(4)];
      (insert assms)?; simp add: sample_simps split: if_splits)
qed

definition demo_number :: num_schema where
  "demo_number = \<lparr>n_type = ''integer'', n_format = None, n_minimum = Some 3, n_maximum = Some 7,
     n_exclusiveMinimum = Some (Flag True), n_exclusiveMaximum = None\<rparr>"

theorem number_sample_allowed_witness: "allows demo_number (eu demo_number) \<and> eu demo_number = 4"
proof -
  have "tidy demo_number" by (simp add: demo_number_def tidy_def whole_def whole_limit_def moderate_def is_limit_def is_flag_def)
  moreover have "allows demo_number (of_int 5)" by (simp add: demo_number_def allows_def)
  ultimately show ?thesis using number_sample_allowed [of demo_number 5]
    by (simp add: demo_number_def eu_def num_true_def limit_true_def is_flag_def)
qed

text \<open>
  A limit of zero is taken for a missing one, and fractions can be stepped over: these samples are
  not allowed by their own schema, though other numbers are.
\<close>

lemma number_samples_not_allowed:
  "let e = \<lparr>n_type = ''integer'', n_format = None, n_minimum = Some 0, n_maximum = None,
      n_exclusiveMinimum = Some (Flag True), n_exclusiveMaximum = None\<rparr> in allows e 1 \<and> \<not> allows e (eu e)"
  "let e = \<lparr>n_type = ''number'', n_format = Some ''double'', n_minimum = None, n_maximum = Some 0,
      n_exclusiveMinimum = None, n_exclusiveMaximum = None\<rparr> in allows e 0 \<and> \<not> allows e (eu e)"
  "let e = \<lparr>n_type = ''number'', n_format = None, n_minimum = None, n_maximum = None,
      n_exclusiveMinimum = Some (Limit (47 / 10)), n_exclusiveMaximum = Some (Limit 5)\<rparr> in allows e (49 / 10) \<and> \<not> allows e (eu e)"
  by (simp_all add: sample_simps floor_divide_of_int_eq [of 47 10, simplified])

lemma length_repeat: "length (concat (replicate n xs)) = n * length xs"
  by (induction n) simp_all

lemma qc_length: "e \<noteq> [] \<Longrightarrow> length (qc e t) = max t (length e)"
proof -
  assume "e \<noteq> []"
  then have "t mod length e < length e" by simp
  then have "t \<le> (t div length e + 1) * length e"
    using div_mult_mod_eq [of t "length e"] by (simp only: add_mult_distrib mult_1)
  then show ?thesis by (simp add: qc_def length_repeat)
qed

text \<open>
  The sample of a text has at least the smallest length, and at most the largest length unless
  that is zero; a password has exactly the smallest length, or eight characters.
\<close>

theorem text_sample_length:
  "(case t of None \<Rightarrow> length (iu e t) = max e 6
    | Some n \<Rightarrow> length (iu e t) = (if n = 0 then max e 6 else min n (max e 6))) \<and>
   length (password e) = max e 8"
proof
  show "case t of None \<Rightarrow> length (iu e t) = max e 6
    | Some n \<Rightarrow> length (iu e t) = (if n = 0 then max e 6 else min n (max e 6))"
    using qc_length [of "''string''" e] by (auto simp: iu_def Let_def split: option.split)
  show "length (password e) = max e 8"
  proof (cases "8 < e")
    case True
    then obtain k where "e = k + 9" by (metis add.commute le_add_diff_inverse Suc_leI eval_nat_numeral(3) numeral_plus_one)
    then show ?thesis using qc_length [of "''qwerty!@#$%^123456''" k] by (simp add: password_def Let_def)
  qed (simp add: password_def)
qed

section \<open>Identifiers are version 4 UUIDs\<close>

definition is_hex :: "char \<Rightarrow> bool" where
  "is_hex c \<longleftrightarrow> c \<in> set ''0123456789abcdef''"

definition is_variant :: "char \<Rightarrow> bool" where
  "is_variant c \<longleftrightarrow> c \<in> set ''89ab''"

text \<open>A version 4 UUID of variant 1 in its textual form.\<close>

fun fits :: "string \<Rightarrow> string \<Rightarrow> bool" where
  "fits [] s \<longleftrightarrow> s = []"
| "fits (c # cs) s \<longleftrightarrow> s \<noteq> [] \<and> fits cs (tl s) \<and>
     (if c = CHR ''x'' then is_hex (hd s) else if c = CHR ''y'' then is_variant (hd s) else hd s = c)"

lemma nibble: "unat (drop_bit 28 (w :: 32 word)) < 16"
proof -
  have "unat w < 2 ^ 32" using unsigned_less [of w] by simp
  moreover from this have "unat (drop_bit 28 w) = drop_bit 28 (unat w)" by (simp add: unsigned_drop_bit_eq take_bit_nat_eq_self)
  ultimately show ?thesis by (simp add: drop_bit_eq_div)
qed

lemma variant_bits: "unat (3 AND (t :: 32 word) OR 8) \<in> {8, 9, 10, 11}"
proof -
  have "unat (3 AND t OR 8) = (3 AND unat t) OR 8" by (simp add: unsigned_or_eq unsigned_and_eq)
  moreover have "3 AND unat t = unat t mod 4" using take_bit_eq_mask [of 2 "unat t"] by (simp add: take_bit_eq_mod mask_eq_exp_minus_1 and.commute)
  moreover have "unat t mod 4 < 4" by simp
  then have "unat t mod 4 \<in> {0, 1, 2, 3}" by auto
  ultimately show ?thesis by auto
qed

lemma hex_of_is_hex: "n < 16 \<Longrightarrow> is_hex (hex_of n)"
  unfolding is_hex_def hex_of_def by (rule nth_mem) simp

lemma hex_of_variant: "n \<in> {8, 9, 10, 11} \<Longrightarrow> is_variant (hex_of n)"
  by (auto simp: hex_of_def is_variant_def)

lemma fill_fits: "fits tmpl (fill g tmpl)"
  by (induction tmpl arbitrary: g) (auto simp: Let_def hex_of_is_hex nibble intro!: hex_of_variant variant_bits)

text \<open>
  C32: Whatever the name of the property, the sample of an identifier has the form of a version 4
  UUID: 36 characters, hexadecimal digits and dashes in their places, the version 4, and a variant
  digit from 8 to b; and it is the same for the same name.
\<close>

theorem uuid_sample_is_version_4:
  "fits ''xxxxxxxx-xxxx-4xxx-yxxx-xxxxxxxxxxxx'' (uuid n) \<and> length (uuid n) = 36"
proof -
  have "length (fill g s) = length s" for g s by (induction s arbitrary: g) (simp_all add: Let_def)
  then show ?thesis by (simp add: uuid_def fill_fits del: fits.simps fill.simps)
qed

section \<open>Sizes of samples of arrays and objects\<close>

text \<open>
  The sample of an array whose items have one schema has as many items as its limits allow: at
  least the smallest number, never more than the largest, and a single one without limits.
\<close>

theorem array_sample_size:
  assumes "array_items e = Some a" "js_true a" "\<And>xs. a \<noteq> JArr xs" "int_member e ''minItems'' = lo" "int_member e ''maxItems'' = hi"
    and "case lo of Some n \<Rightarrow> 0 \<le> n | None \<Rightarrow> True" "case hi of Some m \<Rightarrow> (case lo of Some n \<Rightarrow> n \<le> m | None \<Rightarrow> 0 \<le> m) | None \<Rightarrow> True"
  shows "(case lo of Some n \<Rightarrow> n \<le> int (length (sample_array J e)) | None \<Rightarrow> True) \<and>
    (case hi of Some m \<Rightarrow> int (length (sample_array J e)) \<le> m | None \<Rightarrow> True) \<and>
    (lo = None \<and> hi = None \<longrightarrow> length (sample_array J e) = 1)"
proof -
  have "length (sample_array J e) = nat (array_count e)" using assms(1,2) by (simp add: sample_array_def opt_true_def)
  moreover have "array_count e = (case hi of Some m \<Rightarrow> min m (case lo of Some n \<Rightarrow> if n \<noteq> 0 then n else 1 | None \<Rightarrow> 1)
      | None \<Rightarrow> (case lo of Some n \<Rightarrow> if n \<noteq> 0 then n else 1 | None \<Rightarrow> 1))"
  proof (cases a)
    case (JArr xs)
    with assms(3) show ?thesis by blast
  qed (use assms(1,4,5) in \<open>simp_all add: array_count_def Let_def\<close>)
  ultimately show ?thesis using assms(6,7) by (auto split: option.splits)
qed

theorem array_sample_size_witness:
  "length (sample_array (\<lambda>_. None) (JObj [(''items'', JObj []), (''minItems'', JInt 3), (''maxItems'', JInt 3)])) = 3"
  using array_sample_size [of "JObj [(''items'', JObj []), (''minItems'', JInt 3), (''maxItems'', JInt 3)]" "JObj []" "Some 3" "Some 3" "\<lambda>_. None"]
  by (simp add: array_items_def js_or_def opt_true_def js_true_def int_member_def)

text \<open>The properties of a sample that are required and have a value.\<close>

definition present :: "sample_fields \<Rightarrow> string list \<Rightarrow> string list" where
  "present i required = filter (\<lambda>e. \<exists>v. map_of i e = Some (Some v)) required"

lemma update_new: "k \<notin> fst ` set xs \<Longrightarrow> AList.update k v xs = xs @ [(k, v)]"
  by (induction xs) auto

lemma keep_required_all:
  assumes "distinct required" "set required \<inter> fst ` set t = {}"
  shows "foldl (keep_required i) (t, n) required =
    (t @ map (\<lambda>e. (e, the (map_of i e))) (present i required), n + int (length (present i required)))"
  using assms
proof (induction required arbitrary: t n)
  case (Cons e es')
  show ?case
  proof (cases "\<exists>v. map_of i e = Some (Some v)")
    case True
    then obtain v where v: "map_of i e = Some (Some v)" by blast
    have "keep_required i (t, n) e = (t @ [(e, Some v)], n + 1)" using Cons.prems v by (simp add: keep_required_def update_new)
    then show ?thesis using Cons.IH [of "t @ [(e, Some v)]" "n + 1"] Cons.prems v by (auto simp: present_def)
  next
    case False
    then have "keep_required i (t, n) e = (t, n)" by (auto simp: keep_required_def split: option.splits)
    then show ?thesis using Cons False by (simp add: present_def)
  qed
qed (simp add: present_def)

lemma fill_up_all:
  assumes "distinct (map fst xs)" "int (length t) \<le> m"
  shows "\<exists>u. foldl (fill_up m) (t, int (length t)) xs = (t @ u, int (length (t @ u))) \<and> set u \<subseteq> set xs \<and>
    int (length (t @ u)) = min m (int (length t + length (filter (\<lambda>rv. map_of t (fst rv) = None) xs)))"
  using assms
proof (induction xs arbitrary: t)
  case (Cons rv xs)
  show ?case
  proof (cases "int (length t) < m \<and> map_of t (fst rv) = None")
    case True
    have new: "filter (\<lambda>x. map_of (t @ [rv]) (fst x) = None) xs = filter (\<lambda>x. map_of t (fst x) = None) xs"
    proof (rule filter_cong [OF refl])
      fix x assume "x \<in> set xs"
      then have "fst x \<noteq> fst rv" using Cons.prems(1) by (metis distinct.simps(2) image_eqI list.simps(9) set_map)
      then show "(map_of (t @ [rv]) (fst x) = None) = (map_of t (fst x) = None)" by (simp only: map_of_eq_None_iff) auto
    qed
    from True Cons.IH [of "t @ [rv]"] Cons.prems obtain u where
      "foldl (fill_up m) (t @ [rv], int (length (t @ [rv]))) xs = (t @ rv # u, int (length (t @ rv # u)))" "set u \<subseteq> set xs"
      "int (length (t @ rv # u)) = min m (int (length (t @ [rv]) + length (filter (\<lambda>x. map_of t (fst x) = None) xs)))"
      by (auto simp: new simp del: map_of_append)
    moreover have "fill_up m (t, int (length t)) rv = (t @ [rv], int (length (t @ [rv])))" using True by (simp add: fill_up_def)
    ultimately show ?thesis using True by (intro exI [of _ "rv # u"]) auto
  next
    case False
    then have "fill_up m (t, int (length t)) rv = (t, int (length t))" by (auto simp: fill_up_def)
    with Cons False show ?thesis by fastforce
  qed
qed simp

lemma length_filter_keys:
  assumes "distinct (map fst i)" "distinct ps" "set ps \<subseteq> fst ` set i"
  shows "length (filter (\<lambda>rv. fst rv \<notin> set ps) i) = length i - length ps"
proof -
  have "distinct (map fst (filter (\<lambda>rv. fst rv \<in> set ps) i))" using assms(1) by (rule distinct_map_filter)
  moreover have "set (map fst (filter (\<lambda>rv. fst rv \<in> set ps) i)) = set ps" using assms(3) by auto
  ultimately have "length (filter (\<lambda>rv. fst rv \<in> set ps) i) = length ps" using assms(2) by (metis distinct_card length_map)
  then show ?thesis using sum_length_filter_compl [of "\<lambda>rv. fst rv \<in> set ps" i] by simp
qed

text \<open>
  When the sample of an object has more properties than allowed, it is cut to exactly the
  number allowed; the required properties that have a value are kept, and every property left
  has the value it had.
\<close>

theorem object_sample_trimmed:
  assumes "distinct required" "distinct (map fst i)" "int (length (present i required)) \<le> m" "m < int (length i)"
  shows "int (length (trim_object required m i)) = m \<and>
    set (present i required) \<subseteq> fst ` set (trim_object required m i) \<and> set (trim_object required m i) \<subseteq> set i"
proof -
  let ?ps = "present i required"
  let ?t = "map (\<lambda>e. (e, the (map_of i e))) ?ps"
  have "foldl (keep_required i) ([], 0) required = (?t, int (length ?t))" using keep_required_all [OF assms(1), of "[]" i 0] by simp
  moreover have "int (length ?t) \<le> m" using assms(3) by simp
  ultimately obtain u where u: "trim_object required m i = ?t @ u" "set u \<subseteq> set i"
    "int (length (?t @ u)) = min m (int (length ?t + length (filter (\<lambda>rv. map_of ?t (fst rv) = None) i)))"
    using fill_up_all [OF assms(2), of ?t m] by (auto simp: trim_object_def)
  have ps: "distinct ?ps" "set ?ps \<subseteq> fst ` set i" using assms(1) by (auto simp: present_def dest!: map_of_SomeD intro: rev_image_eqI)
  have "map_of ?t k = None \<longleftrightarrow> k \<notin> set ?ps" for k by (simp only: map_of_eq_None_iff) (auto simp: image_iff)
  then have "length (filter (\<lambda>rv. map_of ?t (fst rv) = None) i) = length i - length ?ps"
    using length_filter_keys [OF assms(2) ps] by simp
  with u(3) assms(4) have "int (length (?t @ u)) = m" by simp
  moreover have "set ?t \<subseteq> set i" by (auto simp: present_def dest: map_of_SomeD)
  moreover have "fst ` set ?t = set ?ps" by (simp add: image_comp comp_def)
  ultimately show ?thesis using u(1,2) by (simp add: image_Un)
qed

theorem object_sample_trimmed_witness:
  "map fst (trim_object [''id''] 2 [(''a'', Some JNull), (''b'', None), (''id'', Some (JInt 1))]) = [''id'', ''a''] \<and>
   length (trim_object [''id''] 2 [(''a'', Some JNull), (''b'', None), (''id'', Some (JInt 1))]) = 2"
  using object_sample_trimmed [of "[''id'']" "[(''a'', Some JNull), (''b'', None), (''id'', Some (JInt 1))]" 2]
  by (simp add: present_def trim_object_def fill_up_def keep_required_def)

end
