(* ===== verification/Redoc_Types.thy ===== *)
theory Redoc_Types
  imports Redoc_Schema
begin

text \<open>
  The type of a schema in the ReDoc bundle (\<open>Tc.init\<close>): the type that is declared or inferred from
  the keywords, the null type of nullable schemas, the text that is shown for it, and whether a
  schema is primitive (\<open>is\<close>), that is, has nothing to expand.
\<close>

section \<open>Detecting the type\<close>

text \<open>The keywords that belong to a type, in the order they are looked for.\<close>

definition rs :: "(string \<times> string) list" where
  "rs = [(''multipleOf'', ''number''), (''maximum'', ''number''), (''exclusiveMaximum'', ''number''), (''minimum'', ''number''),
     (''exclusiveMinimum'', ''number''), (''maxLength'', ''string''), (''minLength'', ''string''), (''pattern'', ''string''),
     (''contentEncoding'', ''string''), (''contentMediaType'', ''string''), (''items'', ''array''), (''maxItems'', ''array''),
     (''minItems'', ''array''), (''uniqueItems'', ''array''), (''maxProperties'', ''object''), (''minProperties'', ''object''),
     (''required'', ''object''), (''additionalProperties'', ''object''), (''unevaluatedProperties'', ''object''),
     (''properties'', ''object''), (''patternProperties'', ''object'')]"

definition inferred_type :: "json \<Rightarrow> string" where
  "inferred_type u = (case List.find (\<lambda>(k, _). member u k \<noteq> None) rs of None \<Rightarrow> ''any'' | Some (_, t) \<Rightarrow> t)"

definition schema_type :: "json \<Rightarrow> json" where
  "schema_type u = (case member u ''type'' of None \<Rightarrow> JStr (inferred_type u) | Some a \<Rightarrow> a)"

definition has_type :: "json option \<Rightarrow> string \<Rightarrow> bool" where
  "has_type t s = (case t of Some (JArr xs) \<Rightarrow> JStr s \<in> set xs | _ \<Rightarrow> t = Some (JStr s))"

section \<open>Nullable schemas\<close>

definition is_null :: "json \<Rightarrow> bool" where
  "is_null x \<longleftrightarrow> x = JNull \<or> x = JStr ''null''"

definition is_nullable :: "json \<Rightarrow> bool" where
  "is_nullable u \<longleftrightarrow> opt_true (js_or (member u ''nullable'') (member u ''x-nullable''))"

text \<open>
  A list of types gets the null type if it has none; any other type becomes a list. The test
  whether that type is null already never holds, as it asks for two values at once.
\<close>

definition nullable_type :: "json \<Rightarrow> json \<Rightarrow> json" where
  "nullable_type u t =
     (if is_nullable u
      then (case t of
              JArr xs \<Rightarrow> if \<not> list_ex is_null xs then JArr (xs @ [JStr ''null'']) else t
            | _ \<Rightarrow> JArr [t, JStr ''null''])
      else t)"

fun join_text :: "string \<Rightarrow> string list \<Rightarrow> string" where
  "join_text sep [] = []"
| "join_text sep [w] = w"
| "join_text sep (w # wds) = w @ sep @ join_text sep wds"

definition display_type :: "json \<Rightarrow> string" where
  "display_type t = (case t of JArr xs \<Rightarrow> join_text '' or '' (map js_text xs) | _ \<Rightarrow> js_text t)"

section \<open>Primitive schemas\<close>

lemma member_smaller: "member j k = Some v \<Longrightarrow> size v < size j"
proof (cases j)
  case (JObj kvs)
  assume "member j k = Some v"
  then have "(k, v) \<in> set kvs" using JObj by (auto dest: map_of_SomeD)
  then show ?thesis unfolding JObj by (induction kvs) auto
qed simp_all

text \<open>An object without properties; reading the keys of \<open>null\<close> raises.\<close>

definition no_properties :: "json \<Rightarrow> parser_error + bool" where
  "no_properties e =
     (case member e ''properties'' of
        None \<Rightarrow> Inr (list_all (\<lambda>k. member e k = None) [''additionalProperties'', ''unevaluatedProperties'', ''patternProperties''])
      | Some JNull \<Rightarrow> Inl Type_Error
      | Some j \<Rightarrow> Inr (own_entries j = []))"

definition is_array :: "json option \<Rightarrow> bool" where
  "is_array v = (case v of Some (JArr _) \<Rightarrow> True | _ \<Rightarrow> False)"

definition conditional :: "json \<Rightarrow> bool" where
  "conditional e \<longleftrightarrow> opt_true (member e ''if'') \<and> (opt_true (member e ''then'') \<or> opt_true (member e ''else''))"

function is_primitive :: "json \<Rightarrow> json option \<Rightarrow> parser_error + bool" where
  "is_primitive e t =
     (if opt_true (member e ''x-circular-ref'') then Inr True
      else if member e ''oneOf'' \<noteq> None \<or> member e ''anyOf'' \<noteq> None then Inr False
      else if conditional e then Inr False
      else
        (case (if has_type t ''object'' then no_properties e else Inr True) of
           Inl er \<Rightarrow> Inl er
         | Inr n \<Rightarrow>
             if is_array (member e ''items'') \<or> is_array (member e ''prefixItems'') then Inr False
             else (case member e ''items'' of
                     None \<Rightarrow> Inr n
                   | Some i \<Rightarrow>
                       (case i of
                          JBool _ \<Rightarrow> Inr n
                        | JNull \<Rightarrow> if has_type t ''array'' then Inl Type_Error else Inr n
                        | _ \<Rightarrow> if has_type t ''array'' then is_primitive i (member i ''type'') else Inr n))))"
  by pat_completeness auto
termination
  by (relation "measure (\<lambda>(e, t). size e)") (auto dest: member_smaller)

declare is_primitive.simps [simp del]

section \<open>Properties of types\<close>

lemma find_SomeD: "List.find P xs = Some x \<Longrightarrow> x \<in> set xs \<and> P x"
  by (induction xs) (auto split: if_splits)

definition types_of :: "json \<Rightarrow> json list" where
  "types_of t = (case t of JArr xs \<Rightarrow> xs | _ \<Rightarrow> [t])"

text \<open>
  A nullable schema is shown with a list of types that has the null type, all the types the
  schema had, and no others; a schema that is not nullable keeps its type.
\<close>

theorem nullable_type_has_null:
  "if is_nullable u
   then (\<exists>xs. nullable_type u t = JArr xs \<and> list_ex is_null xs \<and> filter (\<lambda>x. \<not> is_null x) xs = filter (\<lambda>x. \<not> is_null x) (types_of t))
   else nullable_type u t = t"
  by (cases t) (auto simp: nullable_type_def types_of_def list_ex_iff is_null_def filter_empty_conv)

text \<open>A nullable schema of the type null is shown with that type twice.\<close>

lemma null_shown_twice:
  "display_type (nullable_type (JObj [(''nullable'', JBool True)]) (JStr ''null'')) = ''null or null''"
  by code_simp

text \<open>
  The type of a schema is the one it declares; without one, every keyword that tells a type is
  looked for in a fixed order and the first that the schema has decides, so that keywords of one
  type give that type.
\<close>

theorem type_of_keywords:
  assumes "member u ''type'' = None" "\<And>k t'. (k, t') \<in> set rs \<Longrightarrow> member u k \<noteq> None \<Longrightarrow> t' = t"
    and "(k, t) \<in> set rs" "member u k \<noteq> None"
  shows "schema_type u = JStr t"
proof -
  from assms(3,4) obtain kt where kt: "List.find (\<lambda>(k, _). member u k \<noteq> None) rs = Some kt"
    by (cases "List.find (\<lambda>(k, _). member u k \<noteq> None) rs") (auto simp: find_None_iff)
  then have "kt \<in> set rs" "member u (fst kt) \<noteq> None" by (auto dest!: find_SomeD simp: case_prod_beta)
  then have "snd kt = t" using assms(2) [of "fst kt" "snd kt"] by simp
  then show ?thesis using assms(1) kt by (auto simp: schema_type_def inferred_type_def split: prod.split)
qed

theorem type_of_keywords_witness:
  "schema_type (JObj [(''minLength'', JInt 1), (''pattern'', JStr ''a'')]) = JStr ''string''"
proof (rule type_of_keywords [where k = "''pattern''"])
  fix k t' assume kt: "(k, t') \<in> set rs" "member (JObj [(''minLength'', JInt 1), (''pattern'', JStr ''a'')]) k \<noteq> None"
  then have "k \<in> {''minLength'', ''pattern''}" by (auto split: if_splits)
  with kt(1) show "t' = ''string''" by (auto simp: rs_def)
qed (simp_all add: rs_def)

text \<open>
  Whether a schema is primitive is decided for every schema, and a primitive object, unless it
  is circular or also an array, has no alternatives, no conditions and no properties to expand.
\<close>

theorem primitive_object_is_closed:
  assumes "is_primitive e t = Inr True" "has_type t ''object''" "\<not> has_type t ''array''" "\<not> opt_true (member e ''x-circular-ref'')"
  shows "member e ''oneOf'' = None \<and> member e ''anyOf'' = None \<and> \<not> conditional e \<and> no_properties e = Inr True"
  using assms by (subst (asm) is_primitive.simps) (auto split: if_splits sum.splits option.splits json.splits)

theorem primitive_object_is_closed_witness:
  "is_primitive (JObj [(''type'', JStr ''object'')]) (Some (JStr ''object'')) = Inr True \<and>
   no_properties (JObj [(''type'', JStr ''object'')]) = Inr True"
proof
  show p: "is_primitive (JObj [(''type'', JStr ''object'')]) (Some (JStr ''object'')) = Inr True" by code_simp
  show "no_properties (JObj [(''type'', JStr ''object'')]) = Inr True"
    using primitive_object_is_closed [OF p] by (simp add: has_type_def opt_true_def)
qed

text \<open>
  A schema that is an object or an array counts as primitive when its items do, although it has
  properties.
\<close>

lemma array_hides_properties:
  "is_primitive (JObj [(''properties'', JObj [(''id'', JObj [])]), (''items'', JObj [(''type'', JStr ''string'')])])
     (Some (JArr [JStr ''object'', JStr ''array''])) = Inr True"
  by code_simp

end
