(* ===== verification/Spec2Isabelle.thy ===== *)
theory Spec2Isabelle
  imports Queue_Status File_Conversion Redoc_Scroll Redoc_Search Analysis_Reach Redoc_Layout Redoc_Operations Redoc_Sampler Redoc_Types
begin

text \<open>
  \<^bold>\<open>Verification of the Oasis Platform\<close>

  The repository holds the server of the Oasis catastrophe-modelling platform (Django and Celery, in
  \<open>src/server/oasisapi\<close>), the controller that scales its model workers on Kubernetes
  (\<open>kubernetes/worker-controller\<close>), the workers, and the API documentation page, which is the ReDoc
  bundle \<open>docs/source/_static/redoc/redoc.standalone.js\<close>. A request starts input generation or a run
  of an analysis; the task controller splits it into sub-tasks for the workers; recording tasks
  write results and states back; the queue state tells the controller how many workers to run. The
  bundle is third-party JavaScript that the repository ships; its application code is modelled
  beside the platform's own.

  \<^bold>\<open>Theories\<close>

  \<^item> \<open>Oasis_Prelude\<close>: exceptions as values (\<open>result\<close>), lists, strings and association lists shared by
    all theories, with the collections \<open>exn_simps\<close> and others, and the locale \<open>step_invariant\<close> that
    carries a property over any number of steps.
  \<^item> \<open>Autoscaler_Rules\<close>, \<open>Worker_Deployments\<close>, \<open>Autoscaler\<close>: \<open>autoscaler_rules.py\<close>, \<open>models.py\<close>,
    \<open>worker_deployments.py\<close>, \<open>cluster_client.py\<close>, \<open>oasis_client.py\<close> and \<open>autoscaler.py\<close> of the worker
    controller. The desired number of workers is within its limits and enough; the cache refines a
    table of last counts (locale \<open>deployment_cache\<close>); aggregation and prioritisation equal their
    specifications; scaling stays within the limit, a scale-up cancels a planned shutdown, and every
    idle deployment has a timer.
  \<^item> \<open>Oasis_Json\<close>, \<open>Database\<close>: JSON values as Python reads them; the rows of \<open>models.py\<close> of analyses,
    files, models and portfolios, with deletion following foreign keys.
  \<^item> \<open>Group_Auth\<close>: \<open>permissions/group_auth.py\<close>; who sees and writes what, once for all view sets in the
    locale \<open>access_policy\<close>.
  \<^item> \<open>Related_Files\<close>: \<open>files/models.py\<close>, \<open>files/upload.py\<close> and storing of worker output; the wait for a
    blob copy polls at most 16 times.
  \<^item> \<open>Analysis_Lifecycle\<close>: \<open>analyses/models.py\<close> and the handlers of \<open>analyses/v2_api/viewsets.py\<close>: what
    starting, cancelling, copying and deleting an analysis checks and changes, and the errors.
  \<^item> \<open>Task_Controller\<close>: \<open>analyses/v2_api/task_controller.py\<close>; chunk numbers and the recorded
    task identifiers of one stage or both.
  \<^item> \<open>Task_World\<close>, \<open>Analysis_Tasks_V2\<close>, \<open>Analysis_Tasks_V1\<close>, \<open>Analysis_Reach\<close>: the tasks of
    \<open>analyses/v2_api/tasks.py\<close> and \<open>analyses/v1_api/tasks.py\<close> as a state, effects and errors; steps of
    the whole server, and invariants over every interleaving (locales \<open>file_invariant\<close> and
    \<open>db_invariant\<close>). A failure callback retries at most 8 times.
  \<^item> \<open>File_Conversion\<close>: the request \<open>convert\<close> and the task \<open>run_file_conversion\<close> of \<open>files/v2_api\<close>, as
    functions and as interleaved steps with automatic retries and redelivery: one running task per
    file, what each branch records and which file a worker is given then, the state that no later
    request or retry leaves, and the names of converted files.
  \<^item> \<open>Queue_Status\<close>: \<open>queues/utils.py\<close>, \<open>queues/consumers.py\<close>, \<open>queues/views.py\<close> and the serialized analysis
    of the status message. The counts are those of the rows; the message of the server, read by
    \<open>Autoscaler\<close>, gives the worker controller exactly the running analyses; progress reports add up.
  \<^item> \<open>Redoc_Css\<close>, \<open>Redoc_Styles\<close>, \<open>Redoc_Styles_Content\<close>, \<open>Redoc_Styles_Page\<close>: the styled components of the
    bundle, one definition per template literal, as tokens over a context (theme, properties, colour
    functions). \<open>Redoc_Structure\<close> reads tokens as nested blocks; \<open>Redoc_Layout\<close> shows which components
    are well nested, that reading and printing agree, and how the columns and the navigation behave.
  \<^item> \<open>Redoc_Theme\<close>: the default theme, merging settings and resolving entries that are functions,
    which may throw; the run counter of 1000 makes every resolution end, so the bound 1001 on the
    nesting is never met.
  \<^item> \<open>Redoc_Util\<close>: JSON pointers, response codes, texts for limits, order of fields.
  \<^item> \<open>Redoc_Text\<close>: encoding of addresses, and the HTML of a JSON sample (\<open>rh\<close>, \<open>ih\<close>, \<open>sh\<close>, \<open>nh\<close>): a reader of
    the HTML gets the text of the sample back, and the sample adds no tags but links to addresses.
  \<^item> \<open>Redoc_Parser\<close>: references of an OpenAPI document (class \<open>vc\<close>). A call is a \<open>run\<close>: it never returns,
    raises, or returns. Following references returns for finite chains and does not for circles.
  \<^item> \<open>Redoc_Schema\<close>: merging \<open>allOf\<close> (\<open>vc.mergeAllOf\<close>, a partial function whose body \<open>merge_step\<close> takes the
    recursive call as an argument), derived schemas and the choices of a discriminator: what merging
    returns has no \<open>allOf\<close>, which keywords it keeps, and in which order choices are offered.
  \<^item> \<open>Redoc_Types\<close>: the type shown for a schema, nullable types, primitive schemas (\<open>Tc.init\<close>, \<open>is\<close>).
  \<^item> \<open>Redoc_Sampler\<close>: samples of numbers, texts, identifiers (32-bit words), arrays and objects (\<open>eu\<close>, \<open>qc\<close>, \<open>iu\<close>,
    \<open>ou\<close>, and the samplers of arrays and objects): samples meet the limits of the schema, with the
    exceptions where they do not, and identifiers are version 4 UUIDs.
  \<^item> \<open>Redoc_Menu\<close>: the menu (classes \<open>hf\<close>, \<open>rf\<close>, \<open>Tu\<close>, \<open>vf\<close>) as objects with parents, events as steps; which
    items are marked and expanded in every reachable state, that scrolling ends, and that the hash of
    the location leads back to the item (\<open>zs\<close>). The positions of objects bound the recursion over
    parents and children (\<open>chain_closed\<close>, \<open>flatten_items_enough\<close>).
  \<^item> \<open>Redoc_Scroll\<close>: the scroll service (class \<open>Sf\<close>) with its throttle of 100 milliseconds between the
    browser and \<open>Redoc_Menu\<close>: runs are spaced, no event is lost, and the menu is that of looking at the
    page at the offsets of the runs, the last of which is the final one.
  \<^item> \<open>Redoc_Search\<close>: the index of the menu (class \<open>Of\<close> and its worker) and the search box (class \<open>Gv\<close>): hits are
    items of the menu, the enter key activates what is highlighted, and what the box shows at the end.
    The index package lunr is a parameter with the laws \<open>lunr_laws\<close>.
  \<^item> \<open>Redoc_Operations\<close>: the operations of a document by tag (\<open>hf.getTagsWithOperations\<close>), the document as the
    menu reads it, and the parameters and responses of an operation (\<open>Tu\<close>).

  \<^bold>\<open>Conventions\<close>

  Names follow the source; the minified names of the bundle are kept. Exceptions are \<open>Inl\<close> values,
  loops are recursion, \<open>partial_function (option)\<close> is used where a loop may not end. Celery, Kubernetes,
  the clock, random names, storage services and the browser page are parameters or recorded effects.
  Numbers of the theme are exact decimals with two places; the floats of the chunk numbers and of the
  samples are exact numbers, with the bounds up to which this is right beside them. Strings are UTF-8
  bytes, also where the bundle counts their length in UTF-16 units (the shortest search term).

  \<^bold>\<open>Not modelled\<close>

  The libraries inside the bundle (React, mobx, styled-components, marked, Prism, lunr, polished and
  others) and the rendering functions; in ReDoc the tree of fields below a schema, the dispatcher of the
  sampler, which compares schemas by object identity, texts for patterns, the normalisation of
  options and the marking of terms; connecting and broadcasting of sockets, portfolio, model and data
  file views, the other serializers, authentication, the workers and file stores, settings, migrations
  and deployment scripts. Requests of a view are single steps where a theory interleaves them with
  tasks; \<open>interleaved_requests\<close> shows what two of them that overlap do. Errors of the message broker
  when a task is sent are not modelled.
\<close>

end
